theory Spec2Isabelle
  imports
    Complex_Main
    "HOL-Library.Sublist"
    "HOL-Library.Char_ord"
    "HOL-Library.List_Lexorder"
    "HOL-Library.AList"
begin

section \<open>Strings\<close>

text \<open>
  A JavaScript string is a sequence of UTF-16 code units. The model uses \<open>string\<close>
  (a list of 8-bit characters) and reads a character as the code unit of the same number,
  so it covers the requests and names whose code units are below 256. The order on
  characters (\<open>Char_ord\<close>) is the order of their codes and the order on strings
  (\<open>List_Lexorder\<close>) is the lexicographic one: the order \<^verbatim>\<open>Array.prototype.sort\<close>
  uses when it is given no comparator.
\<close>

definition isSpace :: "char \<Rightarrow> bool" where
  \<comment> \<open>the class \<^verbatim>\<open>\s\<close> on code units below 256: space, TAB, LF, VT, FF, CR and NBSP\<close>
  "isSpace c \<longleftrightarrow>
     c \<in> set [CHR 0x20, CHR 0x09, CHR 0x0A, CHR 0x0B, CHR 0x0C, CHR 0x0D, CHR 0xA0]"

definition isUpper :: "char \<Rightarrow> bool" where
  \<comment> \<open>\<open>A\<close> to \<open>Z\<close>, and the Latin-1 capitals 0xC0 to 0xDE without the sign 0xD7\<close>
  "isUpper c \<longleftrightarrow>
     (let n = (of_char c :: nat)
      in (65 \<le> n \<and> n \<le> 90) \<or> (192 \<le> n \<and> n \<le> 222 \<and> n \<noteq> 215))"

fun set_bit5 :: "char \<Rightarrow> char" where
  \<comment> \<open>adds 32 to the code of a capital: its bit 5 is clear\<close>
  "set_bit5 (Char b0 b1 b2 b3 b4 b5 b6 b7) = Char b0 b1 b2 b3 b4 True b6 b7"

definition toLowerCase_char :: "char \<Rightarrow> char" where
  "toLowerCase_char c = (if isUpper c then set_bit5 c else c)"

definition toLowerCase :: "string \<Rightarrow> string" where
  "toLowerCase s = map toLowerCase_char s"

text \<open>
  \<^verbatim>\<open>s.split(/\s+/)\<close>: the pieces between the maximal runs of white space. A run at the
  start or at the end of the string leaves an empty piece there, and the empty string
  gives one empty piece. \<open>in_sep\<close> says that the character before was white space.
\<close>

fun split_run :: "bool \<Rightarrow> string \<Rightarrow> string list" where
  "split_run in_sep [] = [[]]"
| "split_run in_sep (c # cs) =
     (if isSpace c then (if in_sep then split_run True cs else [] # split_run True cs)
      else (case split_run False cs of [] \<Rightarrow> [[c]] | t # ts \<Rightarrow> (c # t) # ts))"

definition split_ws :: "string \<Rightarrow> string list" where
  "split_ws s = split_run False s"

section \<open>core.ts: parseAction\<close>

datatype ActionType =
    list_agents | list_categories | list_skills | check_updates | run_diagnostics
  | backup_configs | show_permissions | compare_backup | restore_backup
  | add_agent | modify_agent | add_category | modify_category
  | disable_hook | enable_hook | list_oc_models | unknown

definition hasWord :: "string list \<Rightarrow> string \<Rightarrow> bool" where
  \<comment> \<open>\<^verbatim>\<open>words.some(w => w === word || w.startsWith(word))\<close>\<close>
  "hasWord words word = list_ex (\<lambda>w. w = word \<or> prefix word w) words"

definition parseAction :: "string \<Rightarrow> ActionType" where
  "parseAction request =
     (let lowerRequest = toLowerCase request;
          words = split_ws lowerRequest;
          has = hasWord words
      in
      if (has ''list'' \<or> has ''show'' \<or> has ''what'') \<and> has ''agent'' then list_agents
      else if (has ''list'' \<or> has ''show'' \<or> has ''what'') \<and> has ''categor'' then list_categories
      else if (has ''list'' \<or> has ''show'' \<or> has ''what'') \<and> has ''skill'' then list_skills
      else if (has ''list'' \<or> has ''show'') \<and> (has ''model'' \<or> has ''oc-model'') then list_oc_models
      else if has ''update'' \<or> (has ''check'' \<and> has ''update'') then check_updates
      else if has ''diagnostic'' \<or> (has ''run'' \<and> has ''diagnostic'') then run_diagnostics
      else if has ''valid'' \<or> (has ''check'' \<and> \<not> has ''update'') then run_diagnostics
      else if has ''backup'' then backup_configs
      else if has ''restore'' then restore_backup
      else if has ''compare'' \<or> has ''diff'' then compare_backup
      else if has ''permission'' \<or> has ''perm'' then show_permissions
      else if has ''add'' \<and> has ''agent'' then add_agent
      else if (has ''modify'' \<or> has ''change'' \<or> has ''edit'' \<or> has ''update'') \<and> has ''agent''
        then modify_agent
      else if has ''add'' \<and> has ''categor'' then add_category
      else if (has ''modify'' \<or> has ''change'' \<or> has ''edit'' \<or> has ''update'') \<and> has ''categor''
        then modify_category
      else if has ''disable'' \<and> has ''hook'' then disable_hook
      else if has ''enable'' \<and> has ''hook'' then enable_hook
      else unknown)"

section \<open>core.ts: isSafeConfigKey and the known hooks\<close>

definition FORBIDDEN_KEYS :: "string list" where
  "FORBIDDEN_KEYS = [''__proto__'', ''prototype'', ''constructor'']"

definition isAlnum :: "char \<Rightarrow> bool" where
  \<comment> \<open>the class \<^verbatim>\<open>[a-z0-9]\<close> under the flag \<^verbatim>\<open>i\<close>: an ASCII letter or digit\<close>
  "isAlnum c \<longleftrightarrow>
     (let n = (of_char c :: nat)
      in (97 \<le> n \<and> n \<le> 122) \<or> (65 \<le> n \<and> n \<le> 90) \<or> (48 \<le> n \<and> n \<le> 57))"

definition isKeyChar :: "char \<Rightarrow> bool" where
  \<comment> \<open>the class \<^verbatim>\<open>[a-z0-9_-]\<close> under the flag \<^verbatim>\<open>i\<close>\<close>
  "isKeyChar c \<longleftrightarrow> isAlnum c \<or> c = CHR ''_'' \<or> c = CHR ''-''"

definition matchesKeyPattern :: "string \<Rightarrow> bool" where
  \<comment> \<open>\<^verbatim>\<open>/^[a-z0-9][a-z0-9_-]{0,63}$/i.test(key)\<close>\<close>
  "matchesKeyPattern key =
     (case key of [] \<Rightarrow> False
      | c # cs \<Rightarrow> isAlnum c \<and> length cs \<le> 63 \<and> list_all isKeyChar cs)"

definition isSafeConfigKey :: "string \<Rightarrow> bool" where
  "isSafeConfigKey key =
     (if key = [] then False
      else let lower = toLowerCase key
           in if lower \<in> set FORBIDDEN_KEYS then False
              else matchesKeyPattern key)"

definition KNOWN_HOOKS :: "string list" where
  "KNOWN_HOOKS =
     [''todo-continuation-enforcer'', ''context-window-monitor'', ''session-recovery'',
      ''session-notification'', ''comment-checker'', ''grep-output-truncator'',
      ''tool-output-truncator'', ''directory-agents-injector'', ''directory-readme-injector'',
      ''empty-task-response-detector'', ''think-mode'',
      ''anthropic-context-window-limit-recovery'', ''rules-injector'',
      ''background-notification'', ''auto-update-checker'', ''startup-toast'',
      ''keyword-detector'', ''agent-usage-reminder'', ''non-interactive-env'',
      ''interactive-bash-session'', ''compaction-context-injector'',
      ''thinking-block-validator'', ''claude-code-hooks'', ''ralph-loop'',
      ''preemptive-compaction'']"

section \<open>types.ts: the configuration documents\<close>

text \<open>
  A property typed \<^verbatim>\<open>number\<close> holds a double: a finite one, which is a rational and
  compares as that rational, \<^verbatim>\<open>NaN\<close>, or one of the two infinities. After \<^verbatim>\<open>JSON.parse\<close> it
  can also hold \<^verbatim>\<open>null\<close>, which is what \<^verbatim>\<open>JSON.stringify\<close> writes for \<^verbatim>\<open>NaN\<close> and for the
  infinities.
\<close>

datatype number = Finite rat | NaN | Infinity | Minus_Infinity | Null

definition ToNumber :: "number \<Rightarrow> number" where
  \<comment> \<open>the conversion a comparison applies to its operands: \<^verbatim>\<open>null\<close> becomes \<^verbatim>\<open>0\<close>\<close>
  "ToNumber v = (case v of Null \<Rightarrow> Finite 0 | _ \<Rightarrow> v)"

definition less_number :: "number \<Rightarrow> number \<Rightarrow> bool" where
  \<comment> \<open>\<^verbatim>\<open>a < b\<close>: false as soon as an operand is \<^verbatim>\<open>NaN\<close>\<close>
  "less_number a b =
     (case (ToNumber a, ToNumber b) of
        (Finite x, Finite y) \<Rightarrow> x < y
      | (Finite x, Infinity) \<Rightarrow> True
      | (Minus_Infinity, Finite y) \<Rightarrow> True
      | (Minus_Infinity, Infinity) \<Rightarrow> True
      | _ \<Rightarrow> False)"

definition json_number :: "number \<Rightarrow> number" where
  \<comment> \<open>\<^verbatim>\<open>JSON.parse(JSON.stringify(v))\<close> of a number\<close>
  "json_number v = (case v of Finite x \<Rightarrow> Finite x | _ \<Rightarrow> Null)"

text \<open>
  Every field of the interfaces is optional: \<open>None\<close> is a key that is absent (or
  \<^verbatim>\<open>undefined\<close>, which \<^verbatim>\<open>JSON.stringify\<close> leaves out). A value of type
  \<^verbatim>\<open>unknown\<close> is kept as its JSON text. \<^verbatim>\<open>OmoAgent\<close> has every field of \<^verbatim>\<open>OmoCategory\<close>
  and four more, so it is the extension of that record.
\<close>

type_synonym unknown = string

record OmoCategory =
  model :: "string option"
  temperature :: "number option"
  top_p :: "number option"
  maxTokens :: "number option"
  prompt_append :: "string option"

record OmoAgent = OmoCategory +
  disable :: "bool option"
  permission :: "(string \<times> string) list option"
  description :: "string option"
  tools :: "(string \<times> unknown) list option"

text \<open>
  The interfaces are erased at run time: \<^verbatim>\<open>readJsonFile<T>\<close> casts whatever object the file
  holds. \<^verbatim>\<open>OmoConfig\<close> and \<^verbatim>\<open>OpenCodeConfig\<close> are therefore two views of one type of JSON
  object, which has the keys of both (the key \<^verbatim>\<open>permission\<close> of \<^verbatim>\<open>OpenCodeConfig\<close> is
  \<open>oc_permission\<close> here, \<^verbatim>\<open>agent\<close> and \<^verbatim>\<open>instruction\<close> and every further key are in
  \<open>passthrough\<close>). The objects under \<^verbatim>\<open>agents\<close> and \<^verbatim>\<open>categories\<close> are maps from keys to
  entries; the order of their keys only shows in the listings.
\<close>

record JsonObject =
  agents :: "(string \<rightharpoonup> OmoAgent) option"
  categories :: "(string \<rightharpoonup> OmoCategory) option"
  disabled_hooks :: "string list option"
  sisyphus_agent :: "string option"
  background_task_concurrency :: "number option"
  mcp :: "(string \<times> unknown) list option"
  lsp :: "(string \<times> unknown) list option"
  skills :: "(string \<times> unknown) list option"
  provider :: "(string \<times> unknown) list option"
  oc_permission :: "(string \<times> string) list option"
  plugin :: "string list option"
  passthrough :: "(string \<times> unknown) list"

type_synonym OmoConfig = JsonObject
type_synonym OpenCodeConfig = JsonObject

definition empty_object :: JsonObject where
  \<comment> \<open>the literal \<^verbatim>\<open>{}\<close>\<close>
  "empty_object =
     \<lparr>agents = None, categories = None, disabled_hooks = None, sisyphus_agent = None,
      background_task_concurrency = None, mcp = None, lsp = None, skills = None,
      provider = None, oc_permission = None, plugin = None, passthrough = []\<rparr>"

definition empty_category :: OmoCategory where
  "empty_category =
     \<lparr>model = None, temperature = None, top_p = None, maxTokens = None, prompt_append = None\<rparr>"

definition empty_agent :: OmoAgent where
  "empty_agent =
     \<lparr>model = None, temperature = None, top_p = None, maxTokens = None, prompt_append = None,
      disable = None, permission = None, description = None, tools = None\<rparr>"

text \<open>
  \<^verbatim>\<open>JSON.parse(JSON.stringify(obj))\<close>: what comes back of an object that was written.
\<close>

definition json_entry :: "'a OmoCategory_scheme \<Rightarrow> 'a OmoCategory_scheme" where
  "json_entry e =
     e\<lparr>temperature := map_option json_number (temperature e),
       top_p := map_option json_number (top_p e),
       maxTokens := map_option json_number (maxTokens e)\<rparr>"

definition reparse :: "JsonObject \<Rightarrow> JsonObject" where
  "reparse obj =
     obj\<lparr>agents := map_option (\<lambda>m. map_option json_entry \<circ> m) (agents obj),
         categories := map_option (\<lambda>m. map_option json_entry \<circ> m) (categories obj),
         background_task_concurrency :=
           map_option json_number (background_task_concurrency obj)\<rparr>"

text \<open>
  Reading a property of an object that \<^verbatim>\<open>JSON.parse\<close> or a literal made: the object's own
  entry, else the member of \<^verbatim>\<open>Object.prototype\<close> of that name, else \<^verbatim>\<open>undefined\<close>. An own
  entry (an object) and an inherited member (a function, or the prototype itself) are
  truthy.
\<close>

datatype 'a property = Own 'a | Inherited | Undefined

definition OBJECT_PROTOTYPE_KEYS :: "string list" where
  "OBJECT_PROTOTYPE_KEYS =
     [''constructor'', ''__proto__'', ''hasOwnProperty'', ''isPrototypeOf'',
      ''propertyIsEnumerable'', ''toLocaleString'', ''toString'', ''valueOf'',
      ''__defineGetter__'', ''__defineSetter__'', ''__lookupGetter__'', ''__lookupSetter__'']"

definition js_get :: "(string \<rightharpoonup> 'a) \<Rightarrow> string \<Rightarrow> 'a property" where
  "js_get obj key =
     (case obj key of Some v \<Rightarrow> Own v
      | None \<Rightarrow> if key \<in> set OBJECT_PROTOTYPE_KEYS then Inherited else Undefined)"

definition truthy :: "string option \<Rightarrow> bool" where
  \<comment> \<open>of an optional string: present and not empty\<close>
  "truthy s \<longleftrightarrow> (case s of None \<Rightarrow> False | Some v \<Rightarrow> v \<noteq> [])"

section \<open>The environment: files, failures, the clock\<close>

text \<open>
  A path is a directory and a file name: \<^verbatim>\<open>path.join(dir, name)\<close> is the pair. The
  configuration directory is what \<^verbatim>\<open>getOpenCodeConfigDir()\<close> returns and the archive is its
  subdirectory \<^verbatim>\<open>archive\<close>. A file holds text that neither \<^verbatim>\<open>JSON.parse\<close> nor the lenient
  reader accepts, or JSON: \<open>Json obj\<close> is the text \<^verbatim>\<open>JSON.stringify(obj)\<close>, and reading it gives
  \<open>reparse obj\<close>.
\<close>

datatype dir = ConfigDir | ArchiveDir

type_synonym path = "dir \<times> string"

datatype filedata = Unparsable | Json JsonObject

datatype ioop =
    Access path | ReadFile path | Readdir dir
  | Mkdir dir | CopyFile path path | WriteFile path | Unlink path

datatype error = Failed ioop | ParseFailure path

text \<open>
  The trace records, oldest first, every call of \<open>backupConfigsInternal\<close> with its two
  paths and every operation that changes the disk, whether it succeeds or not.
\<close>

datatype event = BackupAttempt path path | Effect ioop

text \<open>
  \<^verbatim>\<open>new Date()\<close>: the calendar date in UTC, which \<^verbatim>\<open>toISOString\<close> prints, and the time of
  day in the local zone, which \<^verbatim>\<open>toTimeString\<close> prints before the name of the zone.
\<close>

record Date =
  utc_year :: int
  utc_month :: nat
  utc_day :: nat
  utc_hours :: nat
  utc_minutes :: nat
  utc_seconds :: nat
  utc_millis :: nat
  local_hours :: nat
  local_minutes :: nat
  local_seconds :: nat
  zone :: string

text \<open>
  \<open>files\<close> lists the regular files with their contents, \<open>refused\<close> says which operations
  the system refuses (a permission, a full disk), \<open>now\<close> is the clock.
\<close>

record world =
  files :: "(path \<times> filedata) list"
  refused :: "ioop \<Rightarrow> bool"
  now :: Date
  trace :: "event list"

definition log :: "event \<Rightarrow> world \<Rightarrow> world" where
  "log e w = w\<lparr>trace := trace w @ [e]\<rparr>"

definition fs_access :: "path \<Rightarrow> world \<Rightarrow> bool" where
  "fs_access p w \<longleftrightarrow> map_of (files w) p \<noteq> None \<and> \<not> refused w (Access p)"

definition fs_readdir :: "dir \<Rightarrow> world \<Rightarrow> error + string list" where
  \<comment> \<open>a directory that does not exist lists as an empty one: \<open>listBackups\<close> maps ENOENT to \<open>[]\<close>\<close>
  "fs_readdir d w =
     (if refused w (Readdir d) then Inl (Failed (Readdir d))
      else Inr (map snd (filter (\<lambda>p. fst p = d) (map fst (files w)))))"

definition fs_mkdir :: "dir \<Rightarrow> world \<Rightarrow> (error + unit) \<times> world" where
  \<comment> \<open>\<^verbatim>\<open>fs.mkdir(dir, { recursive: true })\<close>\<close>
  "fs_mkdir d w =
     (let w' = log (Effect (Mkdir d)) w
      in if refused w (Mkdir d) then (Inl (Failed (Mkdir d)), w') else (Inr (), w'))"

definition fs_copyFile :: "path \<Rightarrow> path \<Rightarrow> world \<Rightarrow> (error + unit) \<times> world" where
  "fs_copyFile src dst w =
     (let w' = log (Effect (CopyFile src dst)) w
      in case map_of (files w) src of
           None \<Rightarrow> (Inl (Failed (CopyFile src dst)), w')
         | Some content \<Rightarrow>
             if refused w (CopyFile src dst) then (Inl (Failed (CopyFile src dst)), w')
             else (Inr (), w'\<lparr>files := AList.update dst content (files w')\<rparr>))"

definition fs_writeFile :: "path \<Rightarrow> filedata \<Rightarrow> world \<Rightarrow> (error + unit) \<times> world" where
  "fs_writeFile p content w =
     (let w' = log (Effect (WriteFile p)) w
      in if refused w (WriteFile p) then (Inl (Failed (WriteFile p)), w')
         else (Inr (), w'\<lparr>files := AList.update p content (files w')\<rparr>))"

definition fs_unlink :: "path \<Rightarrow> world \<Rightarrow> (error + unit) \<times> world" where
  "fs_unlink p w =
     (let w' = log (Effect (Unlink p)) w
      in if map_of (files w) p = None \<or> refused w (Unlink p) then (Inl (Failed (Unlink p)), w')
         else (Inr (), w'\<lparr>files := AList.delete p (files w')\<rparr>))"

section \<open>Library functions: path and Date\<close>

definition extname :: "path \<Rightarrow> string" where
  \<comment> \<open>\<^verbatim>\<open>path.extname\<close>: from the last dot of the file name on; empty when the name has no
     dot, when its only dot comes first, and for the name \<^verbatim>\<open>..\<close>\<close>
  "extname p =
     (let base = snd p;
          after = rev (takeWhile (\<lambda>c. c \<noteq> CHR ''.'') (rev base))
      in if CHR ''.'' \<notin> set base \<or> Suc (length after) = length base \<or> base = ''..'' then []
         else CHR ''.'' # after)"

definition basename :: "path \<Rightarrow> string" where
  "basename p = snd p"

definition digit :: "nat \<Rightarrow> char" where
  "digit k = ''0123456789'' ! (k mod 10)"

definition pad2 :: "nat \<Rightarrow> string" where
  "pad2 k = [digit (k div 10), digit k]"

definition pad3 :: "nat \<Rightarrow> string" where
  "pad3 k = [digit (k div 100), digit (k div 10), digit k]"

definition pad4 :: "nat \<Rightarrow> string" where
  "pad4 k = [digit (k div 1000), digit (k div 100), digit (k div 10), digit k]"

definition pad6 :: "nat \<Rightarrow> string" where
  "pad6 k =
     [digit (k div 100000), digit (k div 10000), digit (k div 1000), digit (k div 100),
      digit (k div 10), digit k]"

definition valid_Date :: "Date \<Rightarrow> bool" where
  \<comment> \<open>the dates of the years 0 to 9999, which \<open>toISOString\<close> prints with four digits\<close>
  "valid_Date d \<longleftrightarrow>
     0 \<le> utc_year d \<and> utc_year d \<le> 9999 \<and> 1 \<le> utc_month d \<and> utc_month d \<le> 12 \<and>
     1 \<le> utc_day d \<and> utc_day d \<le> 31 \<and> utc_hours d < 24 \<and> utc_minutes d < 60 \<and>
     utc_seconds d < 60 \<and> utc_millis d < 1000 \<and>
     local_hours d < 24 \<and> local_minutes d < 60 \<and> local_seconds d < 60"

definition year_digits :: "int \<Rightarrow> string" where
  \<comment> \<open>four digits, or a sign and six digits for a year outside 0 to 9999\<close>
  "year_digits y =
     (if 0 \<le> y \<and> y \<le> 9999 then pad4 (nat y)
      else (if y < 0 then ''-'' else ''+'') @ pad6 (nat \<bar>y\<bar>))"

definition toISOString :: "Date \<Rightarrow> string" where
  \<comment> \<open>\<^verbatim>\<open>YYYY-MM-DDTHH:mm:ss.sssZ\<close>, in UTC\<close>
  "toISOString d =
     year_digits (utc_year d) @ ''-'' @ pad2 (utc_month d) @ ''-'' @ pad2 (utc_day d) @ ''T'' @
     pad2 (utc_hours d) @ '':'' @ pad2 (utc_minutes d) @ '':'' @ pad2 (utc_seconds d) @ ''.'' @
     pad3 (utc_millis d) @ ''Z''"

definition toTimeString :: "Date \<Rightarrow> string" where
  \<comment> \<open>\<^verbatim>\<open>HH:mm:ss GMT+hhmm (zone name)\<close>, in local time\<close>
  "toTimeString d =
     pad2 (local_hours d) @ '':'' @ pad2 (local_minutes d) @ '':'' @ pad2 (local_seconds d) @
     '' '' @ zone d"

definition split_first :: "char \<Rightarrow> string \<Rightarrow> string" where
  \<comment> \<open>\<^verbatim>\<open>s.split(sep)[0]\<close> for a separator of one character\<close>
  "split_first sep s = takeWhile (\<lambda>c. c \<noteq> sep) s"

definition remove_all :: "char \<Rightarrow> string \<Rightarrow> string" where
  \<comment> \<open>\<^verbatim>\<open>s.replace(/c/g, '')\<close>\<close>
  "remove_all c s = filter (\<lambda>x. x \<noteq> c) s"

section \<open>utils.ts\<close>

definition getOmoConfigPath :: path where
  "getOmoConfigPath = (ConfigDir, ''oh-my-opencode.json'')"

definition getOmoConfigPathCandidates :: "path list" where
  "getOmoConfigPathCandidates =
     [(ConfigDir, ''oh-my-opencode.json''), (ConfigDir, ''oh-my-opencode.jsonc'')]"

definition getOpenCodeConfigPath :: path where
  "getOpenCodeConfigPath = (ConfigDir, ''opencode.json'')"

definition getOpenCodeConfigPathCandidates :: "path list" where
  "getOpenCodeConfigPathCandidates = [(ConfigDir, ''opencode.json''), (ConfigDir, ''opencode.jsonc'')]"

definition firstExistingPath :: "path list \<Rightarrow> world \<Rightarrow> path option" where
  "firstExistingPath candidates w = find (\<lambda>p. fs_access p w) candidates"

definition resolveOpenCodeConfigPath :: "world \<Rightarrow> path" where
  "resolveOpenCodeConfigPath w =
     (case firstExistingPath getOpenCodeConfigPathCandidates w of
        Some p \<Rightarrow> p | None \<Rightarrow> getOpenCodeConfigPath)"

definition resolveOmoConfigPath :: "world \<Rightarrow> path" where
  "resolveOmoConfigPath w =
     (case firstExistingPath getOmoConfigPathCandidates w of
        Some p \<Rightarrow> p | None \<Rightarrow> getOmoConfigPath)"

definition getArchiveDir :: dir where
  "getArchiveDir = ArchiveDir"

definition readJsonFile :: "path \<Rightarrow> JsonObject \<Rightarrow> world \<Rightarrow> error + JsonObject" where
  \<comment> \<open>a missing file gives the default value; any other failure is thrown\<close>
  "readJsonFile filePath defaultValue w =
     (case map_of (files w) filePath of
        None \<Rightarrow> Inr defaultValue
      | Some content \<Rightarrow>
          if refused w (ReadFile filePath) then Inl (Failed (ReadFile filePath))
          else (case content of
                  Unparsable \<Rightarrow> Inl (ParseFailure filePath)
                | Json obj \<Rightarrow> Inr (reparse obj)))"

definition writeJsonFile :: "path \<Rightarrow> JsonObject \<Rightarrow> world \<Rightarrow> (error + unit) \<times> world" where
  "writeJsonFile filePath data w =
     (case fs_mkdir (fst filePath) w of
        (Inl e, w1) \<Rightarrow> (Inl e, w1)
      | (Inr _, w1) \<Rightarrow> fs_writeFile filePath (Json data) w1)"

definition isBackupName :: "string \<Rightarrow> bool" where
  "isBackupName f \<longleftrightarrow> prefix ''omo-backup-'' f \<or> prefix ''opencode-backup-'' f"

definition listBackups :: "nat \<Rightarrow> world \<Rightarrow> error + string list" where
  "listBackups limit w =
     (case fs_readdir getArchiveDir w of
        Inl e \<Rightarrow> Inl e
      | Inr fs \<Rightarrow> Inr (take limit (rev (sort (filter isBackupName fs)))))"

definition createTimestamp :: "Date \<Rightarrow> string" where
  "createTimestamp d =
     (let date = remove_all CHR ''-'' (split_first CHR ''T'' (toISOString d));
          time = remove_all CHR '':'' (split_first CHR '' '' (toTimeString d))
      in date @ ''-'' @ time)"

definition ensureArchiveDir :: "world \<Rightarrow> (error + unit) \<times> world" where
  "ensureArchiveDir w = fs_mkdir getArchiveDir w"

section \<open>core.ts: options\<close>

text \<open>
  \<open>backupIndex\<close> is a whole number: the extractor parses one to three digits. \<open>None\<close> is
  a key the options object does not have, which is how the extractor builds its result. An
  object of the caller that has a key with the value \<^verbatim>\<open>undefined\<close> is not represented: the
  spread of \<open>mergeOptions\<close> would let such a key replace the extracted value by
  \<^verbatim>\<open>undefined\<close>, which the cases of the switch then read as an absent key.
\<close>

record ActionOptions =
  backupIndex :: "int option"
  agentName :: "string option"
  categoryName :: "string option"
  hookName :: "string option"
  agentData :: "OmoAgent option"
  categoryData :: "OmoCategory option"

definition orElse :: "'a option \<Rightarrow> 'a option \<Rightarrow> 'a option" where
  \<comment> \<open>one key of \<^verbatim>\<open>{ ...a, ...b }\<close>: the value of \<open>b\<close> when \<open>b\<close> has the key\<close>
  "orElse b a = (case b of Some v \<Rightarrow> Some v | None \<Rightarrow> a)"

definition spread_category :: "OmoCategory \<Rightarrow> OmoCategory \<Rightarrow> OmoCategory" where
  "spread_category a b =
     \<lparr>model = orElse (model b) (model a), temperature = orElse (temperature b) (temperature a),
      top_p = orElse (top_p b) (top_p a), maxTokens = orElse (maxTokens b) (maxTokens a),
      prompt_append = orElse (prompt_append b) (prompt_append a)\<rparr>"

definition spread_agent :: "OmoAgent \<Rightarrow> OmoAgent \<Rightarrow> OmoAgent" where
  "spread_agent a b =
     \<lparr>model = orElse (model b) (model a), temperature = orElse (temperature b) (temperature a),
      top_p = orElse (top_p b) (top_p a), maxTokens = orElse (maxTokens b) (maxTokens a),
      prompt_append = orElse (prompt_append b) (prompt_append a),
      disable = orElse (disable b) (disable a), permission = orElse (permission b) (permission a),
      description = orElse (description b) (description a), tools = orElse (tools b) (tools a)\<rparr>"

definition no_options :: ActionOptions where
  "no_options =
     \<lparr>backupIndex = None, agentName = None, categoryName = None, hookName = None,
      agentData = None, categoryData = None\<rparr>"

definition mergeOptions :: "ActionOptions option \<Rightarrow> ActionOptions option \<Rightarrow> ActionOptions option" where
  "mergeOptions a b =
     (if a = None \<and> b = None then None
      else
        let a' = (case a of Some x \<Rightarrow> x | None \<Rightarrow> no_options);
            b' = (case b of Some x \<Rightarrow> x | None \<Rightarrow> no_options)
        in Some
          \<lparr>backupIndex = orElse (backupIndex b') (backupIndex a'),
           agentName = orElse (agentName b') (agentName a'),
           categoryName = orElse (categoryName b') (categoryName a'),
           hookName = orElse (hookName b') (hookName a'),
           agentData = Some (spread_agent
             (case agentData a' of Some x \<Rightarrow> x | None \<Rightarrow> empty_agent)
             (case agentData b' of Some x \<Rightarrow> x | None \<Rightarrow> empty_agent)),
           categoryData = Some (spread_category
             (case categoryData a' of Some x \<Rightarrow> x | None \<Rightarrow> empty_category)
             (case categoryData b' of Some x \<Rightarrow> x | None \<Rightarrow> empty_category))\<rparr>)"

fun decimal :: "nat \<Rightarrow> string" where
  "decimal n = (if n < 10 then [digit n] else decimal (n div 10) @ [digit n])"

definition redactForDisplay :: "'a OmoCategory_scheme \<Rightarrow> 'a OmoCategory_scheme" where
  "redactForDisplay obj =
     (case prompt_append obj of
        None \<Rightarrow> obj
      | Some text \<Rightarrow>
          obj\<lparr>prompt_append :=
            Some (if length text > 0 then ''<redacted: '' @ decimal (length text) @ '' chars>''
                  else [])\<rparr>)"

section \<open>core.ts: backupConfigsInternal\<close>

datatype backup_result = BackupOk dir string string | BackupFailed error

definition copy_or_placeholder :: "path \<Rightarrow> path \<Rightarrow> world \<Rightarrow> (error + unit) \<times> world" where
  \<comment> \<open>\<^verbatim>\<open>fs.copyFile(src, dst).catch(() => writeJsonFile(dst, {}))\<close>\<close>
  "copy_or_placeholder src dst w =
     (case fs_copyFile src dst w of
        (Inr u, w1) \<Rightarrow> (Inr u, w1)
      | (Inl _, w1) \<Rightarrow> writeJsonFile dst empty_object w1)"

fun unlink_all :: "dir \<Rightarrow> string list \<Rightarrow> world \<Rightarrow> world" where
  \<comment> \<open>the loop over \<open>toDelete\<close>: a deletion that fails is ignored\<close>
  "unlink_all d [] w = w"
| "unlink_all d (backup # rest) w = unlink_all d rest (snd (fs_unlink (d, backup) w))"

definition backupConfigsInternal :: "path \<Rightarrow> path \<Rightarrow> world \<Rightarrow> backup_result \<times> world" where
  "backupConfigsInternal omoConfigPath ocConfigPath w0 =
     (let w = log (BackupAttempt omoConfigPath ocConfigPath) w0
      in case ensureArchiveDir w of
        (Inl e, w1) \<Rightarrow> (BackupFailed e, w1)
      | (Inr _, w1) \<Rightarrow>
         let timestamp = createTimestamp (now w1);
             archiveDir = getArchiveDir;
             omoExt = (if extname omoConfigPath = [] then ''.json'' else extname omoConfigPath);
             ocExt = (if extname ocConfigPath = [] then ''.json'' else extname ocConfigPath);
             omoBackupPath = (archiveDir, ''omo-backup-'' @ timestamp @ omoExt);
             ocBackupPath = (archiveDir, ''opencode-backup-'' @ timestamp @ ocExt)
         in (case copy_or_placeholder omoConfigPath omoBackupPath w1 of
               (Inl e, w2) \<Rightarrow> (BackupFailed e, w2)
             | (Inr _, w2) \<Rightarrow>
                (case copy_or_placeholder ocConfigPath ocBackupPath w2 of
                   (Inl e, w3) \<Rightarrow> (BackupFailed e, w3)
                 | (Inr _, w3) \<Rightarrow>
                    (case listBackups 100 w3 of
                       Inl e \<Rightarrow> (BackupFailed e, w3)
                     | Inr allBackups \<Rightarrow>
                        (let w4 = (if length allBackups > 5
                                   then unlink_all archiveDir (drop 5 allBackups) w3 else w3)
                         in (BackupOk archiveDir (basename omoBackupPath)
                               (basename ocBackupPath), w4))))))"

section \<open>core.ts: executeAction\<close>

text \<open>
  A report is the heading of the action and what the message says; its Markdown is the
  formatter's. \<open>Usage\<close> and \<open>Text\<close> are the listings and the help texts,
  \<open>Available_backups\<close> the numbered list of backups. The messages the source marks with a
  cross are the errors, those it marks with a check mark the successes, those it marks
  with the information sign are \<open>Already_disabled\<close> and \<open>Not_disabled\<close>.
\<close>

datatype outcome =
    Text
  | Usage
  | Available_backups "string list"
  | Backed_up dir string string
  | Compared string
  | Restored string
  | Stored_agent string OmoAgent
  | Stored_category string OmoCategory
  | Hook_disabled string
  | Hook_enabled string
  | Already_disabled string
  | Not_disabled string
  | Invalid_name string
  | Missing_model
  | Temperature_range
  | Not_found string
  | Unknown_hook string "string list"
  | Invalid_backup_number nat
  | Unknown_backup_type string
  | Failed_with error

datatype report = Report ActionType outcome

fun is_error :: "report \<Rightarrow> bool" where
  "is_error (Report a (Invalid_name n)) = True"
| "is_error (Report a Missing_model) = True"
| "is_error (Report a Temperature_range) = True"
| "is_error (Report a (Not_found n)) = True"
| "is_error (Report a (Unknown_hook n hs)) = True"
| "is_error (Report a (Invalid_backup_number n)) = True"
| "is_error (Report a (Unknown_backup_type n)) = True"
| "is_error (Report a (Failed_with e)) = True"
| "is_error (Report a other) = False"

fun is_success :: "report \<Rightarrow> bool" where
  "is_success (Report a (Backed_up d x y)) = True"
| "is_success (Report a (Restored n)) = True"
| "is_success (Report a (Stored_agent n e)) = True"
| "is_success (Report a (Stored_category n e)) = True"
| "is_success (Report a (Hook_disabled n)) = True"
| "is_success (Report a (Hook_enabled n)) = True"
| "is_success (Report a other) = False"

definition out_of_range :: "number option \<Rightarrow> bool" where
  \<comment> \<open>\<^verbatim>\<open>temperature !== undefined && (temperature < 0 || temperature > 1)\<close>\<close>
  "out_of_range t \<longleftrightarrow>
     (case t of None \<Rightarrow> False
      | Some v \<Rightarrow> less_number v (Finite 0) \<or> less_number (Finite 1) v)"

text \<open>
  Every case of the switch takes the effective options, the two resolved paths, the
  object read from the agent-side file and the world, and returns the report, the
  object \<open>omoConfig\<close> as the case leaves it in memory, and the world.
\<close>

type_synonym handled = "(report \<times> OmoConfig) \<times> world"

definition case_backup_configs :: "path \<Rightarrow> path \<Rightarrow> OmoConfig \<Rightarrow> world \<Rightarrow> handled" where
  "case_backup_configs omoConfigPath ocConfigPath omoConfig w =
     (case backupConfigsInternal omoConfigPath ocConfigPath w of
        (BackupFailed e, w1) \<Rightarrow> ((Report backup_configs (Failed_with e), omoConfig), w1)
      | (BackupOk d omoBackup ocBackup, w1) \<Rightarrow>
          ((Report backup_configs (Backed_up d omoBackup ocBackup), omoConfig), w1))"

definition case_compare_backup ::
  "ActionOptions option \<Rightarrow> OmoConfig \<Rightarrow> string list \<Rightarrow> world \<Rightarrow> (error + report \<times> OmoConfig) \<times> world"
where
  \<comment> \<open>this case has no \<^verbatim>\<open>try\<close>: a backup that cannot be read is thrown\<close>
  "case_compare_backup effectiveOptions omoConfig existingBackups w =
     (case Option.bind effectiveOptions backupIndex of
        None \<Rightarrow> (Inr (Report compare_backup (Available_backups existingBackups), omoConfig), w)
      | Some idx \<Rightarrow>
          if idx < 1 \<or> idx > int (length existingBackups)
          then (Inr (Report compare_backup (Invalid_backup_number (length existingBackups)),
                     omoConfig), w)
          else
            let backupName = existingBackups ! nat (idx - 1);
                backupPath = (getArchiveDir, backupName)
            in if prefix ''omo-backup-'' backupName \<or> prefix ''opencode-backup-'' backupName
               then (case readJsonFile backupPath empty_object w of
                       Inl e \<Rightarrow> (Inl e, w)
                     | Inr backupData \<Rightarrow>
                         (Inr (Report compare_backup (Compared backupName), omoConfig), w))
               else (Inr (Report compare_backup (Unknown_backup_type backupName), omoConfig), w))"

definition case_restore_backup ::
  "ActionOptions option \<Rightarrow> path \<Rightarrow> path \<Rightarrow> OmoConfig \<Rightarrow> string list \<Rightarrow> world \<Rightarrow> handled"
where
  "case_restore_backup effectiveOptions omoConfigPath ocConfigPath omoConfig existingBackups w =
     (case Option.bind effectiveOptions backupIndex of
        None \<Rightarrow> ((Report restore_backup (Available_backups existingBackups), omoConfig), w)
      | Some idx \<Rightarrow>
          if idx < 1 \<or> idx > int (length existingBackups)
          then ((Report restore_backup (Invalid_backup_number (length existingBackups)),
                 omoConfig), w)
          else
            let backupName = existingBackups ! nat (idx - 1);
                backupPath = (getArchiveDir, backupName);
                w1 = snd (backupConfigsInternal omoConfigPath ocConfigPath w);
                target = (if prefix ''omo-backup-'' backupName then Some omoConfigPath
                          else if prefix ''opencode-backup-'' backupName then Some ocConfigPath
                          else None)
            in (case target of
                  None \<Rightarrow> ((Report restore_backup (Unknown_backup_type backupName), omoConfig), w1)
                | Some configPath \<Rightarrow>
                    (case readJsonFile backupPath empty_object w1 of
                       Inl e \<Rightarrow> ((Report restore_backup (Failed_with e), omoConfig), w1)
                     | Inr backupData \<Rightarrow>
                        (case writeJsonFile configPath backupData w1 of
                           (Inl e, w2) \<Rightarrow> ((Report restore_backup (Failed_with e), omoConfig), w2)
                         | (Inr _, w2) \<Rightarrow>
                             ((Report restore_backup (Restored backupName), omoConfig), w2)))))"

definition assign_agent :: "OmoAgent \<Rightarrow> OmoAgent \<Rightarrow> OmoAgent" where
  \<comment> \<open>the six assignments of modify-agent: a field the data has replaces the agent's\<close>
  "assign_agent data agent =
     agent\<lparr>model := orElse (model data) (model agent),
           temperature := orElse (temperature data) (temperature agent),
           prompt_append := orElse (prompt_append data) (prompt_append agent),
           permission := orElse (permission data) (permission agent),
           description := orElse (description data) (description agent),
           disable := orElse (disable data) (disable agent)\<rparr>"

definition assign_category :: "OmoCategory \<Rightarrow> OmoCategory \<Rightarrow> OmoCategory" where
  "assign_category data category =
     category\<lparr>model := orElse (model data) (model category),
              temperature := orElse (temperature data) (temperature category),
              top_p := orElse (top_p data) (top_p category),
              maxTokens := orElse (maxTokens data) (maxTokens category),
              prompt_append := orElse (prompt_append data) (prompt_append category)\<rparr>"

definition new_agent :: "OmoAgent \<Rightarrow> OmoAgent" where
  \<comment> \<open>the object literal of add-agent\<close>
  "new_agent data =
     \<lparr>model = model data, temperature = temperature data, top_p = None,
      maxTokens = None, prompt_append = prompt_append data, disable = disable data,
      permission = permission data, description = description data, tools = None\<rparr>"

definition new_category :: "OmoCategory \<Rightarrow> OmoCategory" where
  \<comment> \<open>the object literal of add-category\<close>
  "new_category data =
     \<lparr>model = model data, temperature = temperature data,
      top_p = top_p data, maxTokens = maxTokens data,
      prompt_append = prompt_append data\<rparr>"

definition persist :: "ActionType \<Rightarrow> outcome \<Rightarrow> path \<Rightarrow> OmoConfig \<Rightarrow> world \<Rightarrow> handled" where
  \<comment> \<open>\<^verbatim>\<open>await writeJsonFile(omoConfigPath, omoConfig); return success\<close> inside the \<^verbatim>\<open>try\<close>\<close>
  "persist action success omoConfigPath omoConfig w =
     (case writeJsonFile omoConfigPath omoConfig w of
        (Inl e, w1) \<Rightarrow> ((Report action (Failed_with e), omoConfig), w1)
      | (Inr _, w1) \<Rightarrow> ((Report action success, omoConfig), w1))"

definition case_add_agent ::
  "ActionOptions option \<Rightarrow> path \<Rightarrow> path \<Rightarrow> OmoConfig \<Rightarrow> world \<Rightarrow> handled"
where
  "case_add_agent effectiveOptions omoConfigPath ocConfigPath omoConfig w =
     (if \<not> truthy (Option.bind effectiveOptions agentName)
      then ((Report add_agent Usage, omoConfig), w)
      else
        let name = the (Option.bind effectiveOptions agentName) in
        if \<not> isSafeConfigKey name then ((Report add_agent (Invalid_name name), omoConfig), w)
        else
          let data = (case Option.bind effectiveOptions agentData of
                        Some d \<Rightarrow> d | None \<Rightarrow> empty_agent) in
          if \<not> truthy (model data) then ((Report add_agent Missing_model, omoConfig), w)
          else if out_of_range (temperature data)
          then ((Report add_agent Temperature_range, omoConfig), w)
          else
            let w1 = snd (backupConfigsInternal omoConfigPath ocConfigPath w);
                entries = (case agents omoConfig of Some m \<Rightarrow> m | None \<Rightarrow> Map.empty);
                omoConfig' = omoConfig\<lparr>agents := Some (entries(name \<mapsto> new_agent data))\<rparr>
            in persist add_agent (Stored_agent name (redactForDisplay (new_agent data)))
                 omoConfigPath omoConfig' w1)"

definition case_modify_agent ::
  "ActionOptions option \<Rightarrow> path \<Rightarrow> path \<Rightarrow> OmoConfig \<Rightarrow> world \<Rightarrow> handled"
where
  "case_modify_agent effectiveOptions omoConfigPath ocConfigPath omoConfig w =
     (if \<not> truthy (Option.bind effectiveOptions agentName)
      then ((Report modify_agent Usage, omoConfig), w)
      else
        let name = the (Option.bind effectiveOptions agentName) in
        if \<not> isSafeConfigKey name then ((Report modify_agent (Invalid_name name), omoConfig), w)
        else
          let data = (case Option.bind effectiveOptions agentData of
                        Some d \<Rightarrow> d | None \<Rightarrow> empty_agent) in
          if out_of_range (temperature data)
          then ((Report modify_agent Temperature_range, omoConfig), w)
          else
            (case agents omoConfig of
               None \<Rightarrow> ((Report modify_agent (Not_found name), omoConfig), w)
             | Some entries \<Rightarrow>
                (case js_get entries name of
                   Undefined \<Rightarrow> ((Report modify_agent (Not_found name), omoConfig), w)
                 | Own agent \<Rightarrow>
                     let w1 = snd (backupConfigsInternal omoConfigPath ocConfigPath w);
                         agent' = assign_agent data agent;
                         omoConfig' = omoConfig\<lparr>agents := Some (entries(name \<mapsto> agent'))\<rparr>
                     in persist modify_agent (Stored_agent name (redactForDisplay agent'))
                          omoConfigPath omoConfig' w1
                 | Inherited \<Rightarrow>
                     \<comment> \<open>the assignments go to the inherited function, not to the object; what
                        earlier runs of the process assigned to that function is not
                        represented\<close>
                     let w1 = snd (backupConfigsInternal omoConfigPath ocConfigPath w);
                         agent' = assign_agent data empty_agent
                     in persist modify_agent (Stored_agent name (redactForDisplay agent'))
                          omoConfigPath omoConfig w1)))"

definition case_add_category ::
  "ActionOptions option \<Rightarrow> path \<Rightarrow> path \<Rightarrow> OmoConfig \<Rightarrow> world \<Rightarrow> handled"
where
  "case_add_category effectiveOptions omoConfigPath ocConfigPath omoConfig w =
     (if \<not> truthy (Option.bind effectiveOptions categoryName)
      then ((Report add_category Usage, omoConfig), w)
      else
        let name = the (Option.bind effectiveOptions categoryName) in
        if \<not> isSafeConfigKey name then ((Report add_category (Invalid_name name), omoConfig), w)
        else
          let data = (case Option.bind effectiveOptions categoryData of
                        Some d \<Rightarrow> d | None \<Rightarrow> empty_category) in
          if \<not> truthy (model data) then ((Report add_category Missing_model, omoConfig), w)
          else if out_of_range (temperature data)
          then ((Report add_category Temperature_range, omoConfig), w)
          else
            let w1 = snd (backupConfigsInternal omoConfigPath ocConfigPath w);
                entries = (case categories omoConfig of Some m \<Rightarrow> m | None \<Rightarrow> Map.empty);
                omoConfig' = omoConfig\<lparr>categories := Some (entries(name \<mapsto> new_category data))\<rparr>
            in persist add_category (Stored_category name (redactForDisplay (new_category data)))
                 omoConfigPath omoConfig' w1)"

definition case_modify_category ::
  "ActionOptions option \<Rightarrow> path \<Rightarrow> path \<Rightarrow> OmoConfig \<Rightarrow> world \<Rightarrow> handled"
where
  "case_modify_category effectiveOptions omoConfigPath ocConfigPath omoConfig w =
     (if \<not> truthy (Option.bind effectiveOptions categoryName)
      then ((Report modify_category Usage, omoConfig), w)
      else
        let name = the (Option.bind effectiveOptions categoryName) in
        if \<not> isSafeConfigKey name
        then ((Report modify_category (Invalid_name name), omoConfig), w)
        else
          let data = (case Option.bind effectiveOptions categoryData of
                        Some d \<Rightarrow> d | None \<Rightarrow> empty_category) in
          if out_of_range (temperature data)
          then ((Report modify_category Temperature_range, omoConfig), w)
          else
            (case categories omoConfig of
               None \<Rightarrow> ((Report modify_category (Not_found name), omoConfig), w)
             | Some entries \<Rightarrow>
                (case js_get entries name of
                   Undefined \<Rightarrow> ((Report modify_category (Not_found name), omoConfig), w)
                 | Own category \<Rightarrow>
                     let w1 = snd (backupConfigsInternal omoConfigPath ocConfigPath w);
                         category' = assign_category data category;
                         omoConfig' = omoConfig\<lparr>categories := Some (entries(name \<mapsto> category'))\<rparr>
                     in persist modify_category
                          (Stored_category name (redactForDisplay category'))
                          omoConfigPath omoConfig' w1
                 | Inherited \<Rightarrow>
                     let w1 = snd (backupConfigsInternal omoConfigPath ocConfigPath w);
                         category' = assign_category data empty_category
                     in persist modify_category
                          (Stored_category name (redactForDisplay category'))
                          omoConfigPath omoConfig w1)))"

definition case_disable_hook ::
  "ActionOptions option \<Rightarrow> path \<Rightarrow> path \<Rightarrow> OmoConfig \<Rightarrow> world \<Rightarrow> handled"
where
  "case_disable_hook effectiveOptions omoConfigPath ocConfigPath omoConfig w =
     (if \<not> truthy (Option.bind effectiveOptions hookName)
      then ((Report disable_hook Usage, omoConfig), w)
      else
        let name = the (Option.bind effectiveOptions hookName) in
        if name \<notin> set KNOWN_HOOKS
        then ((Report disable_hook (Unknown_hook name KNOWN_HOOKS), omoConfig), w)
        else
          let omoConfig1 = (if disabled_hooks omoConfig = None
                            then omoConfig\<lparr>disabled_hooks := Some []\<rparr> else omoConfig);
              hooks = the (disabled_hooks omoConfig1)
          in if name \<notin> set hooks
             then
               let w1 = snd (backupConfigsInternal omoConfigPath ocConfigPath w);
                   omoConfig2 = omoConfig1\<lparr>disabled_hooks := Some (hooks @ [name])\<rparr>
               in persist disable_hook (Hook_disabled name) omoConfigPath omoConfig2 w1
             else ((Report disable_hook (Already_disabled name), omoConfig1), w))"

definition case_enable_hook ::
  "ActionOptions option \<Rightarrow> path \<Rightarrow> path \<Rightarrow> OmoConfig \<Rightarrow> world \<Rightarrow> handled"
where
  "case_enable_hook effectiveOptions omoConfigPath ocConfigPath omoConfig w =
     (if \<not> truthy (Option.bind effectiveOptions hookName)
      then ((Report enable_hook Usage, omoConfig), w)
      else
        let name = the (Option.bind effectiveOptions hookName) in
        (case disabled_hooks omoConfig of
           None \<Rightarrow> ((Report enable_hook (Not_disabled name), omoConfig), w)
         | Some hooks \<Rightarrow>
             if name \<notin> set hooks
             then ((Report enable_hook (Not_disabled name), omoConfig), w)
             else
               let w1 = snd (backupConfigsInternal omoConfigPath ocConfigPath w);
                   omoConfig' = omoConfig\<lparr>disabled_hooks := Some (filter (\<lambda>h. h \<noteq> name) hooks)\<rparr>
               in persist enable_hook (Hook_enabled name) omoConfigPath omoConfig' w1))"

text \<open>
  \<open>infer\<close> stands for \<open>inferOptionsFromRequest\<close>, which reads the options off the request
  with regular expressions: the model takes it as a function of the action and the
  request, so that what is proved holds whatever it extracts. A result \<open>Inl\<close> is an
  exception that leaves \<open>executeAction\<close>: the two files and the listing are read before
  the switch, outside every \<^verbatim>\<open>try\<close>.
\<close>

definition executeAction ::
  "(ActionType \<Rightarrow> string \<Rightarrow> ActionOptions) \<Rightarrow> ActionType \<Rightarrow> string \<Rightarrow> ActionOptions option
     \<Rightarrow> world \<Rightarrow> (error + report \<times> OmoConfig) \<times> world"
where
  "executeAction infer action request options w =
     (let omoConfigPath = resolveOmoConfigPath w;
          ocConfigPath = resolveOpenCodeConfigPath w
      in case readJsonFile omoConfigPath empty_object w of
        Inl e \<Rightarrow> (Inl e, w)
      | Inr omoConfig \<Rightarrow>
         (case readJsonFile ocConfigPath empty_object w of
            Inl e \<Rightarrow> (Inl e, w)
          | Inr ocConfig \<Rightarrow>
             (case listBackups 5 w of
                Inl e \<Rightarrow> (Inl e, w)
              | Inr existingBackups \<Rightarrow>
                 (let inferred = infer action request;
                      effectiveOptions = mergeOptions (Some inferred) options;
                      done = (\<lambda>h. (Inr (fst h), snd h))
                  in case action of
                    backup_configs \<Rightarrow>
                      done (case_backup_configs omoConfigPath ocConfigPath omoConfig w)
                  | compare_backup \<Rightarrow>
                      case_compare_backup effectiveOptions omoConfig existingBackups w
                  | restore_backup \<Rightarrow>
                      done (case_restore_backup effectiveOptions omoConfigPath ocConfigPath
                              omoConfig existingBackups w)
                  | add_agent \<Rightarrow>
                      done (case_add_agent effectiveOptions omoConfigPath ocConfigPath omoConfig w)
                  | modify_agent \<Rightarrow>
                      done (case_modify_agent effectiveOptions omoConfigPath ocConfigPath
                              omoConfig w)
                  | add_category \<Rightarrow>
                      done (case_add_category effectiveOptions omoConfigPath ocConfigPath
                              omoConfig w)
                  | modify_category \<Rightarrow>
                      done (case_modify_category effectiveOptions omoConfigPath ocConfigPath
                              omoConfig w)
                  | disable_hook \<Rightarrow>
                      done (case_disable_hook effectiveOptions omoConfigPath ocConfigPath
                              omoConfig w)
                  | enable_hook \<Rightarrow>
                      done (case_enable_hook effectiveOptions omoConfigPath ocConfigPath
                              omoConfig w)
                  | _ \<Rightarrow> (Inr (Report action Text, omoConfig), w)))))"

section \<open>What the properties speak about\<close>

text \<open>
  The options a case of the switch sees: what \<open>infer\<close> extracts, overridden by the
  caller's.
\<close>

definition effectiveOptions ::
  "(ActionType \<Rightarrow> string \<Rightarrow> ActionOptions) \<Rightarrow> ActionType \<Rightarrow> string \<Rightarrow> ActionOptions option
     \<Rightarrow> ActionOptions option"
where
  "effectiveOptions infer action request options = mergeOptions (Some (infer action request)) options"

text \<open>
  The three reads before the switch succeed and the agent-side file gives \<open>omoConfig\<close>.
\<close>

definition loads :: "world \<Rightarrow> OmoConfig \<Rightarrow> bool" where
  "loads w omoConfig \<longleftrightarrow>
     readJsonFile (resolveOmoConfigPath w) empty_object w = Inr omoConfig \<and>
     \<not> isl (readJsonFile (resolveOpenCodeConfigPath w) empty_object w) \<and>
     \<not> isl (listBackups 5 w)"


definition new_events :: "world \<Rightarrow> world \<Rightarrow> event list" where
  \<comment> \<open>what the trace of \<open>w'\<close> has after the trace of \<open>w\<close>\<close>
  "new_events w w' = drop (length (trace w)) (trace w')"

definition steps :: "(event \<Rightarrow> bool) \<Rightarrow> world \<Rightarrow> world \<Rightarrow> bool" where
  \<comment> \<open>from \<open>w\<close> to \<open>w'\<close> the files of the configuration directory, the clock and the
     failures stay, and the trace grows by events that satisfy \<open>P\<close>\<close>
  "steps P w w' \<longleftrightarrow>
     refused w' = refused w \<and> now w' = now w \<and>
     (\<forall>n. map_of (files w') (ConfigDir, n) = map_of (files w) (ConfigDir, n)) \<and>
     (\<exists>evs. trace w' = trace w @ evs \<and> list_all P evs)"

definition backup_ext :: "path \<Rightarrow> string" where
  \<comment> \<open>\<^verbatim>\<open>path.extname(p) || '.json'\<close>\<close>
  "backup_ext p = (if extname p = [] then ''.json'' else extname p)"

definition backup_event :: "path \<Rightarrow> path \<Rightarrow> string \<Rightarrow> string \<Rightarrow> event \<Rightarrow> bool" where
  \<comment> \<open>the events of a backup of \<open>a\<close> and \<open>b\<close> under the names \<open>n1\<close> and \<open>n2\<close>\<close>
  "backup_event a b n1 n2 e \<longleftrightarrow>
     e = Effect (Mkdir ArchiveDir) \<or>
     e = Effect (CopyFile a (ArchiveDir, n1)) \<or> e = Effect (WriteFile (ArchiveDir, n1)) \<or>
     e = Effect (CopyFile b (ArchiveDir, n2)) \<or> e = Effect (WriteFile (ArchiveDir, n2)) \<or>
     (case e of Effect (Unlink (ArchiveDir, n)) \<Rightarrow> True | _ \<Rightarrow> False)"

definition stamp_fields :: "Date \<Rightarrow> int list" where
  \<comment> \<open>the six numbers a timestamp prints, in its order\<close>
  "stamp_fields d =
     [utc_year d, int (utc_month d), int (utc_day d), int (local_hours d),
      int (local_minutes d), int (local_seconds d)]"

definition utc_fields :: "Date \<Rightarrow> int list" where
  \<comment> \<open>the instant to the second: dates are in chronological order when these lists are in
     lexicographic order\<close>
  "utc_fields d =
     [utc_year d, int (utc_month d), int (utc_day d), int (utc_hours d),
      int (utc_minutes d), int (utc_seconds d)]"

definition local_is_utc :: "Date \<Rightarrow> bool" where
  \<comment> \<open>the local time of day is the time of day in UTC\<close>
  "local_is_utc d \<longleftrightarrow>
     local_hours d = utc_hours d \<and> local_minutes d = utc_minutes d \<and>
     local_seconds d = utc_seconds d"

definition isDigit :: "char \<Rightarrow> bool" where
  "isDigit c \<longleftrightarrow> 48 \<le> (of_char c :: nat) \<and> (of_char c :: nat) \<le> 57"

definition is_stamp :: "string \<Rightarrow> bool" where
  \<comment> \<open>the form \<^verbatim>\<open>YYYYMMDD-HHMMSS\<close>\<close>
  "is_stamp s \<longleftrightarrow>
     length s = 15 \<and> list_all isDigit (take 8 s) \<and> s ! 8 = CHR ''-'' \<and>
     list_all isDigit (drop 9 s)"


text \<open>
  The names of the files after a backup, in closed form: a copy or a placeholder adds its
  name when it is new, the sweep removes the names past the fifth of the listing.
\<close>

definition add_key :: "path \<Rightarrow> path list \<Rightarrow> path list" where
  "add_key k ks = (if k \<in> set ks then ks else ks @ [k])"

definition names_in :: "dir \<Rightarrow> path list \<Rightarrow> string list" where
  "names_in d ks = map snd (filter (\<lambda>p. fst p = d) ks)"

definition sweep :: "path list \<Rightarrow> path list" where
  "sweep ks =
     (let allBackups = take 100 (rev (sort (filter isBackupName (names_in ArchiveDir ks))))
      in if length allBackups > 5
         then fold (\<lambda>n. removeAll (ArchiveDir, n)) (drop 5 allBackups) ks else ks)"

text \<open>The world a run leaves: untouched, after the backup, or after the backup and one write.\<close>

definition backed_up :: "world \<Rightarrow> world" where
  "backed_up w = snd (backupConfigsInternal (resolveOmoConfigPath w) (resolveOpenCodeConfigPath w) w)"

definition agent_data :: "ActionOptions \<Rightarrow> OmoAgent" where
  \<comment> \<open>\<^verbatim>\<open>effectiveOptions.agentData ?? {}\<close>\<close>
  "agent_data eff = (case agentData eff of Some d \<Rightarrow> d | None \<Rightarrow> empty_agent)"

definition category_data :: "ActionOptions \<Rightarrow> OmoCategory" where
  \<comment> \<open>\<^verbatim>\<open>effectiveOptions.categoryData ?? {}\<close>\<close>
  "category_data eff = (case categoryData eff of Some d \<Rightarrow> d | None \<Rightarrow> empty_category)"

definition hooks_of :: "OmoConfig \<Rightarrow> string list" where
  \<comment> \<open>\<^verbatim>\<open>omoConfig.disabled_hooks || []\<close>\<close>
  "hooks_of cfg = (case disabled_hooks cfg of Some hs \<Rightarrow> hs | None \<Rightarrow> [])"

definition agents_of :: "OmoConfig \<Rightarrow> (string \<rightharpoonup> OmoAgent)" where
  \<comment> \<open>\<^verbatim>\<open>omoConfig.agents || {}\<close>\<close>
  "agents_of cfg = (case agents cfg of Some m \<Rightarrow> m | None \<Rightarrow> Map.empty)"

definition categories_of :: "OmoConfig \<Rightarrow> (string \<rightharpoonup> OmoCategory)" where
  \<comment> \<open>\<^verbatim>\<open>omoConfig.categories || {}\<close>\<close>
  "categories_of cfg = (case categories cfg of Some m \<Rightarrow> m | None \<Rightarrow> Map.empty)"

text \<open>
  The parameters of an action, by its kind, and the validation failures of the mutating
  actions: the key of the entity or hook is not safe, the temperature is out of range, an
  add has no model, a modify finds no entry, disable-hook is given a name the registry
  does not know.
\<close>

definition entity_name :: "ActionType \<Rightarrow> ActionOptions \<Rightarrow> string option" where
  "entity_name action eff =
     (if action \<in> {add_agent, modify_agent} then agentName eff
      else if action \<in> {add_category, modify_category} then categoryName eff
      else if action \<in> {disable_hook, enable_hook} then hookName eff
      else None)"

definition entity_model :: "ActionType \<Rightarrow> ActionOptions \<Rightarrow> string option" where
  "entity_model action eff =
     (if action \<in> {add_agent, modify_agent} then model (agent_data eff)
      else model (category_data eff))"

definition entity_temperature :: "ActionType \<Rightarrow> ActionOptions \<Rightarrow> number option" where
  "entity_temperature action eff =
     (if action \<in> {add_agent, modify_agent} then temperature (agent_data eff)
      else temperature (category_data eff))"

definition entity_found :: "ActionType \<Rightarrow> string \<Rightarrow> OmoConfig \<Rightarrow> bool" where
  "entity_found action name cfg =
     (if action = modify_agent
      then agents cfg \<noteq> None \<and> js_get (agents_of cfg) name \<noteq> Undefined
      else if action = modify_category
      then categories cfg \<noteq> None \<and> js_get (categories_of cfg) name \<noteq> Undefined
      else True)"

definition validation_fails :: "ActionType \<Rightarrow> ActionOptions \<Rightarrow> OmoConfig \<Rightarrow> bool" where
  "validation_fails action eff cfg \<longleftrightarrow>
     (case entity_name action eff of
        None \<Rightarrow> False
      | Some name \<Rightarrow>
          name \<noteq> [] \<and>
          (if action \<in> {add_agent, add_category}
           then \<not> isSafeConfigKey name \<or> \<not> truthy (entity_model action eff) \<or>
                out_of_range (entity_temperature action eff)
           else if action \<in> {modify_agent, modify_category}
           then \<not> isSafeConfigKey name \<or> out_of_range (entity_temperature action eff) \<or>
                \<not> entity_found action name cfg
           else if action = disable_hook
           then \<not> isSafeConfigKey name \<or> name \<notin> set KNOWN_HOOKS
           else False))"

section \<open>Example inputs\<close>

definition example_date :: Date where
  \<comment> \<open>2 January 2026, 03:04:05.006 UTC, in a zone one hour ahead\<close>
  "example_date =
     \<lparr>utc_year = 2026, utc_month = 1, utc_day = 2, utc_hours = 3, utc_minutes = 4,
      utc_seconds = 5, utc_millis = 6, local_hours = 4, local_minutes = 4, local_seconds = 5,
      zone = ''GMT+0100 (Central European Standard Time)''\<rparr>"

definition in_utc :: "Date \<Rightarrow> Date" where
  \<comment> \<open>the same instant on a machine whose zone is UTC\<close>
  "in_utc d =
     d\<lparr>local_hours := utc_hours d, local_minutes := utc_minutes d,
       local_seconds := utc_seconds d, zone := ''GMT+0000 (Coordinated Universal Time)''\<rparr>"

definition before_midnight :: Date where
  \<comment> \<open>2 January 2026, 22:59:59 UTC, which is 23:59:59 in the zone one hour ahead\<close>
  "before_midnight =
     example_date\<lparr>utc_hours := 22, utc_minutes := 59, utc_seconds := 59, utc_millis := 0,
       local_hours := 23, local_minutes := 59, local_seconds := 59\<rparr>"

definition at_midnight :: Date where
  \<comment> \<open>one second later: 23:00:00 UTC, 00:00:00 in that zone\<close>
  "at_midnight =
     example_date\<lparr>utc_hours := 23, utc_minutes := 0, utc_seconds := 0, utc_millis := 0,
       local_hours := 0, local_minutes := 0, local_seconds := 0\<rparr>"

definition at_second :: "nat \<Rightarrow> Date" where
  \<comment> \<open>the same minute, at second \<open>s\<close>\<close>
  "at_second s = example_date\<lparr>utc_seconds := s, local_seconds := s\<rparr>"

definition quiet :: "ioop \<Rightarrow> bool" where
  \<comment> \<open>a system that refuses nothing\<close>
  "quiet op = False"

definition example_agent :: OmoAgent where
  "example_agent =
     \<lparr>model = Some ''opencode/gpt-5.2'', temperature = Some (Finite (1 / 5)), top_p = None,
      maxTokens = None, prompt_append = Some ''Be brief.'', disable = None,
      permission = Some [(''bash'', ''ask'')], description = Some ''Finds bugs'',
      tools = Some [(''grep'', ''true'')]\<rparr>"

definition example_category :: OmoCategory where
  "example_category =
     \<lparr>model = Some ''opencode/gpt-5.2'', temperature = None, top_p = Some (Finite (9 / 10)),
      maxTokens = Some (Finite 4096), prompt_append = None\<rparr>"

definition example_config :: OmoConfig where
  "example_config =
     empty_object
       \<lparr>agents := Some [''debugger'' \<mapsto> example_agent],
        categories := Some [''quick'' \<mapsto> example_category],
        disabled_hooks := Some [''comment-checker'', ''my-hook'', ''constructor'']\<rparr>"

definition example_world :: world where
  \<comment> \<open>one agent-side file, no provider-side file, an empty archive\<close>
  "example_world =
     \<lparr>files = [((ConfigDir, ''oh-my-opencode.json''), Json example_config)],
      refused = quiet, now = example_date, trace = []\<rparr>"



definition backup_at :: "Date \<Rightarrow> world \<Rightarrow> world" where
  \<comment> \<open>the action backup-configs, run when the clock shows \<open>d\<close>\<close>
  "backup_at d w =
     (let w1 = w\<lparr>now := d\<rparr>
      in snd (backupConfigsInternal (resolveOmoConfigPath w1) (resolveOpenCodeConfigPath w1) w1))"

definition infer_nothing :: "ActionType \<Rightarrow> string \<Rightarrow> ActionOptions" where
  \<comment> \<open>what the extractor returns for a request that matches none of its patterns\<close>
  "infer_nothing action request = no_options"

definition hook_options :: "string \<Rightarrow> ActionOptions" where
  "hook_options name = no_options\<lparr>hookName := Some name\<rparr>"

definition agent_options :: "string \<Rightarrow> string option \<Rightarrow> number option \<Rightarrow> ActionOptions" where
  "agent_options name m t =
     no_options\<lparr>agentName := Some name,
                agentData := Some (empty_agent\<lparr>model := m, temperature := t\<rparr>)\<rparr>"

definition category_options :: "string \<Rightarrow> string option \<Rightarrow> number option \<Rightarrow> ActionOptions" where
  "category_options name m t =
     no_options\<lparr>categoryName := Some name,
                categoryData := Some (empty_category\<lparr>model := m, temperature := t\<rparr>)\<rparr>"

section \<open>Proofs: evaluation and frames\<close>

lemmas string_defs = toLowerCase_def toLowerCase_char_def isUpper_def split_ws_def isSpace_def
  hasWord_def

lemmas key_defs = isSafeConfigKey_def matchesKeyPattern_def isAlnum_def isKeyChar_def
  FORBIDDEN_KEYS_def toLowerCase_def toLowerCase_char_def isUpper_def

lemmas io_defs = fs_access_def fs_readdir_def fs_mkdir_def fs_copyFile_def fs_writeFile_def
  fs_unlink_def log_def

lemmas path_defs = getOmoConfigPath_def getOmoConfigPathCandidates_def getOpenCodeConfigPath_def
  getOpenCodeConfigPathCandidates_def firstExistingPath_def resolveOpenCodeConfigPath_def
  resolveOmoConfigPath_def getArchiveDir_def

lemmas date_defs = createTimestamp_def digit_def pad2_def pad3_def pad4_def toISOString_def
  year_digits_def
  toTimeString_def split_first_def remove_all_def

lemma steps_refl: "steps P w w"
  by (simp add: steps_def)

lemma steps_trans: "steps P w w1 \<Longrightarrow> steps P w1 w2 \<Longrightarrow> steps P w w2"
  by (auto simp: steps_def)

lemma steps_mono: "steps P w w' \<Longrightarrow> (\<And>e. P e \<Longrightarrow> Q e) \<Longrightarrow> steps Q w w'"
  unfolding steps_def list_all_iff by blast

lemma map_of_update_other: "k \<noteq> k' \<Longrightarrow> map_of (AList.update k v al) k' = map_of al k'"
  by (simp add: update_conv')

lemma map_of_delete_other: "k \<noteq> k' \<Longrightarrow> map_of (AList.delete k al) k' = map_of al k'"
  by (simp add: delete_conv')

lemma fs_mkdir_steps: "steps (\<lambda>e. e = Effect (Mkdir ArchiveDir)) w (snd (fs_mkdir ArchiveDir w))"
  by (simp add: steps_def fs_mkdir_def log_def Let_def)

lemma fs_copyFile_steps:
  "steps (\<lambda>e. e = Effect (CopyFile src (ArchiveDir, n))) w (snd (fs_copyFile src (ArchiveDir, n) w))"
  by (simp add: steps_def fs_copyFile_def log_def Let_def map_of_update_other
      split: option.splits)

lemma fs_writeFile_steps:
  "steps (\<lambda>e. e = Effect (WriteFile (ArchiveDir, n))) w (snd (fs_writeFile (ArchiveDir, n) c w))"
  by (simp add: steps_def fs_writeFile_def log_def Let_def map_of_update_other)

lemma fs_unlink_steps:
  "steps (\<lambda>e. e = Effect (Unlink (ArchiveDir, n))) w (snd (fs_unlink (ArchiveDir, n) w))"
  by (simp add: steps_def fs_unlink_def log_def Let_def map_of_delete_other)

lemma unlink_all_steps:
  "steps (\<lambda>e. case e of Effect (Unlink (ArchiveDir, n)) \<Rightarrow> True | _ \<Rightarrow> False) w
     (unlink_all ArchiveDir bs w)"
proof (induction bs arbitrary: w)
  case Nil
  show ?case by (simp add: steps_refl)
next
  case (Cons b bs)
  have "steps (\<lambda>e. case e of Effect (Unlink (ArchiveDir, n)) \<Rightarrow> True | _ \<Rightarrow> False) w
          (snd (fs_unlink (ArchiveDir, b) w))"
    by (rule steps_mono [OF fs_unlink_steps]) simp
  with Cons show ?case by (auto intro: steps_trans)
qed

lemma writeJsonFile_steps:
  "steps (\<lambda>e. e = Effect (Mkdir ArchiveDir) \<or> e = Effect (WriteFile (ArchiveDir, n))) w
     (snd (writeJsonFile (ArchiveDir, n) d w))"
  (is "steps ?P w _")
proof -
  have a: "steps ?P w (snd (fs_mkdir ArchiveDir w))"
    by (rule steps_mono [OF fs_mkdir_steps]) simp
  show ?thesis
  proof (cases "fs_mkdir ArchiveDir w")
    case (Pair r w1)
    show ?thesis
    proof (cases r)
      case (Inl e)
      with Pair a show ?thesis by (simp add: writeJsonFile_def)
    next
      case (Inr u)
      have "steps ?P w1 (snd (fs_writeFile (ArchiveDir, n) (Json d) w1))"
        by (rule steps_mono [OF fs_writeFile_steps]) simp
      with Pair Inr a show ?thesis by (auto simp: writeJsonFile_def intro: steps_trans)
    qed
  qed
qed

lemma copy_or_placeholder_steps:
  "steps (\<lambda>e. e = Effect (Mkdir ArchiveDir) \<or> e = Effect (CopyFile src (ArchiveDir, n)) \<or>
               e = Effect (WriteFile (ArchiveDir, n))) w
     (snd (copy_or_placeholder src (ArchiveDir, n) w))"
  (is "steps ?P w _")
proof -
  have a: "steps ?P w (snd (fs_copyFile src (ArchiveDir, n) w))"
    by (rule steps_mono [OF fs_copyFile_steps]) simp
  show ?thesis
  proof (cases "fs_copyFile src (ArchiveDir, n) w")
    case (Pair r w1)
    show ?thesis
    proof (cases r)
      case (Inr u)
      with Pair a show ?thesis by (simp add: copy_or_placeholder_def)
    next
      case (Inl e)
      have "steps ?P w1 (snd (writeJsonFile (ArchiveDir, n) empty_object w1))"
        by (rule steps_mono [OF writeJsonFile_steps]) auto
      with Pair Inl a show ?thesis
        by (auto simp: copy_or_placeholder_def intro: steps_trans)
    qed
  qed
qed

lemma steps_trace_mono: "steps P w w' \<Longrightarrow> set (trace w) \<subseteq> set (trace w')"
  by (auto simp: steps_def)

lemma steps_refused: "steps P w w' \<Longrightarrow> refused w' = refused w"
  by (simp add: steps_def)

lemma steps_now: "steps P w w' \<Longrightarrow> now w' = now w"
  by (simp add: steps_def)

lemma steps_config: "steps P w w' \<Longrightarrow> map_of (files w') (ConfigDir, n) = map_of (files w) (ConfigDir, n)"
  by (simp add: steps_def)

lemma steps_new_events:
  "steps P w w' \<Longrightarrow> trace w' = trace w @ new_events w w' \<and> list_all P (new_events w w')"
  by (auto simp: steps_def new_events_def)

lemma new_events_trans:
  "steps P w w1 \<Longrightarrow> steps Q w1 w2 \<Longrightarrow> new_events w w2 = new_events w w1 @ new_events w1 w2"
  by (auto simp: steps_def new_events_def)

lemma copy_logged:
  "Effect (CopyFile src dst) \<in> set (new_events w (snd (copy_or_placeholder src dst w)))"
  by (simp add: copy_or_placeholder_def fs_copyFile_def writeJsonFile_def fs_mkdir_def
      fs_writeFile_def log_def Let_def new_events_def split: option.splits)

lemma copy_or_placeholder_ok:
  assumes "\<not> refused w (Mkdir ArchiveDir)" "\<not> refused w (WriteFile (ArchiveDir, n))"
  shows "fst (copy_or_placeholder src (ArchiveDir, n) w) = Inr ()"
  using assms
  by (simp add: copy_or_placeholder_def fs_copyFile_def writeJsonFile_def fs_mkdir_def
      fs_writeFile_def log_def Let_def split: option.splits)

lemma log_fields: "refused (log e w) = refused w" "now (log e w) = now w" "files (log e w) = files w"
  "trace (log e w) = trace w @ [e]"
  by (simp_all add: log_def)

lemma backupConfigsInternal_spec:
  fixes a b w
  defines "n1 \<equiv> ''omo-backup-'' @ createTimestamp (now w) @ backup_ext a"
    and "n2 \<equiv> ''opencode-backup-'' @ createTimestamp (now w) @ backup_ext b"
    and "w' \<equiv> snd (backupConfigsInternal a b w)"
    and "res \<equiv> fst (backupConfigsInternal a b w)"
    and "w0 \<equiv> log (BackupAttempt a b) w"
  shows "steps (backup_event a b n1 n2) w0 w'"
    and "res = BackupOk d x y \<Longrightarrow> d = ArchiveDir \<and> x = n1 \<and> y = n2"
    and "res = BackupOk d x y \<Longrightarrow>
           Effect (CopyFile a (ArchiveDir, n1)) \<in> set (new_events w0 w') \<and>
           Effect (CopyFile b (ArchiveDir, n2)) \<in> set (new_events w0 w')"
    and "\<not> refused w (Mkdir ArchiveDir) \<Longrightarrow> \<forall>n. \<not> refused w (WriteFile (ArchiveDir, n)) \<Longrightarrow>
           Effect (CopyFile a (ArchiveDir, n1)) \<in> set (new_events w0 w') \<and>
           Effect (CopyFile b (ArchiveDir, n2)) \<in> set (new_events w0 w')"
    and "\<not> refused w (Mkdir ArchiveDir) \<Longrightarrow> \<forall>n. \<not> refused w (WriteFile (ArchiveDir, n)) \<Longrightarrow>
           \<not> refused w (Readdir ArchiveDir) \<Longrightarrow> res = BackupOk ArchiveDir n1 n2"
proof -
  let ?P = "backup_event a b n1 n2"
  obtain r1 w1 where m: "fs_mkdir ArchiveDir w0 = (r1, w1)" by fastforce
  have s1: "steps ?P w0 w1"
    using steps_mono [OF fs_mkdir_steps [of w0], of ?P] m by (simp add: backup_event_def)
  have now1: "now w1 = now w" using steps_now [OF s1] by (simp add: log_fields w0_def)
  have r1: "r1 = Inr ()" if "\<not> refused w (Mkdir ArchiveDir)"
    using m that by (auto simp: fs_mkdir_def Let_def log_fields w0_def)
  obtain r2 w2 where c1: "copy_or_placeholder a (ArchiveDir, n1) w1 = (r2, w2)" by fastforce
  have s12: "steps ?P w1 w2"
    using steps_mono [OF copy_or_placeholder_steps [of a n1 w1], of ?P] c1
    by (auto simp: backup_event_def)
  have s2: "steps ?P w0 w2" by (rule steps_trans [OF s1 s12])
  have l1: "Effect (CopyFile a (ArchiveDir, n1)) \<in> set (new_events w0 w2)"
    using copy_logged [of a "(ArchiveDir, n1)" w1] c1 new_events_trans [OF s1 s12] by simp
  obtain r3 w3 where c2: "copy_or_placeholder b (ArchiveDir, n2) w2 = (r3, w3)" by fastforce
  have s23: "steps ?P w2 w3"
    using steps_mono [OF copy_or_placeholder_steps [of b n2 w2], of ?P] c2
    by (auto simp: backup_event_def)
  have s3: "steps ?P w0 w3" by (rule steps_trans [OF s2 s23])
  have l3: "Effect (CopyFile a (ArchiveDir, n1)) \<in> set (new_events w0 w3) \<and>
            Effect (CopyFile b (ArchiveDir, n2)) \<in> set (new_events w0 w3)"
    using copy_logged [of b "(ArchiveDir, n2)" w2] c2 l1 new_events_trans [OF s2 s23] by simp
  have s34: "steps ?P w3 (unlink_all ArchiveDir bs w3)" for bs
    by (rule steps_mono [OF unlink_all_steps])
      (auto simp: backup_event_def split: event.splits ioop.splits dir.splits)
  have s4: "steps ?P w0 (unlink_all ArchiveDir bs w3)" for bs
    by (rule steps_trans [OF s3 s34])
  have l4: "Effect (CopyFile a (ArchiveDir, n1)) \<in> set (new_events w0 (unlink_all ArchiveDir bs w3)) \<and>
            Effect (CopyFile b (ArchiveDir, n2)) \<in> set (new_events w0 (unlink_all ArchiveDir bs w3))"
    for bs
    using l3 new_events_trans [OF s3 s34 [of bs]] by simp
  have rf1: "refused w1 = refused w" using steps_refused [OF s1] by (simp add: log_fields w0_def)
  have rf2: "refused w2 = refused w" using steps_refused [OF s2] by (simp add: log_fields w0_def)
  have rf3: "refused w3 = refused w" using steps_refused [OF s3] by (simp add: log_fields w0_def)
  have r2: "r2 = Inr ()"
    if "\<not> refused w (Mkdir ArchiveDir)" "\<forall>n. \<not> refused w (WriteFile (ArchiveDir, n))"
    using copy_or_placeholder_ok [of w1 n1 a] that c1 rf1 by simp
  have r3: "r3 = Inr ()"
    if "\<not> refused w (Mkdir ArchiveDir)" "\<forall>n. \<not> refused w (WriteFile (ArchiveDir, n))"
    using copy_or_placeholder_ok [of w2 n2 b] that c2 rf2 by simp
  have lb: "\<exists>bs. listBackups 100 w3 = Inr bs" if "\<not> refused w (Readdir ArchiveDir)"
    using that rf3 by (simp add: listBackups_def fs_readdir_def getArchiveDir_def)
  have unf: "backupConfigsInternal a b w =
    (case r1 of Inl e \<Rightarrow> (BackupFailed e, w1)
     | Inr _ \<Rightarrow> (case r2 of Inl e \<Rightarrow> (BackupFailed e, w2)
        | Inr _ \<Rightarrow> (case r3 of Inl e \<Rightarrow> (BackupFailed e, w3)
           | Inr _ \<Rightarrow> (case listBackups 100 w3 of Inl e \<Rightarrow> (BackupFailed e, w3)
              | Inr allBackups \<Rightarrow> (BackupOk ArchiveDir n1 n2,
                  if length allBackups > 5 then unlink_all ArchiveDir (drop 5 allBackups) w3
                  else w3)))))"
    unfolding backupConfigsInternal_def ensureArchiveDir_def getArchiveDir_def Let_def
      backup_ext_def [symmetric] basename_def
    using m c1 c2
    by (simp add: now1 n1_def n2_def w0_def split: sum.splits split del: if_split)
  show "steps ?P w0 w'"
    unfolding w'_def unf using s1 s2 s3 s4 by (simp split: sum.splits)
  show "res = BackupOk d x y \<Longrightarrow> d = ArchiveDir \<and> x = n1 \<and> y = n2"
    unfolding res_def unf by (simp split: sum.splits)
  show "res = BackupOk d x y \<Longrightarrow>
           Effect (CopyFile a (ArchiveDir, n1)) \<in> set (new_events w0 w') \<and>
           Effect (CopyFile b (ArchiveDir, n2)) \<in> set (new_events w0 w')"
    unfolding res_def w'_def unf using l3 l4 by (simp split: sum.splits)
  show "\<not> refused w (Mkdir ArchiveDir) \<Longrightarrow> \<forall>n. \<not> refused w (WriteFile (ArchiveDir, n)) \<Longrightarrow>
           Effect (CopyFile a (ArchiveDir, n1)) \<in> set (new_events w0 w') \<and>
           Effect (CopyFile b (ArchiveDir, n2)) \<in> set (new_events w0 w')"
    unfolding w'_def unf using r1 r2 r3 l3 l4 by (simp split: sum.splits)
  show "\<not> refused w (Mkdir ArchiveDir) \<Longrightarrow> \<forall>n. \<not> refused w (WriteFile (ArchiveDir, n)) \<Longrightarrow>
           \<not> refused w (Readdir ArchiveDir) \<Longrightarrow> res = BackupOk ArchiveDir n1 n2"
    unfolding res_def unf using r1 r2 r3 lb by (auto split: sum.splits)
qed






section \<open>The classifier\<close>

lemma hasWord_update_not_modify:
  assumes "hasWord (split_ws (toLowerCase request)) ''update''"
  shows "parseAction request \<in>
           {list_agents, list_categories, list_skills, list_oc_models, check_updates}"
  using assms by (simp add: parseAction_def Let_def)

text \<open>
  Claim C3. The request \<^verbatim>\<open>update my agent\<close> should classify as modify-agent. The rule for
  \<^verbatim>\<open>update\<close> alone stands before the rule for modify-agent, which lists \<^verbatim>\<open>update\<close> among
  its verbs: \<open>parseAction\<close> answers check-updates, and by \<open>hasWord_update_not_modify\<close> no
  request with a token that starts with \<^verbatim>\<open>update\<close> ever reaches modify-agent.
\<close>

theorem parseAction_update_my_agent:
  "parseAction ''update my agent'' = check_updates \<and>
   parseAction ''update my agent'' \<noteq> modify_agent"
  by (simp add: parseAction_def string_defs)

section \<open>Safe keys\<close>

lemma isSafeConfigKey_iff:
  "isSafeConfigKey k \<longleftrightarrow>
     k \<noteq> [] \<and> isAlnum (hd k) \<and> list_all isKeyChar k \<and> length k \<le> 64 \<and>
     toLowerCase k \<notin> set FORBIDDEN_KEYS"
  by (cases k) (auto simp: isSafeConfigKey_def matchesKeyPattern_def Let_def isKeyChar_def)

lemma known_hooks_safe: "h \<in> set KNOWN_HOOKS \<Longrightarrow> isSafeConfigKey h"
proof -
  have "list_all isSafeConfigKey KNOWN_HOOKS"
    by (simp add: KNOWN_HOOKS_def key_defs)
  then show "h \<in> set KNOWN_HOOKS \<Longrightarrow> isSafeConfigKey h"
    by (simp add: list_all_iff)
qed

lemma proto_unsafe: "\<not> isSafeConfigKey ''__proto__''"
  by (simp add: key_defs)

lemma key64: "isSafeConfigKey (''a-b_9'' @ replicate 59 CHR ''x'')"
  by (simp add: isSafeConfigKey_iff) (simp add: key_defs list_all_iff)

section \<open>Timestamps\<close>

lemma digit_code: "of_char (digit k) = (48 + k mod 10 :: nat)"
proof -
  have "k mod 10 = 0 \<or> k mod 10 = 1 \<or> k mod 10 = 2 \<or> k mod 10 = 3 \<or> k mod 10 = 4 \<or>
        k mod 10 = 5 \<or> k mod 10 = 6 \<or> k mod 10 = 7 \<or> k mod 10 = 8 \<or> k mod 10 = 9"
    by presburger
  then show ?thesis by (auto simp: digit_def)
qed

lemma digit_less: "digit a < digit b \<longleftrightarrow> a mod 10 < b mod 10"
  by (simp add: less_char_def digit_code)

lemma digit_eq: "digit a = digit b \<longleftrightarrow> a mod 10 = b mod 10"
proof
  assume "digit a = digit b"
  then have "(of_char (digit a) :: nat) = of_char (digit b)" by simp
  then show "a mod 10 = b mod 10" by (simp add: digit_code)
next
  assume "a mod 10 = b mod 10"
  then show "digit a = digit b" by (simp add: digit_def)
qed

lemma digit_not_sep:
  "digit k \<noteq> CHR ''T''" "digit k \<noteq> CHR ''-''" "digit k \<noteq> CHR '':''" "digit k \<noteq> CHR '' ''"
proof -
  have c: "of_char (digit k) \<noteq> (of_char c :: nat) \<Longrightarrow> digit k \<noteq> c" for c by auto
  have r: "(of_char (digit k) :: nat) < 58" by (simp add: digit_code)
  show "digit k \<noteq> CHR ''T''" using r by (intro c) simp
  show "digit k \<noteq> CHR ''-''" by (intro c) (simp add: digit_code)
  show "digit k \<noteq> CHR '':''" using r by (intro c) simp
  show "digit k \<noteq> CHR '' ''" by (intro c) (simp add: digit_code)
qed

lemma createTimestamp_shape:
  assumes "0 \<le> utc_year d" "utc_year d \<le> 9999"
  shows "createTimestamp d =
     pad4 (nat (utc_year d)) @ pad2 (utc_month d) @ pad2 (utc_day d) @ ''-'' @
     pad2 (local_hours d) @ pad2 (local_minutes d) @ pad2 (local_seconds d)"
  using assms
  by (simp add: createTimestamp_def toISOString_def year_digits_def toTimeString_def
      split_first_def remove_all_def pad2_def pad4_def digit_not_sep)

lemma lex_div_mod:
  fixes a b n :: nat
  shows "a div n < b div n \<or> (a div n = b div n \<and> a mod n < b mod n) \<longleftrightarrow> a < b"
proof -
  have a: "a = n * (a div n) + a mod n" and b: "b = n * (b div n) + b mod n" by simp_all
  show ?thesis
  proof (cases "a div n = b div n")
    case True
    have e1: "n * (b div n) + a mod n = a" using True mult_div_mod_eq [of n a] by simp
    have e2: "n * (b div n) + b mod n = b" by simp
    have "a mod n < b mod n \<longleftrightarrow> n * (b div n) + a mod n < n * (b div n) + b mod n"
      by linarith
    then have "a mod n < b mod n \<longleftrightarrow> a < b" unfolding e1 e2 .
    then show ?thesis using True by simp
  next
    case False
    then consider "a div n < b div n" | "b div n < a div n" by linarith
    then show ?thesis
    proof cases
      case 1
      then have "\<not> b \<le> a" using div_le_mono [of b a n] by linarith
      with 1 show ?thesis by simp
    next
      case 2
      then have "\<not> a \<le> b" using div_le_mono [of a b n] by linarith
      with 2 show ?thesis by simp
    qed
  qed
qed

lemma eq_div_mod:
  fixes a b n :: nat
  shows "a div n = b div n \<and> a mod n = b mod n \<longleftrightarrow> a = b"
proof
  assume h: "a div n = b div n \<and> a mod n = b mod n"
  have "a = n * (a div n) + a mod n" by simp
  also have "\<dots> = n * (b div n) + b mod n" using h by simp
  also have "\<dots> = b" by simp
  finally show "a = b" .
next
  assume "a = b"
  then show "a div n = b div n \<and> a mod n = b mod n" by simp
qed

lemma pad2_less:
  assumes "a < 100" "b < 100"
  shows "pad2 a @ r < pad2 b @ s \<longleftrightarrow> a < b \<or> (a = b \<and> r < s)"
proof -
  have "a div 10 < 10" "b div 10 < 10" using assms by auto
  then have d: "a div 10 mod 10 = a div 10" "b div 10 mod 10 = b div 10" by auto
  have "pad2 a @ r < pad2 b @ s \<longleftrightarrow>
        a div 10 < b div 10 \<or> (a div 10 = b div 10 \<and>
          (a mod 10 < b mod 10 \<or> (a mod 10 = b mod 10 \<and> r < s)))"
    by (simp add: pad2_def digit_less digit_eq d)
  also have "\<dots> \<longleftrightarrow> a < b \<or> (a = b \<and> r < s)"
    using lex_div_mod [of a 10 b] eq_div_mod [of a 10 b] by blast
  finally show ?thesis .
qed

lemma pad4_pad2: "pad4 y = pad2 (y div 100) @ pad2 (y mod 100)"
proof -
  have "y div 100 div 10 = y div 1000" by (simp add: div_mult2_eq)
  moreover have "(y mod 100 div 10) mod 10 = (y div 10) mod 10"
  proof -
    have "y mod (10 * 10) = 10 * (y div 10 mod 10) + y mod 10" by (rule mod_mult2_eq)
    then have "y mod 100 div 10 = y div 10 mod 10" by simp
    then show ?thesis by simp
  qed
  moreover have "(y mod 100) mod 10 = y mod 10"
    by (simp add: mod_mod_cancel)
  ultimately show ?thesis by (simp add: pad4_def pad2_def digit_eq)
qed

lemma pad4_less:
  assumes "a < 10000" "b < 10000"
  shows "pad4 a @ r < pad4 b @ s \<longleftrightarrow> a < b \<or> (a = b \<and> r < s)"
proof -
  have h: "a div 100 < 100" "b div 100 < 100" "a mod 100 < 100" "b mod 100 < 100"
    using assms by auto
  have "pad4 a @ r < pad4 b @ s \<longleftrightarrow>
        a div 100 < b div 100 \<or> (a div 100 = b div 100 \<and>
          (a mod 100 < b mod 100 \<or> (a mod 100 = b mod 100 \<and> r < s)))"
    by (simp add: pad4_pad2 pad2_less h)
  also have "\<dots> \<longleftrightarrow> a < b \<or> (a = b \<and> r < s)"
    using lex_div_mod [of a 100 b] eq_div_mod [of a 100 b] by blast
  finally show ?thesis .
qed

lemma createTimestamp_sortable:
  assumes "valid_Date d" "valid_Date e"
  shows "createTimestamp d < createTimestamp e \<longleftrightarrow> stamp_fields d < stamp_fields e"
proof -
  have s: "pad2 a < pad2 b \<longleftrightarrow> a < b" if "a < 100" "b < 100" for a b
    using pad2_less [OF that, of "[]" "[]"] by simp
  have y: "nat (utc_year d) < 10000" "nat (utc_year e) < 10000"
    "nat (utc_year d) < nat (utc_year e) \<longleftrightarrow> utc_year d < utc_year e"
    "nat (utc_year d) = nat (utc_year e) \<longleftrightarrow> utc_year d = utc_year e"
    using assms by (auto simp: valid_Date_def)
  have sh: "createTimestamp x =
     pad4 (nat (utc_year x)) @ pad2 (utc_month x) @ pad2 (utc_day x) @ ''-'' @
     pad2 (local_hours x) @ pad2 (local_minutes x) @ pad2 (local_seconds x)"
    if "valid_Date x" for x
    using that by (intro createTimestamp_shape) (simp_all add: valid_Date_def)
  show ?thesis
    using assms
    by (auto simp: sh stamp_fields_def valid_Date_def pad4_less pad2_less s y)
qed

lemma digit_isDigit: "isDigit (digit k)"
  by (simp add: isDigit_def digit_code)

lemma createTimestamp_is_stamp:
  assumes "valid_Date d"
  shows "is_stamp (createTimestamp d)"
proof -
  have "createTimestamp d =
     pad4 (nat (utc_year d)) @ pad2 (utc_month d) @ pad2 (utc_day d) @ ''-'' @
     pad2 (local_hours d) @ pad2 (local_minutes d) @ pad2 (local_seconds d)"
    using assms by (intro createTimestamp_shape) (simp_all add: valid_Date_def)
  then show ?thesis by (simp add: is_stamp_def pad4_def pad2_def digit_isDigit)
qed

lemma createTimestamp_chronological:
  assumes "valid_Date d" "valid_Date e" "local_is_utc d" "local_is_utc e"
  shows "createTimestamp d < createTimestamp e \<longleftrightarrow> utc_fields d < utc_fields e"
proof -
  have "stamp_fields d = utc_fields d" "stamp_fields e = utc_fields e"
    using assms(3,4) by (simp_all add: stamp_fields_def utc_fields_def local_is_utc_def)
  with createTimestamp_sortable [OF assms(1,2)] show ?thesis by simp
qed

section \<open>Retention\<close>

lemma keys_update: "map fst (AList.update k v al) = add_key k (map fst al)"
  by (simp add: add_key_def update_keys)

lemma keys_delete: "map fst (AList.delete k al) = removeAll k (map fst al)"
  by (simp add: delete_keys)

lemma copy_or_placeholder_quiet:
  assumes "refused w = quiet"
  shows "fst (copy_or_placeholder src dst w) = Inr ()"
    and "map fst (files (snd (copy_or_placeholder src dst w))) = add_key dst (map fst (files w))"
    and "refused (snd (copy_or_placeholder src dst w)) = quiet"
  using assms
  by (simp_all add: copy_or_placeholder_def fs_copyFile_def writeJsonFile_def fs_mkdir_def
      fs_writeFile_def log_def Let_def quiet_def keys_update split: option.splits)

lemma unlink_all_quiet:
  assumes "refused w = quiet"
  shows "map fst (files (unlink_all d bs w)) = fold (\<lambda>n. removeAll (d, n)) bs (map fst (files w))"
  using assms
proof (induction bs arbitrary: w)
  case Nil
  show ?case by simp
next
  case (Cons b bs)
  let ?w1 = "snd (fs_unlink (d, b) w)"
  have r: "refused ?w1 = quiet" using Cons.prems by (simp add: fs_unlink_def log_def Let_def)
  have k: "map fst (files ?w1) = removeAll (d, b) (map fst (files w))"
  proof (cases "map_of (files w) (d, b)")
    case None
    then have "(d, b) \<notin> set (map fst (files w))" by (simp add: map_of_eq_None_iff)
    with None show ?thesis by (simp add: fs_unlink_def log_def Let_def)
  next
    case (Some c)
    with Cons.prems show ?thesis
      by (simp add: fs_unlink_def log_def Let_def quiet_def keys_delete)
  qed
  show ?case using Cons.IH [OF r] k by simp
qed

lemma backup_keys_quiet:
  assumes q: "refused w = quiet"
  shows "map fst (files (snd (backupConfigsInternal a b w))) =
     sweep (add_key (ArchiveDir, ''opencode-backup-'' @ createTimestamp (now w) @ backup_ext b)
             (add_key (ArchiveDir, ''omo-backup-'' @ createTimestamp (now w) @ backup_ext a)
               (map fst (files w))))"
proof -
  let ?n1 = "''omo-backup-'' @ createTimestamp (now w) @ backup_ext a"
  let ?n2 = "''opencode-backup-'' @ createTimestamp (now w) @ backup_ext b"
  let ?w0 = "log (BackupAttempt a b) w"
  let ?w1 = "log (Effect (Mkdir ArchiveDir)) ?w0"
  have m: "fs_mkdir ArchiveDir ?w0 = (Inr (), ?w1)"
    using q by (simp add: fs_mkdir_def Let_def log_fields quiet_def)
  have q1: "refused ?w1 = quiet" using q by (simp add: log_fields)
  obtain r2 w2 where c1: "copy_or_placeholder a (ArchiveDir, ?n1) ?w1 = (r2, w2)" by fastforce
  have r2: "r2 = Inr ()" and k2: "map fst (files w2) = add_key (ArchiveDir, ?n1) (map fst (files w))"
    and q2: "refused w2 = quiet"
    using copy_or_placeholder_quiet [OF q1, of a "(ArchiveDir, ?n1)"] c1 by (simp_all add: log_fields)
  obtain r3 w3 where c2: "copy_or_placeholder b (ArchiveDir, ?n2) w2 = (r3, w3)" by fastforce
  have r3: "r3 = Inr ()" and k3: "map fst (files w3) = add_key (ArchiveDir, ?n2) (map fst (files w2))"
    and q3: "refused w3 = quiet"
    using copy_or_placeholder_quiet [OF q2, of b "(ArchiveDir, ?n2)"] c2 by simp_all
  have lb: "listBackups 100 w3 =
      Inr (take 100 (rev (sort (filter isBackupName (names_in ArchiveDir (map fst (files w3)))))))"
    using q3 by (simp add: listBackups_def fs_readdir_def getArchiveDir_def quiet_def names_in_def)
  have "snd (backupConfigsInternal a b w) =
     (let allBackups = take 100 (rev (sort (filter isBackupName (names_in ArchiveDir (map fst (files w3))))))
      in if length allBackups > 5 then unlink_all ArchiveDir (drop 5 allBackups) w3 else w3)"
    unfolding backupConfigsInternal_def ensureArchiveDir_def getArchiveDir_def Let_def
      backup_ext_def [symmetric] basename_def
    using m c1 c2 r2 r3 lb
    by (simp add: log_fields split del: if_split)
  then show ?thesis
    using unlink_all_quiet [OF q3] by (simp add: sweep_def Let_def k3 k2)
qed


lemma resolve_steps:
  assumes "steps P w w'"
  shows "resolveOmoConfigPath w' = resolveOmoConfigPath w"
    and "resolveOpenCodeConfigPath w' = resolveOpenCodeConfigPath w"
  using steps_config [OF assms] steps_refused [OF assms]
  by (simp_all add: path_defs fs_access_def)

lemma resolve_log: "resolveOmoConfigPath (log e w) = resolveOmoConfigPath w"
  "resolveOpenCodeConfigPath (log e w) = resolveOpenCodeConfigPath w"
  by (simp_all add: path_defs fs_access_def log_fields)

lemma resolve_now: "resolveOmoConfigPath (w\<lparr>now := d\<rparr>) = resolveOmoConfigPath w"
  "resolveOpenCodeConfigPath (w\<lparr>now := d\<rparr>) = resolveOpenCodeConfigPath w"
  by (simp_all add: path_defs fs_access_def)

lemma backup_at_quiet:
  assumes q: "refused w = quiet"
  shows "refused (backup_at d w) = quiet"
    and "resolveOmoConfigPath (backup_at d w) = resolveOmoConfigPath w"
    and "resolveOpenCodeConfigPath (backup_at d w) = resolveOpenCodeConfigPath w"
    and "map fst (files (backup_at d w)) =
      sweep (add_key (ArchiveDir, ''opencode-backup-'' @ createTimestamp d @
                        backup_ext (resolveOpenCodeConfigPath w))
              (add_key (ArchiveDir, ''omo-backup-'' @ createTimestamp d @
                          backup_ext (resolveOmoConfigPath w))
                (map fst (files w))))"
proof -
  let ?w1 = "w\<lparr>now := d\<rparr>"
  let ?a = "resolveOmoConfigPath ?w1" and ?b = "resolveOpenCodeConfigPath ?w1"
  have st: "steps (backup_event ?a ?b
              (''omo-backup-'' @ createTimestamp (now ?w1) @ backup_ext ?a)
              (''opencode-backup-'' @ createTimestamp (now ?w1) @ backup_ext ?b))
            (log (BackupAttempt ?a ?b) ?w1) (backup_at d w)"
    unfolding backup_at_def Let_def by (rule backupConfigsInternal_spec(1))
  show "refused (backup_at d w) = quiet"
    using steps_refused [OF st] q by (simp add: log_fields)
  show "resolveOmoConfigPath (backup_at d w) = resolveOmoConfigPath w"
    using resolve_steps(1) [OF st] by (simp add: resolve_log resolve_now)
  show "resolveOpenCodeConfigPath (backup_at d w) = resolveOpenCodeConfigPath w"
    using resolve_steps(2) [OF st] by (simp add: resolve_log resolve_now)
  have "refused ?w1 = quiet" using q by simp
  from backup_keys_quiet [OF this, of ?a ?b]
  show "map fst (files (backup_at d w)) =
      sweep (add_key (ArchiveDir, ''opencode-backup-'' @ createTimestamp d @
                        backup_ext (resolveOpenCodeConfigPath w))
              (add_key (ArchiveDir, ''omo-backup-'' @ createTimestamp d @
                          backup_ext (resolveOmoConfigPath w))
                (map fst (files w))))"
    by (simp add: backup_at_def Let_def resolve_now)
qed

lemma example_paths:
  "resolveOmoConfigPath example_world = (ConfigDir, ''oh-my-opencode.json'')"
  "resolveOpenCodeConfigPath example_world = (ConfigDir, ''opencode.json'')"
  by (simp_all add: path_defs fs_access_def example_world_def quiet_def)

lemma example_exts:
  "backup_ext (ConfigDir, ''oh-my-opencode.json'') = ''.json''"
  "backup_ext (ConfigDir, ''opencode.json'') = ''.json''"
  by (simp_all add: backup_ext_def extname_def)

lemma at_second_stamp: "createTimestamp (at_second s) = ''20260102-0404'' @ pad2 s"
proof -
  have "0 \<le> utc_year (at_second s)" "utc_year (at_second s) \<le> 9999"
    by (simp_all add: at_second_def example_date_def)
  from createTimestamp_shape [OF this] show ?thesis
    by (simp add: at_second_def example_date_def pad4_def pad2_def digit_def)
qed

text \<open>
  Claim C5. After a backup the sweep should leave the five most recent backups. It keeps
  the first five names of the listing, which sorts whole file names in descending order:
  every name that starts with \<^verbatim>\<open>opencode-backup-\<close> sorts before every name that starts
  with \<^verbatim>\<open>omo-backup-\<close>. Six backups in six consecutive seconds, started on an empty
  archive, leave five files, all of them provider-side: the agent-side backup that the
  sixth operation has just made is deleted, and the provider-side backups of seconds 2 to
  5 are kept.
\<close>

theorem six_backups_keep_five_provider_backups:
  "listBackups 100
     (backup_at (at_second 6) (backup_at (at_second 5) (backup_at (at_second 4)
       (backup_at (at_second 3) (backup_at (at_second 2) (backup_at (at_second 1)
         example_world)))))) =
   Inr [''opencode-backup-20260102-040406.json'', ''opencode-backup-20260102-040405.json'',
        ''opencode-backup-20260102-040404.json'', ''opencode-backup-20260102-040403.json'',
        ''opencode-backup-20260102-040402.json'']"
proof -
  define w1 where "w1 = backup_at (at_second 1) example_world"
  define w2 where "w2 = backup_at (at_second 2) w1"
  define w3 where "w3 = backup_at (at_second 3) w2"
  define w4 where "w4 = backup_at (at_second 4) w3"
  define w5 where "w5 = backup_at (at_second 5) w4"
  define w6 where "w6 = backup_at (at_second 6) w5"
  note ev = sweep_def add_key_def names_in_def isBackupName_def at_second_stamp pad2_def
    digit_def example_exts Let_def
  have q0: "refused example_world = quiet" by (simp add: example_world_def)
  have k0: "map fst (files example_world) = [(ConfigDir, ''oh-my-opencode.json'')]"
    by (simp add: example_world_def)
  note b1 = backup_at_quiet [OF q0, of "at_second 1", folded w1_def]
  have k1: "map fst (files w1) =
    [(ConfigDir, ''oh-my-opencode.json''), (ArchiveDir, ''omo-backup-20260102-040401.json''),
     (ArchiveDir, ''opencode-backup-20260102-040401.json'')]"
    unfolding b1(4) k0 example_paths by (simp add: ev)
  note b2 = backup_at_quiet [OF b1(1), of "at_second 2", folded w2_def]
  have k2: "map fst (files w2) =
    [(ConfigDir, ''oh-my-opencode.json''), (ArchiveDir, ''omo-backup-20260102-040401.json''),
     (ArchiveDir, ''opencode-backup-20260102-040401.json''),
     (ArchiveDir, ''omo-backup-20260102-040402.json''),
     (ArchiveDir, ''opencode-backup-20260102-040402.json'')]"
    unfolding b2(4) k1 b1(2,3) example_paths by (simp add: ev)
  note b3 = backup_at_quiet [OF b2(1), of "at_second 3", folded w3_def]
  have k3: "map fst (files w3) =
    [(ConfigDir, ''oh-my-opencode.json''),
     (ArchiveDir, ''opencode-backup-20260102-040401.json''),
     (ArchiveDir, ''omo-backup-20260102-040402.json''),
     (ArchiveDir, ''opencode-backup-20260102-040402.json''),
     (ArchiveDir, ''omo-backup-20260102-040403.json''),
     (ArchiveDir, ''opencode-backup-20260102-040403.json'')]"
    unfolding b3(4) k2 b2(2,3) b1(2,3) example_paths by (simp add: ev)
  note b4 = backup_at_quiet [OF b3(1), of "at_second 4", folded w4_def]
  have k4: "map fst (files w4) =
    [(ConfigDir, ''oh-my-opencode.json''),
     (ArchiveDir, ''opencode-backup-20260102-040401.json''),
     (ArchiveDir, ''opencode-backup-20260102-040402.json''),
     (ArchiveDir, ''opencode-backup-20260102-040403.json''),
     (ArchiveDir, ''omo-backup-20260102-040404.json''),
     (ArchiveDir, ''opencode-backup-20260102-040404.json'')]"
    unfolding b4(4) k3 b3(2,3) b2(2,3) b1(2,3) example_paths by (simp add: ev)
  note b5 = backup_at_quiet [OF b4(1), of "at_second 5", folded w5_def]
  have k5: "map fst (files w5) =
    [(ConfigDir, ''oh-my-opencode.json''),
     (ArchiveDir, ''opencode-backup-20260102-040401.json''),
     (ArchiveDir, ''opencode-backup-20260102-040402.json''),
     (ArchiveDir, ''opencode-backup-20260102-040403.json''),
     (ArchiveDir, ''opencode-backup-20260102-040404.json''),
     (ArchiveDir, ''opencode-backup-20260102-040405.json'')]"
    unfolding b5(4) k4 b4(2,3) b3(2,3) b2(2,3) b1(2,3) example_paths by (simp add: ev)
  note b6 = backup_at_quiet [OF b5(1), of "at_second 6", folded w6_def]
  have k6: "map fst (files w6) =
    [(ConfigDir, ''oh-my-opencode.json''),
     (ArchiveDir, ''opencode-backup-20260102-040402.json''),
     (ArchiveDir, ''opencode-backup-20260102-040403.json''),
     (ArchiveDir, ''opencode-backup-20260102-040404.json''),
     (ArchiveDir, ''opencode-backup-20260102-040405.json''),
     (ArchiveDir, ''opencode-backup-20260102-040406.json'')]"
    unfolding b6(4) k5 b5(2,3) b4(2,3) b3(2,3) b2(2,3) b1(2,3) example_paths by (simp add: ev)
  have "listBackups 100 w6 =
    Inr [''opencode-backup-20260102-040406.json'', ''opencode-backup-20260102-040405.json'',
         ''opencode-backup-20260102-040404.json'', ''opencode-backup-20260102-040403.json'',
         ''opencode-backup-20260102-040402.json'']"
    using b6(1)
    by (simp add: listBackups_def fs_readdir_def getArchiveDir_def quiet_def k6 isBackupName_def)
  then show ?thesis
    unfolding w6_def w5_def w4_def w3_def w2_def w1_def .
qed

section \<open>Backup file names\<close>

lemma new_events_log:
  assumes "steps P (log e w) w'"
  shows "new_events w w' = e # new_events (log e w) w'"
  using assms by (auto simp: steps_def new_events_def log_fields)

lemma resolved_ext:
  "backup_ext (resolveOmoConfigPath w) \<in> {''.json'', ''.jsonc''}"
  "backup_ext (resolveOpenCodeConfigPath w) \<in> {''.json'', ''.jsonc''}"
  by (simp_all add: path_defs backup_ext_def extname_def)

lemma example_backup_ok:
  "fst (backupConfigsInternal (ConfigDir, ''oh-my-opencode.json'') (ConfigDir, ''opencode.json'')
         example_world) =
   BackupOk ArchiveDir ''omo-backup-20260102-040405.json'' ''opencode-backup-20260102-040405.json''"
proof -
  have "createTimestamp (now example_world) = ''20260102-040405''"
    using at_second_stamp [of 5]
    by (simp add: example_world_def at_second_def example_date_def pad2_def digit_def)
  moreover have "\<not> refused example_world (Mkdir ArchiveDir)"
    "\<forall>n. \<not> refused example_world (WriteFile (ArchiveDir, n))"
    "\<not> refused example_world (Readdir ArchiveDir)"
    by (simp_all add: example_world_def quiet_def)
  ultimately show ?thesis
    using backupConfigsInternal_spec(5) [of example_world "(ConfigDir, ''oh-my-opencode.json'')"
        "(ConfigDir, ''opencode.json'')"]
    by (simp add: example_exts)
qed

lemma utc_backup_ok:
  "fst (backupConfigsInternal (ConfigDir, ''oh-my-opencode.json'') (ConfigDir, ''opencode.json'')
         (example_world\<lparr>now := in_utc example_date\<rparr>)) =
   BackupOk ArchiveDir ''omo-backup-20260102-030405.json'' ''opencode-backup-20260102-030405.json''"
proof -
  let ?w = "example_world\<lparr>now := in_utc example_date\<rparr>"
  have "0 \<le> utc_year (in_utc example_date)" "utc_year (in_utc example_date) \<le> 9999"
    by (simp_all add: in_utc_def example_date_def)
  from createTimestamp_shape [OF this]
  have "createTimestamp (now ?w) = ''20260102-030405''"
    by (simp add: in_utc_def example_date_def pad4_def pad2_def digit_def)
  moreover have "\<not> refused ?w (Mkdir ArchiveDir)"
    "\<forall>n. \<not> refused ?w (WriteFile (ArchiveDir, n))"
    "\<not> refused ?w (Readdir ArchiveDir)"
    by (simp_all add: example_world_def quiet_def)
  ultimately show ?thesis
    using backupConfigsInternal_spec(5) [of ?w "(ConfigDir, ''oh-my-opencode.json'')"
        "(ConfigDir, ''opencode.json'')"]
    by (simp add: example_exts)
qed

text \<open>
  Claim C4, as amended. When the backup operation succeeds, the agent-side backup is named
  \<^verbatim>\<open>omo-backup-\<close> (not \<^verbatim>\<open>agent-backup-\<close>) and the provider-side backup \<^verbatim>\<open>opencode-backup-\<close>,
  each followed by the timestamp and by the extension of its source file, \<^verbatim>\<open>.json\<close> when
  the source has none; the resolved configuration paths end in \<^verbatim>\<open>.json\<close> or \<^verbatim>\<open>.jsonc\<close>.
  The timestamp has the form \<^verbatim>\<open>YYYYMMDD-HHMMSS\<close>, for the years 0 to 9999. The two copies the
  operation attempts go to these two names, and every other event of the operation is one
  of its own. The timestamp is sortable where the local time of day is the time of day in
  UTC: it then prints the date and the time of the instant, and the lexicographic order of
  two such timestamps is the chronological order of their instants, to the second.
\<close>

theorem backup_file_names:
  assumes "valid_Date (now w)"
    and "fst (backupConfigsInternal omoConfigPath ocConfigPath w) = BackupOk d omoBackup ocBackup"
  shows
    "omoBackup = ''omo-backup-'' @ createTimestamp (now w) @ backup_ext omoConfigPath \<and>
     ocBackup = ''opencode-backup-'' @ createTimestamp (now w) @ backup_ext ocConfigPath \<and>
     backup_ext (resolveOmoConfigPath w) \<in> {''.json'', ''.jsonc''} \<and>
     backup_ext (resolveOpenCodeConfigPath w) \<in> {''.json'', ''.jsonc''} \<and>
     is_stamp (createTimestamp (now w)) \<and>
     Effect (CopyFile omoConfigPath (ArchiveDir, omoBackup))
       \<in> set (new_events w (snd (backupConfigsInternal omoConfigPath ocConfigPath w))) \<and>
     Effect (CopyFile ocConfigPath (ArchiveDir, ocBackup))
       \<in> set (new_events w (snd (backupConfigsInternal omoConfigPath ocConfigPath w))) \<and>
     list_all (\<lambda>e. e = BackupAttempt omoConfigPath ocConfigPath \<or>
                    backup_event omoConfigPath ocConfigPath omoBackup ocBackup e)
       (new_events w (snd (backupConfigsInternal omoConfigPath ocConfigPath w))) \<and>
     (local_is_utc (now w) \<longrightarrow>
        createTimestamp (now w) =
          pad4 (nat (utc_year (now w))) @ pad2 (utc_month (now w)) @ pad2 (utc_day (now w)) @
          ''-'' @ pad2 (utc_hours (now w)) @ pad2 (utc_minutes (now w)) @
          pad2 (utc_seconds (now w)) \<and>
        (\<forall>e. valid_Date e \<and> local_is_utc e \<longrightarrow>
           (createTimestamp (now w) < createTimestamp e \<longleftrightarrow>
            utc_fields (now w) < utc_fields e)))"
proof -
  let ?w' = "snd (backupConfigsInternal omoConfigPath ocConfigPath w)"
  let ?w0 = "log (BackupAttempt omoConfigPath ocConfigPath) w"
  note sp = backupConfigsInternal_spec [where a = omoConfigPath and b = ocConfigPath and w = w]
  have n: "omoBackup = ''omo-backup-'' @ createTimestamp (now w) @ backup_ext omoConfigPath"
    "ocBackup = ''opencode-backup-'' @ createTimestamp (now w) @ backup_ext ocConfigPath"
    using sp(2) [OF assms(2)] by simp_all
  have st: "steps (backup_event omoConfigPath ocConfigPath omoBackup ocBackup) ?w0 ?w'"
    unfolding n by (rule sp(1))
  have ne: "new_events w ?w' = BackupAttempt omoConfigPath ocConfigPath # new_events ?w0 ?w'"
    by (rule new_events_log [OF st])
  have c: "Effect (CopyFile omoConfigPath (ArchiveDir, omoBackup)) \<in> set (new_events w ?w')"
    "Effect (CopyFile ocConfigPath (ArchiveDir, ocBackup)) \<in> set (new_events w ?w')"
    using sp(3) [OF assms(2)] unfolding ne n by simp_all
  have l: "list_all (\<lambda>e. e = BackupAttempt omoConfigPath ocConfigPath \<or>
                    backup_event omoConfigPath ocConfigPath omoBackup ocBackup e) (new_events w ?w')"
    using steps_new_events [OF st] unfolding ne by (simp add: list_all_iff)
  have f: "is_stamp (createTimestamp (now w))"
    by (rule createTimestamp_is_stamp [OF assms(1)])
  have u: "createTimestamp (now w) =
          pad4 (nat (utc_year (now w))) @ pad2 (utc_month (now w)) @ pad2 (utc_day (now w)) @
          ''-'' @ pad2 (utc_hours (now w)) @ pad2 (utc_minutes (now w)) @
          pad2 (utc_seconds (now w))"
    if "local_is_utc (now w)"
  proof -
    have "0 \<le> utc_year (now w)" "utc_year (now w) \<le> 9999"
      using assms(1) by (simp_all add: valid_Date_def)
    from createTimestamp_shape [OF this] that show ?thesis by (simp add: local_is_utc_def)
  qed
  have s: "\<forall>e. valid_Date e \<and> local_is_utc e \<longrightarrow>
        (createTimestamp (now w) < createTimestamp e \<longleftrightarrow> utc_fields (now w) < utc_fields e)"
    if "local_is_utc (now w)"
    using createTimestamp_chronological [OF assms(1) _ that] by blast
  show ?thesis
    using n resolved_ext c l f u s by blast
qed

theorem backup_file_names_witness:
  "valid_Date (in_utc example_date) \<and> local_is_utc (in_utc example_date) \<and>
   fst (backupConfigsInternal (ConfigDir, ''oh-my-opencode.json'') (ConfigDir, ''opencode.json'')
          (example_world\<lparr>now := in_utc example_date\<rparr>)) =
     BackupOk ArchiveDir ''omo-backup-20260102-030405.json''
       ''opencode-backup-20260102-030405.json'' \<and>
   ''omo-backup-20260102-030405.json'' =
     ''omo-backup-'' @ createTimestamp (in_utc example_date) @
       backup_ext (ConfigDir, ''oh-my-opencode.json'') \<and>
   is_stamp (createTimestamp (in_utc example_date)) \<and>
   Effect (CopyFile (ConfigDir, ''oh-my-opencode.json'')
             (ArchiveDir, ''omo-backup-20260102-030405.json''))
     \<in> set (new_events (example_world\<lparr>now := in_utc example_date\<rparr>)
               (snd (backupConfigsInternal (ConfigDir, ''oh-my-opencode.json'')
                       (ConfigDir, ''opencode.json'')
                       (example_world\<lparr>now := in_utc example_date\<rparr>)))) \<and>
   valid_Date (in_utc at_midnight) \<and> local_is_utc (in_utc at_midnight) \<and>
   utc_fields (in_utc example_date) < utc_fields (in_utc at_midnight) \<and>
   createTimestamp (in_utc example_date) < createTimestamp (in_utc at_midnight)"
proof -
  let ?w = "example_world\<lparr>now := in_utc example_date\<rparr>"
  have v: "valid_Date (now ?w)" "valid_Date (in_utc example_date)"
    by (simp_all add: valid_Date_def in_utc_def example_date_def)
  have u: "local_is_utc (now ?w)" "local_is_utc (in_utc example_date)"
    by (simp_all add: local_is_utc_def in_utc_def)
  have vm: "valid_Date (in_utc at_midnight)" "local_is_utc (in_utc at_midnight)"
    by (simp_all add: valid_Date_def local_is_utc_def in_utc_def at_midnight_def example_date_def)
  have f: "utc_fields (now ?w) < utc_fields (in_utc at_midnight)"
    "utc_fields (in_utc example_date) < utc_fields (in_utc at_midnight)"
    by (simp_all add: utc_fields_def in_utc_def at_midnight_def example_date_def)
  have nw: "now ?w = in_utc example_date" by simp
  note t = backup_file_names [OF v(1) utc_backup_ok]
  from t u(1) vm f(1) have "createTimestamp (now ?w) < createTimestamp (in_utc at_midnight)"
    by blast
  with t v u vm f utc_backup_ok show ?thesis unfolding nw by blast
qed

theorem backup_name_counterexample:
  "fst (backupConfigsInternal (resolveOmoConfigPath example_world)
          (resolveOpenCodeConfigPath example_world) example_world) =
     BackupOk ArchiveDir ''omo-backup-20260102-040405.json''
       ''opencode-backup-20260102-040405.json'' \<and>
   \<not> prefix ''agent-backup-'' ''omo-backup-20260102-040405.json'' \<and>
   utc_fields before_midnight < utc_fields at_midnight \<and>
   createTimestamp before_midnight = ''20260102-235959'' \<and>
   createTimestamp at_midnight = ''20260102-000000'' \<and>
   createTimestamp at_midnight < createTimestamp before_midnight"
proof -
  have y: "0 \<le> utc_year before_midnight" "utc_year before_midnight \<le> 9999"
    "0 \<le> utc_year at_midnight" "utc_year at_midnight \<le> 9999"
    by (simp_all add: before_midnight_def at_midnight_def example_date_def)
  have b: "createTimestamp before_midnight = ''20260102-235959''"
    using createTimestamp_shape [OF y(1,2)]
    by (simp add: before_midnight_def example_date_def pad4_def pad2_def digit_def)
  have m: "createTimestamp at_midnight = ''20260102-000000''"
    using createTimestamp_shape [OF y(3,4)]
    by (simp add: at_midnight_def example_date_def pad4_def pad2_def digit_def)
  have l: "createTimestamp at_midnight < createTimestamp before_midnight"
    unfolding b m by (simp add: less_char_def)
  have f: "utc_fields before_midnight < utc_fields at_midnight"
    by (simp add: utc_fields_def before_midnight_def at_midnight_def example_date_def)
  show ?thesis using b m l f by (simp add: example_paths example_backup_ok)
qed

section \<open>The runs of executeAction\<close>

lemma not_isl_Inr: "\<not> isl x \<Longrightarrow> \<exists>y. x = Inr y"
  by (cases x) simp_all

lemma executeAction_loaded:
  assumes "loads w omoConfig"
  shows "executeAction infer action request options w =
     (let eff = effectiveOptions infer action request options;
          p = resolveOmoConfigPath w; q = resolveOpenCodeConfigPath w;
          done = (\<lambda>h. (Inr (fst h), snd h))
      in case action of
           backup_configs \<Rightarrow> done (case_backup_configs p q omoConfig w)
         | compare_backup \<Rightarrow> case_compare_backup eff omoConfig (projr (listBackups 5 w)) w
         | restore_backup \<Rightarrow> done (case_restore_backup eff p q omoConfig (projr (listBackups 5 w)) w)
         | add_agent \<Rightarrow> done (case_add_agent eff p q omoConfig w)
         | modify_agent \<Rightarrow> done (case_modify_agent eff p q omoConfig w)
         | add_category \<Rightarrow> done (case_add_category eff p q omoConfig w)
         | modify_category \<Rightarrow> done (case_modify_category eff p q omoConfig w)
         | disable_hook \<Rightarrow> done (case_disable_hook eff p q omoConfig w)
         | enable_hook \<Rightarrow> done (case_enable_hook eff p q omoConfig w)
         | _ \<Rightarrow> (Inr (Report action Text, omoConfig), w))"
proof -
  from assms obtain oc bs where
    "readJsonFile (resolveOmoConfigPath w) empty_object w = Inr omoConfig"
    "readJsonFile (resolveOpenCodeConfigPath w) empty_object w = Inr oc"
    "listBackups 5 w = Inr bs"
    unfolding loads_def by (meson not_isl_Inr)
  then show ?thesis
    by (cases action) (simp_all add: executeAction_def effectiveOptions_def Let_def)
qed


lemma snd_case_result:
  "snd (case x of (Inl e, w2) \<Rightarrow> (f e, w2) | (Inr u, w2) \<Rightarrow> (g u, w2)) = snd x"
  by (simp split: prod.splits sum.splits)

lemma persist_world: "snd (persist act s p cfg w) = snd (writeJsonFile p cfg w)"
  by (simp add: persist_def snd_case_result)


lemma case_compare_backup_world: "snd (case_compare_backup eff cfg bs w) = w"
  by (simp add: case_compare_backup_def Let_def split: option.splits sum.splits)


section \<open>Backup before every write\<close>

lemma resolved_dir:
  "fst (resolveOmoConfigPath w) = ConfigDir" "fst (resolveOpenCodeConfigPath w) = ConfigDir"
  by (simp_all add: path_defs)







section \<open>Writes after the backup\<close>

lemma backed_up_frame:
  "refused (backed_up w) = refused w"
  "now (backed_up w) = now w"
  "map_of (files (backed_up w)) (ConfigDir, n) = map_of (files w) (ConfigDir, n)"
  "resolveOmoConfigPath (backed_up w) = resolveOmoConfigPath w"
  "resolveOpenCodeConfigPath (backed_up w) = resolveOpenCodeConfigPath w"
proof -
  let ?a = "resolveOmoConfigPath w" and ?b = "resolveOpenCodeConfigPath w"
  have st: "steps (backup_event ?a ?b
              (''omo-backup-'' @ createTimestamp (now w) @ backup_ext ?a)
              (''opencode-backup-'' @ createTimestamp (now w) @ backup_ext ?b))
            (log (BackupAttempt ?a ?b) w) (backed_up w)"
    unfolding backed_up_def by (rule backupConfigsInternal_spec(1))
  show "refused (backed_up w) = refused w" using steps_refused [OF st] by (simp add: log_fields)
  show "now (backed_up w) = now w" using steps_now [OF st] by (simp add: log_fields)
  show "map_of (files (backed_up w)) (ConfigDir, n) = map_of (files w) (ConfigDir, n)"
    using steps_config [OF st] by (simp add: log_fields)
  show "resolveOmoConfigPath (backed_up w) = resolveOmoConfigPath w"
    using resolve_steps(1) [OF st] by (simp add: resolve_log)
  show "resolveOpenCodeConfigPath (backed_up w) = resolveOpenCodeConfigPath w"
    using resolve_steps(2) [OF st] by (simp add: resolve_log)
qed

lemma writeJsonFile_ok:
  assumes "\<not> refused w (Mkdir (fst p))" "\<not> refused w (WriteFile p)"
  shows "fst (writeJsonFile p d w) = Inr ()"
    and "map_of (files (snd (writeJsonFile p d w))) p = Some (Json d)"
    and "p' \<noteq> p \<Longrightarrow> map_of (files (snd (writeJsonFile p d w))) p' = map_of (files w) p'"
    and "refused (snd (writeJsonFile p d w)) = refused w"
    and "now (snd (writeJsonFile p d w)) = now w"
    and "trace (snd (writeJsonFile p d w)) =
           trace w @ [Effect (Mkdir (fst p)), Effect (WriteFile p)]"
  using assms
  by (simp_all add: writeJsonFile_def fs_mkdir_def fs_writeFile_def Let_def log_def
      update_conv')

lemma writeJsonFile_refused:
  assumes "refused w (Mkdir (fst p)) \<or> refused w (WriteFile p)"
  shows "\<exists>e. fst (writeJsonFile p d w) = Inl e"
    and "files (snd (writeJsonFile p d w)) = files w"
  using assms
  by (auto simp: writeJsonFile_def fs_mkdir_def fs_writeFile_def Let_def log_def)

lemma persist_ok:
  assumes "\<not> refused w (Mkdir (fst p))" "\<not> refused w (WriteFile p)"
  shows "persist act s p cfg w = ((Report act s, cfg), snd (writeJsonFile p cfg w))"
  using writeJsonFile_ok(1) [OF assms, where d = cfg]
  by (cases "writeJsonFile p cfg w") (simp add: persist_def)

lemma persist_refused:
  assumes "refused w (Mkdir (fst p)) \<or> refused w (WriteFile p)"
  shows "\<exists>e. persist act s p cfg w = ((Report act (Failed_with e), cfg), snd (writeJsonFile p cfg w))"
  using writeJsonFile_refused(1) [OF assms, where d = cfg]
  by (cases "writeJsonFile p cfg w") (auto simp: persist_def)

text \<open>A run that passes its checks: the backup, then one write of the agent-side file.\<close>

lemma stored_after_backup:
  fixes w act s cfg'
  defines "p \<equiv> resolveOmoConfigPath w"
  defines "h \<equiv> persist act s p cfg' (backed_up w)"
  assumes ok: "\<not> refused w (Mkdir ConfigDir)" "\<not> refused w (WriteFile p)"
  shows "fst h = (Report act s, cfg')"
    and "map_of (files (snd h)) p = Some (Json cfg')"
    and "n \<noteq> snd p \<Longrightarrow> map_of (files (snd h)) (ConfigDir, n) = map_of (files w) (ConfigDir, n)"
    and "refused (snd h) = refused w"
    and "trace (snd h) = trace (backed_up w) @ [Effect (Mkdir ConfigDir), Effect (WriteFile p)]"
    and "resolveOmoConfigPath (snd h) = p"
    and "resolveOpenCodeConfigPath (snd h) = resolveOpenCodeConfigPath w"
proof -
  have d: "fst p = ConfigDir" unfolding p_def by (rule resolved_dir)
  have ok': "\<not> refused (backed_up w) (Mkdir (fst p))" "\<not> refused (backed_up w) (WriteFile p)"
    using ok by (simp_all add: backed_up_frame d)
  have h: "h = ((Report act s, cfg'), snd (writeJsonFile p cfg' (backed_up w)))"
    unfolding h_def by (rule persist_ok [OF ok'])
  note wj = writeJsonFile_ok [OF ok', where d = cfg']
  show "fst h = (Report act s, cfg')" by (simp add: h)
  show f1: "map_of (files (snd h)) p = Some (Json cfg')" using wj(2) by (simp add: h)
  show f2: "map_of (files (snd h)) (ConfigDir, n) = map_of (files w) (ConfigDir, n)"
    if "n \<noteq> snd p" for n
  proof -
    have "(ConfigDir, n) \<noteq> p" using that by auto
    from wj(3) [OF this] show ?thesis by (simp add: h backed_up_frame)
  qed
  show r: "refused (snd h) = refused w" using wj(4) by (simp add: h backed_up_frame)
  show "trace (snd h) = trace (backed_up w) @ [Effect (Mkdir ConfigDir), Effect (WriteFile p)]"
    using wj(6) by (simp add: h d)
  have ex: "map_of (files (snd h)) (ConfigDir, n) \<noteq> None \<longleftrightarrow>
            (ConfigDir, n) = p \<or> map_of (files w) (ConfigDir, n) \<noteq> None" for n
  proof (cases "n = snd p")
    case True
    have "p = (ConfigDir, snd p)" using d by (cases p) simp
    with True f1 show ?thesis by auto
  next
    case False
    with f2 [of n] d show ?thesis by auto
  qed
  have pc: "p = (ConfigDir, ''oh-my-opencode.json'') \<or> p = (ConfigDir, ''oh-my-opencode.jsonc'')"
    unfolding p_def by (simp add: path_defs)
  show "resolveOmoConfigPath (snd h) = p"
    using pc ex r unfolding p_def
    by (auto simp: path_defs fs_access_def split: if_splits)
  show "resolveOpenCodeConfigPath (snd h) = resolveOpenCodeConfigPath w"
    using pc f2 r by (auto simp: path_defs fs_access_def)
qed

section \<open>The cases of the switch\<close>

lemma truthy_Some: "truthy (Some s) \<longleftrightarrow> s \<noteq> []"
  by (simp add: truthy_def)

lemma safe_nonempty: "isSafeConfigKey k \<Longrightarrow> k \<noteq> []"
  by (simp add: isSafeConfigKey_iff)

lemma add_agent_cases:
  fixes eff p q cfg w
  defines "h \<equiv> case_add_agent (Some eff) p q cfg w"
  assumes n: "agentName eff = Some name" "name \<noteq> []"
  shows "\<not> isSafeConfigKey name \<Longrightarrow> h = ((Report add_agent (Invalid_name name), cfg), w)"
    and "isSafeConfigKey name \<Longrightarrow> \<not> truthy (model (agent_data eff)) \<Longrightarrow>
           h = ((Report add_agent Missing_model, cfg), w)"
    and "isSafeConfigKey name \<Longrightarrow> truthy (model (agent_data eff)) \<Longrightarrow>
           out_of_range (temperature (agent_data eff)) \<Longrightarrow>
           h = ((Report add_agent Temperature_range, cfg), w)"
    and "isSafeConfigKey name \<Longrightarrow> truthy (model (agent_data eff)) \<Longrightarrow>
           \<not> out_of_range (temperature (agent_data eff)) \<Longrightarrow>
           h = persist add_agent (Stored_agent name (redactForDisplay (new_agent (agent_data eff)))) p
                 (cfg\<lparr>agents := Some ((agents_of cfg)(name \<mapsto> new_agent (agent_data eff)))\<rparr>)
                 (snd (backupConfigsInternal p q w))"
  using n unfolding h_def
  by (simp_all add: case_add_agent_def truthy_Some agent_data_def agents_of_def Let_def)

lemma add_category_cases:
  fixes eff p q cfg w
  defines "h \<equiv> case_add_category (Some eff) p q cfg w"
  assumes n: "categoryName eff = Some name" "name \<noteq> []"
  shows "\<not> isSafeConfigKey name \<Longrightarrow> h = ((Report add_category (Invalid_name name), cfg), w)"
    and "isSafeConfigKey name \<Longrightarrow> \<not> truthy (model (category_data eff)) \<Longrightarrow>
           h = ((Report add_category Missing_model, cfg), w)"
    and "isSafeConfigKey name \<Longrightarrow> truthy (model (category_data eff)) \<Longrightarrow>
           out_of_range (temperature (category_data eff)) \<Longrightarrow>
           h = ((Report add_category Temperature_range, cfg), w)"
    and "isSafeConfigKey name \<Longrightarrow> truthy (model (category_data eff)) \<Longrightarrow>
           \<not> out_of_range (temperature (category_data eff)) \<Longrightarrow>
           h = persist add_category
                 (Stored_category name (redactForDisplay (new_category (category_data eff)))) p
                 (cfg\<lparr>categories :=
                    Some ((categories_of cfg)(name \<mapsto> new_category (category_data eff)))\<rparr>)
                 (snd (backupConfigsInternal p q w))"
  using n unfolding h_def
  by (simp_all add: case_add_category_def truthy_Some category_data_def categories_of_def Let_def)

lemma modify_agent_cases:
  fixes eff p q cfg w
  defines "h \<equiv> case_modify_agent (Some eff) p q cfg w"
  defines "d \<equiv> agent_data eff"
  assumes n: "agentName eff = Some name" "name \<noteq> []"
  shows "\<not> isSafeConfigKey name \<Longrightarrow> h = ((Report modify_agent (Invalid_name name), cfg), w)"
    and "isSafeConfigKey name \<Longrightarrow> out_of_range (temperature d) \<Longrightarrow>
           h = ((Report modify_agent Temperature_range, cfg), w)"
    and "isSafeConfigKey name \<Longrightarrow> \<not> out_of_range (temperature d) \<Longrightarrow>
           agents cfg = None \<or> js_get (agents_of cfg) name = Undefined \<Longrightarrow>
           h = ((Report modify_agent (Not_found name), cfg), w)"
    and "isSafeConfigKey name \<Longrightarrow> \<not> out_of_range (temperature d) \<Longrightarrow>
           agents cfg \<noteq> None \<Longrightarrow> js_get (agents_of cfg) name = Own agent \<Longrightarrow>
           h = persist modify_agent (Stored_agent name (redactForDisplay (assign_agent d agent))) p
                 (cfg\<lparr>agents := Some ((agents_of cfg)(name \<mapsto> assign_agent d agent))\<rparr>)
                 (snd (backupConfigsInternal p q w))"
    and "isSafeConfigKey name \<Longrightarrow> \<not> out_of_range (temperature d) \<Longrightarrow>
           agents cfg \<noteq> None \<Longrightarrow> js_get (agents_of cfg) name = Inherited \<Longrightarrow>
           h = persist modify_agent
                 (Stored_agent name (redactForDisplay (assign_agent d empty_agent))) p cfg
                 (snd (backupConfigsInternal p q w))"
  using n unfolding h_def d_def
  by (auto simp: case_modify_agent_def truthy_Some agent_data_def agents_of_def Let_def
      split: option.splits)

lemma modify_category_cases:
  fixes eff p q cfg w
  defines "h \<equiv> case_modify_category (Some eff) p q cfg w"
  defines "d \<equiv> category_data eff"
  assumes n: "categoryName eff = Some name" "name \<noteq> []"
  shows "\<not> isSafeConfigKey name \<Longrightarrow> h = ((Report modify_category (Invalid_name name), cfg), w)"
    and "isSafeConfigKey name \<Longrightarrow> out_of_range (temperature d) \<Longrightarrow>
           h = ((Report modify_category Temperature_range, cfg), w)"
    and "isSafeConfigKey name \<Longrightarrow> \<not> out_of_range (temperature d) \<Longrightarrow>
           categories cfg = None \<or> js_get (categories_of cfg) name = Undefined \<Longrightarrow>
           h = ((Report modify_category (Not_found name), cfg), w)"
    and "isSafeConfigKey name \<Longrightarrow> \<not> out_of_range (temperature d) \<Longrightarrow>
           categories cfg \<noteq> None \<Longrightarrow> js_get (categories_of cfg) name = Own category \<Longrightarrow>
           h = persist modify_category
                 (Stored_category name (redactForDisplay (assign_category d category))) p
                 (cfg\<lparr>categories := Some ((categories_of cfg)(name \<mapsto> assign_category d category))\<rparr>)
                 (snd (backupConfigsInternal p q w))"
    and "isSafeConfigKey name \<Longrightarrow> \<not> out_of_range (temperature d) \<Longrightarrow>
           categories cfg \<noteq> None \<Longrightarrow> js_get (categories_of cfg) name = Inherited \<Longrightarrow>
           h = persist modify_category
                 (Stored_category name (redactForDisplay (assign_category d empty_category))) p cfg
                 (snd (backupConfigsInternal p q w))"
  using n unfolding h_def d_def
  by (auto simp: case_modify_category_def truthy_Some category_data_def categories_of_def Let_def
      split: option.splits)

lemma disable_hook_cases:
  fixes eff p q cfg w
  defines "h \<equiv> case_disable_hook (Some eff) p q cfg w"
  assumes n: "hookName eff = Some name" "name \<noteq> []"
  shows "name \<notin> set KNOWN_HOOKS \<Longrightarrow>
           h = ((Report disable_hook (Unknown_hook name KNOWN_HOOKS), cfg), w)"
    and "name \<in> set KNOWN_HOOKS \<Longrightarrow> name \<in> set (hooks_of cfg) \<Longrightarrow>
           h = ((Report disable_hook (Already_disabled name), cfg), w)"
    and "name \<in> set KNOWN_HOOKS \<Longrightarrow> name \<notin> set (hooks_of cfg) \<Longrightarrow>
           h = persist disable_hook (Hook_disabled name) p
                 (cfg\<lparr>disabled_hooks := Some (hooks_of cfg @ [name])\<rparr>)
                 (snd (backupConfigsInternal p q w))"
  using n unfolding h_def
  by (auto simp: case_disable_hook_def truthy_Some hooks_of_def Let_def split: option.splits)

lemma enable_hook_cases:
  fixes eff p q cfg w
  defines "h \<equiv> case_enable_hook (Some eff) p q cfg w"
  assumes n: "hookName eff = Some name" "name \<noteq> []"
  shows "name \<notin> set (hooks_of cfg) \<Longrightarrow>
           h = ((Report enable_hook (Not_disabled name), cfg), w)"
    and "name \<in> set (hooks_of cfg) \<Longrightarrow>
           h = persist enable_hook (Hook_enabled name) p
                 (cfg\<lparr>disabled_hooks := Some (filter (\<lambda>x. x \<noteq> name) (hooks_of cfg))\<rparr>)
                 (snd (backupConfigsInternal p q w))"
  using n unfolding h_def
  by (auto simp: case_enable_hook_def truthy_Some hooks_of_def Let_def split: option.splits)

lemma effectiveOptions_Some: "\<exists>eff. effectiveOptions infer action request options = Some eff"
  by (simp add: effectiveOptions_def mergeOptions_def Let_def)

section \<open>Hooks\<close>

lemma loads_omo: "loads w cfg \<Longrightarrow> readJsonFile (resolveOmoConfigPath w) empty_object w = Inr cfg"
  by (simp add: loads_def)

lemma resolved_distinct: "resolveOpenCodeConfigPath w \<noteq> resolveOmoConfigPath w'"
  by (simp add: path_defs)

lemma json_number_idem: "json_number (json_number v) = json_number v"
  by (cases v) (simp_all add: json_number_def)

lemma json_entry_idem: "json_entry (json_entry e) = json_entry e"
  by (simp add: json_entry_def option.map_comp comp_def json_number_idem)

lemma reparse_idem: "reparse (reparse obj) = reparse obj"
  by (simp add: reparse_def option.map_comp comp_def json_entry_idem json_number_idem)

lemma reparse_empty: "reparse empty_object = empty_object"
  by (simp add: reparse_def empty_object_def)

lemma loads_reparse: "loads w cfg \<Longrightarrow> reparse cfg = cfg"
  by (auto simp: loads_def readJsonFile_def reparse_idem reparse_empty
      split: option.splits if_splits filedata.splits)

lemma reparse_hooks: "reparse (cfg\<lparr>disabled_hooks := hs\<rparr>) = (reparse cfg)\<lparr>disabled_hooks := hs\<rparr>"
  by (simp add: reparse_def)

lemma loads_after_store:
  fixes w act s cfg'
  defines "p \<equiv> resolveOmoConfigPath w"
  defines "w1 \<equiv> snd (persist act s p cfg' (backed_up w))"
  assumes l: "loads w cfg"
    and ok: "\<not> refused w (Mkdir ConfigDir)" "\<not> refused w (WriteFile p)" "\<not> refused w (ReadFile p)"
    and js: "reparse cfg' = cfg'"
  shows "loads (w1\<lparr>now := d\<rparr>) cfg'"
proof -
  note sa = stored_after_backup [OF ok(1) ok(2) [unfolded p_def], where act = act and s = s and cfg' = cfg', folded p_def]
  let ?w2 = "w1\<lparr>now := d\<rparr>"
  let ?q = "resolveOpenCodeConfigPath w"
  have rp: "resolveOmoConfigPath ?w2 = p" "resolveOpenCodeConfigPath ?w2 = ?q"
    using sa(6,7) by (simp_all add: resolve_now w1_def)
  have r1: "readJsonFile p empty_object ?w2 = Inr cfg'"
    using sa(2) sa(4) ok(3) js by (simp add: readJsonFile_def w1_def)
  have qd: "fst ?q = ConfigDir" by (rule resolved_dir)
  have "snd ?q \<noteq> snd p" unfolding p_def by (simp add: path_defs)
  from sa(3) [OF this] have "map_of (files w1) ?q = map_of (files w) ?q"
    using qd by (cases ?q) (simp add: w1_def)
  then have r2: "readJsonFile ?q empty_object ?w2 = readJsonFile ?q empty_object w"
    using sa(4) by (simp add: readJsonFile_def w1_def split: option.splits)
  have r3: "isl (listBackups 5 ?w2) = isl (listBackups 5 w)"
    using sa(4) by (simp add: listBackups_def fs_readdir_def w1_def)
  show ?thesis
    using l r1 r2 r3 unfolding loads_def rp by (simp add: p_def)
qed


lemma backed_up_trace: "\<exists>evs. trace (backed_up w) = trace w @ evs"
proof -
  let ?a = "resolveOmoConfigPath w" and ?b = "resolveOpenCodeConfigPath w"
  have "steps (backup_event ?a ?b
              (''omo-backup-'' @ createTimestamp (now w) @ backup_ext ?a)
              (''opencode-backup-'' @ createTimestamp (now w) @ backup_ext ?b))
            (log (BackupAttempt ?a ?b) w) (backed_up w)"
    unfolding backed_up_def by (rule backupConfigsInternal_spec(1))
  then show ?thesis by (auto simp: steps_def log_fields)
qed

lemma stored_write_event:
  assumes "\<not> refused w (Mkdir ConfigDir)" "\<not> refused w (WriteFile (resolveOmoConfigPath w))"
  shows "Effect (WriteFile (resolveOmoConfigPath w))
           \<in> set (new_events w (snd (persist act s (resolveOmoConfigPath w) cfg' (backed_up w))))"
proof -
  obtain evs where "trace (backed_up w) = trace w @ evs" using backed_up_trace by blast
  with stored_after_backup(5) [OF assms, where act = act and s = s and cfg' = cfg']
  show ?thesis by (simp add: new_events_def)
qed

text \<open>
  Claim C9. For a known hook \<open>h\<close> that \<open>disabled_hooks\<close> already contains, disable-hook
  answers that the hook is already disabled (information, not an error) and leaves the
  world as it was: no backup, no write, the same list. From a state where \<open>h\<close> is not
  disabled, and where the agent-side file can be written and read back, the first call
  succeeds and writes the file once, with \<open>h\<close> appended; a second call, at any later
  time, answers already disabled and changes nothing.
\<close>

theorem disable_hook_idempotent:
  assumes l: "loads w cfg"
    and e: "effectiveOptions infer disable_hook request options = Some eff"
    and n: "hookName eff = Some h"
    and k: "h \<in> set KNOWN_HOOKS"
  shows
    "(h \<in> set (hooks_of cfg) \<longrightarrow>
        executeAction infer disable_hook request options w =
          (Inr (Report disable_hook (Already_disabled h), cfg), w)) \<and>
     (h \<notin> set (hooks_of cfg) \<and> \<not> refused w (Mkdir ConfigDir) \<and>
      \<not> refused w (WriteFile (resolveOmoConfigPath w)) \<and>
      \<not> refused w (ReadFile (resolveOmoConfigPath w)) \<longrightarrow>
        (let cfg' = cfg\<lparr>disabled_hooks := Some (hooks_of cfg @ [h])\<rparr>;
             first = executeAction infer disable_hook request options w;
             w1 = (snd first)\<lparr>now := d\<rparr>;
             second = executeAction infer disable_hook request options w1
         in fst first = Inr (Report disable_hook (Hook_disabled h), cfg') \<and>
            readJsonFile (resolveOmoConfigPath w) empty_object (snd first) = Inr cfg' \<and>
            Effect (WriteFile (resolveOmoConfigPath w)) \<in> set (new_events w (snd first)) \<and>
            second = (Inr (Report disable_hook (Already_disabled h), cfg'), w1)))"
proof -
  have ne: "h \<noteq> []" using k by (rule safe_nonempty [OF known_hooks_safe])
  let ?p = "resolveOmoConfigPath w" and ?q = "resolveOpenCodeConfigPath w"
  have already: "executeAction infer disable_hook request options v =
          (Inr (Report disable_hook (Already_disabled h), c), v)"
    if "loads v c" "h \<in> set (hooks_of c)" for v c
    using disable_hook_cases(2) [OF n ne k that(2)]
    by (simp add: executeAction_loaded [OF that(1)] e Let_def)
  have second: ?thesis if a: "h \<notin> set (hooks_of cfg)" "\<not> refused w (Mkdir ConfigDir)"
      "\<not> refused w (WriteFile ?p)" "\<not> refused w (ReadFile ?p)"
  proof -
    define cfg' where "cfg' = cfg\<lparr>disabled_hooks := Some (hooks_of cfg @ [h])\<rparr>"
    define hh where "hh = persist disable_hook (Hook_disabled h) ?p cfg' (backed_up w)"
    have first: "executeAction infer disable_hook request options w = (Inr (fst hh), snd hh)"
      using disable_hook_cases(3) [OF n ne k a(1), of ?p ?q w]
      by (simp add: executeAction_loaded [OF l] e hh_def cfg'_def backed_up_def Let_def)
    note sa = stored_after_backup [OF a(2,3), where act = disable_hook and s = "Hook_disabled h"
        and cfg' = cfg', folded hh_def]
    have f1: "fst hh = (Report disable_hook (Hook_disabled h), cfg')" by (rule sa(1))
    have js: "reparse cfg' = cfg'"
      unfolding cfg'_def by (simp add: reparse_hooks loads_reparse [OF l])
    have f2: "readJsonFile ?p empty_object (snd hh) = Inr cfg'"
      using sa(2) sa(4) a(4) js by (simp add: readJsonFile_def)
    have f3: "Effect (WriteFile ?p) \<in> set (new_events w (snd hh))"
      unfolding hh_def by (rule stored_write_event [OF a(2,3)])
    have l1: "loads ((snd hh)\<lparr>now := d\<rparr>) cfg'"
      unfolding hh_def by (rule loads_after_store [OF l a(2,3,4) js])
    have "h \<in> set (hooks_of cfg')" by (simp add: cfg'_def hooks_of_def)
    from already [OF l1 this] f1 f2 f3 a(1) show ?thesis
      by (simp add: first Let_def cfg'_def)
  qed
  show ?thesis
  proof (cases "h \<in> set (hooks_of cfg)")
    case True
    then show ?thesis using already [OF l] by simp
  next
    case False
    then show ?thesis using second by blast
  qed
qed

lemma spread_empty: "spread_agent empty_agent d = d" "spread_category empty_category c = c"
  by (simp_all add: spread_agent_def spread_category_def empty_agent_def empty_category_def
      orElse_def split: option.splits)

lemma effective_example:
  "effectiveOptions infer_nothing action request (Some opts) =
     Some (opts\<lparr>agentData := Some (agent_data opts), categoryData := Some (category_data opts)\<rparr>)"
  by (simp add: effectiveOptions_def mergeOptions_def infer_nothing_def no_options_def Let_def
      orElse_def spread_empty agent_data_def category_data_def split: option.splits)

lemma example_reparse: "reparse example_config = example_config"
  by (simp add: reparse_def example_config_def empty_object_def json_entry_def json_number_def
      example_agent_def example_category_def)

lemma example_loads: "loads example_world example_config"
  unfolding loads_def example_paths
  by (simp add: readJsonFile_def listBackups_def fs_readdir_def example_world_def quiet_def
      example_reparse)

lemma example_writable:
  "\<not> refused example_world (Mkdir ConfigDir)"
  "\<not> refused example_world (WriteFile (resolveOmoConfigPath example_world))"
  "\<not> refused example_world (ReadFile (resolveOmoConfigPath example_world))"
  "\<not> refused example_world (Mkdir ArchiveDir)"
  "\<forall>n. \<not> refused example_world (WriteFile (ArchiveDir, n))"
  by (simp_all add: example_world_def quiet_def)

lemma example_hooks: "hooks_of example_config = [''comment-checker'', ''my-hook'', ''constructor'']"
  by (simp add: hooks_of_def example_config_def)

theorem disable_hook_idempotent_witness:
  "loads example_world example_config \<and>
   ''comment-checker'' \<in> set KNOWN_HOOKS \<and> ''comment-checker'' \<in> set (hooks_of example_config) \<and>
   executeAction infer_nothing disable_hook [] (Some (hook_options ''comment-checker''))
       example_world =
     (Inr (Report disable_hook (Already_disabled ''comment-checker''), example_config),
      example_world) \<and>
   ''think-mode'' \<in> set KNOWN_HOOKS \<and> ''think-mode'' \<notin> set (hooks_of example_config) \<and>
   (let first = executeAction infer_nothing disable_hook [] (Some (hook_options ''think-mode''))
                  example_world;
        later = (snd first)\<lparr>now := at_second 9\<rparr>
    in fst first =
         Inr (Report disable_hook (Hook_disabled ''think-mode''),
              example_config\<lparr>disabled_hooks :=
                Some [''comment-checker'', ''my-hook'', ''constructor'', ''think-mode'']\<rparr>) \<and>
       executeAction infer_nothing disable_hook [] (Some (hook_options ''think-mode'')) later =
         (Inr (Report disable_hook (Already_disabled ''think-mode''),
               example_config\<lparr>disabled_hooks :=
                 Some [''comment-checker'', ''my-hook'', ''constructor'', ''think-mode'']\<rparr>),
          later))"
proof -
  have k1: "''comment-checker'' \<in> set KNOWN_HOOKS" and k2: "''think-mode'' \<in> set KNOWN_HOOKS"
    by (simp_all add: KNOWN_HOOKS_def)
  have n: "hookName (hook_options h\<lparr>agentData := Some (agent_data (hook_options h)),
             categoryData := Some (category_data (hook_options h))\<rparr>) = Some h" for h
    by (simp add: hook_options_def)
  note t1 = disable_hook_idempotent [OF example_loads effective_example n k1, of "[]" "at_second 9"]
  note t2 = disable_hook_idempotent [OF example_loads effective_example n k2, of "[]" "at_second 9"]
  have i1: "''comment-checker'' \<in> set (hooks_of example_config)"
    and i2: "''think-mode'' \<notin> set (hooks_of example_config)"
    by (simp_all add: example_hooks)
  from t1 i1 have a: "executeAction infer_nothing disable_hook []
      (Some (hook_options ''comment-checker'')) example_world =
     (Inr (Report disable_hook (Already_disabled ''comment-checker''), example_config),
      example_world)" by blast
  from t2 i2 example_writable have b:
    "let cfg' = example_config\<lparr>disabled_hooks := Some (hooks_of example_config @ [''think-mode''])\<rparr>;
         first = executeAction infer_nothing disable_hook [] (Some (hook_options ''think-mode''))
                  example_world;
         w1 = (snd first)\<lparr>now := at_second 9\<rparr>;
         second = executeAction infer_nothing disable_hook [] (Some (hook_options ''think-mode'')) w1
     in fst first = Inr (Report disable_hook (Hook_disabled ''think-mode''), cfg') \<and>
        readJsonFile (resolveOmoConfigPath example_world) empty_object (snd first) = Inr cfg' \<and>
        Effect (WriteFile (resolveOmoConfigPath example_world))
          \<in> set (new_events example_world (snd first)) \<and>
        second = (Inr (Report disable_hook (Already_disabled ''think-mode''), cfg'), w1)"
    by blast
  from b have c: "let first = executeAction infer_nothing disable_hook []
                    (Some (hook_options ''think-mode'')) example_world;
        later = (snd first)\<lparr>now := at_second 9\<rparr>
    in fst first =
         Inr (Report disable_hook (Hook_disabled ''think-mode''),
              example_config\<lparr>disabled_hooks :=
                Some [''comment-checker'', ''my-hook'', ''constructor'', ''think-mode'']\<rparr>) \<and>
       executeAction infer_nothing disable_hook [] (Some (hook_options ''think-mode'')) later =
         (Inr (Report disable_hook (Already_disabled ''think-mode''),
               example_config\<lparr>disabled_hooks :=
                 Some [''comment-checker'', ''my-hook'', ''constructor'', ''think-mode'']\<rparr>),
          later)"
    by (simp add: Let_def example_hooks)
  from example_loads k1 k2 i1 i2 a c show ?thesis by blast
qed













lemma enable_hook_removes:
  assumes l: "loads w cfg"
    and e: "effectiveOptions infer enable_hook request options = Some eff"
    and n: "hookName eff = Some h" "h \<noteq> []"
    and i: "h \<in> set (hooks_of cfg)"
    and ok: "\<not> refused w (Mkdir ConfigDir)" "\<not> refused w (WriteFile (resolveOmoConfigPath w))"
  shows "fst (executeAction infer enable_hook request options w) =
           Inr (Report enable_hook (Hook_enabled h),
                cfg\<lparr>disabled_hooks := Some (filter (\<lambda>x. x \<noteq> h) (hooks_of cfg))\<rparr>)"
    and "Effect (WriteFile (resolveOmoConfigPath w))
           \<in> set (new_events w (snd (executeAction infer enable_hook request options w)))"
proof -
  let ?p = "resolveOmoConfigPath w" and ?q = "resolveOpenCodeConfigPath w"
  define cfg' where "cfg' = cfg\<lparr>disabled_hooks := Some (filter (\<lambda>x. x \<noteq> h) (hooks_of cfg))\<rparr>"
  define hh where "hh = persist enable_hook (Hook_enabled h) ?p cfg' (backed_up w)"
  have ex: "executeAction infer enable_hook request options w = (Inr (fst hh), snd hh)"
    using enable_hook_cases(2) [OF n i, of ?p ?q w]
    by (simp add: executeAction_loaded [OF l] e hh_def cfg'_def backed_up_def Let_def)
  show "fst (executeAction infer enable_hook request options w) =
           Inr (Report enable_hook (Hook_enabled h),
                cfg\<lparr>disabled_hooks := Some (filter (\<lambda>x. x \<noteq> h) (hooks_of cfg))\<rparr>)"
    using stored_after_backup(1) [OF ok, where act = enable_hook and s = "Hook_enabled h"
        and cfg' = cfg']
    by (simp add: ex hh_def cfg'_def)
  show "Effect (WriteFile ?p)
           \<in> set (new_events w (snd (executeAction infer enable_hook request options w)))"
    using stored_write_event [OF ok, where act = enable_hook and s = "Hook_enabled h"
        and cfg' = cfg']
    by (simp add: ex hh_def)
qed

lemma known_hooks_count: "length KNOWN_HOOKS = 25"
  by (simp add: KNOWN_HOOKS_def)

text \<open>
  Claim C8, as amended. The registry has 25 names. For a name \<open>h\<close> that is not one of them:
  disable-hook rejects it with the error that lists the registry, and changes nothing (no
  backup, no write, the same \<open>disabled_hooks\<close>). enable-hook does not consult the registry:
  when \<open>h\<close> is not in \<open>disabled_hooks\<close> it answers (information, not an error) that the
  hook is not currently disabled and changes nothing; when \<open>h\<close> is in \<open>disabled_hooks\<close> and
  the file can be written, it removes \<open>h\<close> and writes the file.
\<close>

theorem unknown_hook_handling:
  assumes l: "loads w cfg"
    and u: "h \<notin> set KNOWN_HOOKS"
    and ne: "h \<noteq> []"
  shows
    "length KNOWN_HOOKS = 25 \<and>
     (\<forall>eff. effectiveOptions infer disable_hook request options = Some eff \<and>
            hookName eff = Some h \<longrightarrow>
        executeAction infer disable_hook request options w =
          (Inr (Report disable_hook (Unknown_hook h KNOWN_HOOKS), cfg), w)) \<and>
     (\<forall>eff. effectiveOptions infer enable_hook request options = Some eff \<and>
            hookName eff = Some h \<longrightarrow>
        (h \<notin> set (hooks_of cfg) \<longrightarrow>
           executeAction infer enable_hook request options w =
             (Inr (Report enable_hook (Not_disabled h), cfg), w)) \<and>
        (h \<in> set (hooks_of cfg) \<and> \<not> refused w (Mkdir ConfigDir) \<and>
         \<not> refused w (WriteFile (resolveOmoConfigPath w)) \<longrightarrow>
           fst (executeAction infer enable_hook request options w) =
             Inr (Report enable_hook (Hook_enabled h),
                  cfg\<lparr>disabled_hooks := Some (filter (\<lambda>x. x \<noteq> h) (hooks_of cfg))\<rparr>) \<and>
           Effect (WriteFile (resolveOmoConfigPath w))
             \<in> set (new_events w (snd (executeAction infer enable_hook request options w)))))"
proof -
  have d: "executeAction infer disable_hook request options w =
          (Inr (Report disable_hook (Unknown_hook h KNOWN_HOOKS), cfg), w)"
    if "effectiveOptions infer disable_hook request options = Some eff" "hookName eff = Some h"
    for eff
    using disable_hook_cases(1) [OF that(2) ne u]
    by (simp add: executeAction_loaded [OF l] that(1) Let_def)
  have e1: "executeAction infer enable_hook request options w =
             (Inr (Report enable_hook (Not_disabled h), cfg), w)"
    if "effectiveOptions infer enable_hook request options = Some eff" "hookName eff = Some h"
      "h \<notin> set (hooks_of cfg)" for eff
    using enable_hook_cases(1) [OF that(2) ne that(3)]
    by (simp add: executeAction_loaded [OF l] that(1) Let_def)
  show ?thesis
    using d e1 enable_hook_removes [OF l _ _ ne] known_hooks_count by blast
qed

theorem unknown_hook_handling_witness:
  "loads example_world example_config \<and> ''my-hook'' \<notin> set KNOWN_HOOKS \<and>
   effectiveOptions infer_nothing disable_hook [] (Some (hook_options ''my-hook'')) =
     Some (hook_options ''my-hook''
             \<lparr>agentData := Some (agent_data (hook_options ''my-hook'')),
              categoryData := Some (category_data (hook_options ''my-hook''))\<rparr>) \<and>
   executeAction infer_nothing disable_hook [] (Some (hook_options ''my-hook'')) example_world =
     (Inr (Report disable_hook (Unknown_hook ''my-hook'' KNOWN_HOOKS), example_config),
      example_world) \<and>
   ''other-hook'' \<notin> set KNOWN_HOOKS \<and> ''other-hook'' \<notin> set (hooks_of example_config) \<and>
   executeAction infer_nothing enable_hook [] (Some (hook_options ''other-hook'')) example_world =
     (Inr (Report enable_hook (Not_disabled ''other-hook''), example_config), example_world)"
proof -
  have u1: "''my-hook'' \<notin> set KNOWN_HOOKS" and u2: "''other-hook'' \<notin> set KNOWN_HOOKS"
    by (simp_all add: KNOWN_HOOKS_def)
  have n: "hookName (hook_options h\<lparr>agentData := Some (agent_data (hook_options h)),
             categoryData := Some (category_data (hook_options h))\<rparr>) = Some h" for h
    by (simp add: hook_options_def)
  have i2: "''other-hook'' \<notin> set (hooks_of example_config)" by (simp add: example_hooks)
  note t1 = unknown_hook_handling [OF example_loads u1, of infer_nothing "[]"
      "Some (hook_options ''my-hook'')"]
  note t2 = unknown_hook_handling [OF example_loads u2, of infer_nothing "[]"
      "Some (hook_options ''other-hook'')"]
  have a: "executeAction infer_nothing disable_hook [] (Some (hook_options ''my-hook''))
      example_world =
     (Inr (Report disable_hook (Unknown_hook ''my-hook'' KNOWN_HOOKS), example_config),
      example_world)"
    using t1 effective_example n by blast
  have b: "executeAction infer_nothing enable_hook [] (Some (hook_options ''other-hook''))
      example_world =
     (Inr (Report enable_hook (Not_disabled ''other-hook''), example_config), example_world)"
    using t2 effective_example n i2 by blast
  from example_loads u1 u2 i2 a b effective_example show ?thesis by blast
qed

theorem enable_unknown_hook_counterexample:
  "''my-hook'' \<notin> set KNOWN_HOOKS \<and>
   fst (executeAction infer_nothing enable_hook [] (Some (hook_options ''my-hook''))
          example_world) =
     Inr (Report enable_hook (Hook_enabled ''my-hook''),
          example_config\<lparr>disabled_hooks := Some [''comment-checker'', ''constructor'']\<rparr>) \<and>
   Effect (WriteFile (ConfigDir, ''oh-my-opencode.json''))
     \<in> set (new_events example_world
               (snd (executeAction infer_nothing enable_hook []
                       (Some (hook_options ''my-hook'')) example_world)))"
proof -
  have n: "hookName (hook_options h\<lparr>agentData := Some (agent_data (hook_options h)),
             categoryData := Some (category_data (hook_options h))\<rparr>) = Some h" for h
    by (simp add: hook_options_def)
  have i: "''my-hook'' \<in> set (hooks_of example_config)" by (simp add: example_hooks)
  note r = enable_hook_removes [OF example_loads effective_example n _ i example_writable(1,2),
      of "[]"]
  have "''my-hook'' \<noteq> []" by simp
  from r [OF this] show ?thesis
    by (simp add: example_hooks example_paths KNOWN_HOOKS_def)
qed

section \<open>Validation failures\<close>

lemma unsafe_unknown: "\<not> isSafeConfigKey h \<Longrightarrow> h \<notin> set KNOWN_HOOKS"
  using known_hooks_safe by blast

lemma safe_inherited_names:
  "filter isSafeConfigKey OBJECT_PROTOTYPE_KEYS =
     [''hasOwnProperty'', ''isPrototypeOf'', ''propertyIsEnumerable'', ''toLocaleString'',
      ''toString'', ''valueOf'']"
  by (simp add: OBJECT_PROTOTYPE_KEYS_def key_defs)

lemma entity_found_iff:
  "entity_found modify_agent name cfg \<longleftrightarrow>
     agents cfg \<noteq> None \<and> (agents_of cfg name \<noteq> None \<or> name \<in> set OBJECT_PROTOTYPE_KEYS)"
  "entity_found modify_category name cfg \<longleftrightarrow>
     categories cfg \<noteq> None \<and>
     (categories_of cfg name \<noteq> None \<or> name \<in> set OBJECT_PROTOTYPE_KEYS)"
  by (simp_all add: entity_found_def js_get_def split: option.splits)

text \<open>
  Claim C2, as amended. Let the configuration load and let the request name its entity or
  hook. For add-agent, modify-agent, add-category, modify-category and disable-hook, when
  validation fails, \<open>executeAction\<close> returns one of its error reports and the world is the
  one it started in: no backup, no write, the same files, and the object in memory is the
  one that was read. Validation fails when the key is not safe; when the temperature is
  present and compares below 0 or above 1 (\<^verbatim>\<open>NaN\<close> does neither); when an add has no
  model; when disable-hook is given a name the registry does not know, as is every name
  that is not a safe key; and when a modify finds nothing under the name: the object
  \<open>agents\<close> (or \<open>categories\<close>) is absent, or it has no entry of that name and the name is
  none of the members of \<^verbatim>\<open>Object.prototype\<close>, of which \<^verbatim>\<open>hasOwnProperty\<close>,
  \<^verbatim>\<open>isPrototypeOf\<close>, \<^verbatim>\<open>propertyIsEnumerable\<close>, \<^verbatim>\<open>toLocaleString\<close>, \<^verbatim>\<open>toString\<close> and
  \<^verbatim>\<open>valueOf\<close> are safe keys (\<open>safe_inherited_names\<close>). What a modify does with one of these
  six names is not part of the statement. enable-hook validates no key.
\<close>

theorem validation_failure_changes_nothing:
  assumes l: "loads w cfg"
    and e: "effectiveOptions infer action request options = Some eff"
    and v: "validation_fails action eff cfg"
  shows "\<exists>msg. executeAction infer action request options w = (Inr (Report action msg, cfg), w) \<and>
           is_error (Report action msg) \<and>
           msg \<in> {Invalid_name (the (entity_name action eff)), Missing_model, Temperature_range,
                  Not_found (the (entity_name action eff)),
                  Unknown_hook (the (entity_name action eff)) KNOWN_HOOKS}"
proof -
  from v obtain name where nm: "entity_name action eff = Some name" "name \<noteq> []"
    by (auto simp: validation_fails_def split: option.splits)
  let ?p = "resolveOmoConfigPath w" and ?q = "resolveOpenCodeConfigPath w"
  note ex = executeAction_loaded [OF l, of infer action request options, unfolded Let_def e]
  from v nm consider
      (aa) "action = add_agent" | (ma) "action = modify_agent"
    | (ac) "action = add_category" | (mc) "action = modify_category"
    | (dh) "action = disable_hook"
    by (auto simp: validation_fails_def split: if_splits)
  then show ?thesis
  proof cases
    case aa
    with nm have n: "agentName eff = Some name" by (simp add: entity_name_def)
    from v nm aa have "\<not> isSafeConfigKey name \<or> \<not> truthy (model (agent_data eff)) \<or>
        out_of_range (temperature (agent_data eff))"
      by (simp add: validation_fails_def entity_model_def entity_temperature_def)
    then show ?thesis
      using add_agent_cases(1,2,3) [OF n nm(2), where p = ?p and q = ?q and cfg = cfg and w = w] ex aa nm
      by (cases "isSafeConfigKey name"; cases "truthy (model (agent_data eff))") auto
  next
    case ac
    with nm have n: "categoryName eff = Some name" by (simp add: entity_name_def)
    from v nm ac have "\<not> isSafeConfigKey name \<or> \<not> truthy (model (category_data eff)) \<or>
        out_of_range (temperature (category_data eff))"
      by (simp add: validation_fails_def entity_model_def entity_temperature_def)
    then show ?thesis
      using add_category_cases(1,2,3) [OF n nm(2), where p = ?p and q = ?q and cfg = cfg and w = w] ex ac nm
      by (cases "isSafeConfigKey name"; cases "truthy (model (category_data eff))") auto
  next
    case ma
    with nm have n: "agentName eff = Some name" by (simp add: entity_name_def)
    from v nm ma have "\<not> isSafeConfigKey name \<or> out_of_range (temperature (agent_data eff)) \<or>
        agents cfg = None \<or> js_get (agents_of cfg) name = Undefined"
      by (auto simp: validation_fails_def entity_found_def entity_temperature_def)
    then show ?thesis
      using modify_agent_cases(1,2,3) [OF n nm(2), where p = ?p and q = ?q and cfg = cfg and w = w] ex ma nm
      by (cases "isSafeConfigKey name"; cases "out_of_range (temperature (agent_data eff))") auto
  next
    case mc
    with nm have n: "categoryName eff = Some name" by (simp add: entity_name_def)
    from v nm mc have "\<not> isSafeConfigKey name \<or> out_of_range (temperature (category_data eff)) \<or>
        categories cfg = None \<or> js_get (categories_of cfg) name = Undefined"
      by (auto simp: validation_fails_def entity_found_def entity_temperature_def)
    then show ?thesis
      using modify_category_cases(1,2,3) [OF n nm(2), where p = ?p and q = ?q and cfg = cfg and w = w] ex mc nm
      by (cases "isSafeConfigKey name"; cases "out_of_range (temperature (category_data eff))") auto
  next
    case dh
    with nm have n: "hookName eff = Some name" by (simp add: entity_name_def)
    from v nm dh have "name \<notin> set KNOWN_HOOKS"
      using unsafe_unknown by (auto simp: validation_fails_def)
    then show ?thesis
      using disable_hook_cases(1) [OF n nm(2), where p = ?p and q = ?q and cfg = cfg and w = w] ex dh nm by auto
  qed
qed


theorem validation_failure_changes_nothing_witness:
  "loads example_world example_config \<and>
   validation_fails add_agent
     (agent_options ''helper'' (Some ''opencode/gpt-5.2'') (Some (Finite (3 / 2)))
        \<lparr>agentData :=
           Some (agent_data (agent_options ''helper'' (Some ''opencode/gpt-5.2'') (Some (Finite (3 / 2))))),
         categoryData :=
           Some (category_data (agent_options ''helper'' (Some ''opencode/gpt-5.2'') (Some (Finite (3 / 2)))))\<rparr>)
     example_config \<and>
   (\<exists>msg. executeAction infer_nothing add_agent []
            (Some (agent_options ''helper'' (Some ''opencode/gpt-5.2'') (Some (Finite (3 / 2)))))
            example_world =
          (Inr (Report add_agent msg, example_config), example_world) \<and>
          is_error (Report add_agent msg))"
proof -
  let ?o = "agent_options ''helper'' (Some ''opencode/gpt-5.2'') (Some (Finite (3 / 2)))"
  let ?eff = "?o\<lparr>agentData := Some (agent_data ?o), categoryData := Some (category_data ?o)\<rparr>"
  have v: "validation_fails add_agent ?eff example_config"
    by (simp add: validation_fails_def entity_name_def entity_model_def entity_temperature_def
        agent_data_def agent_options_def no_options_def empty_agent_def out_of_range_def
        less_number_def ToNumber_def)
  from validation_failure_changes_nothing [OF example_loads effective_example v, of "[]"]
  show ?thesis using example_loads v by blast
qed

theorem enable_unsafe_hook_counterexample:
  "\<not> isSafeConfigKey ''constructor'' \<and>
   fst (executeAction infer_nothing enable_hook [] (Some (hook_options ''constructor''))
          example_world) =
     Inr (Report enable_hook (Hook_enabled ''constructor''),
          example_config\<lparr>disabled_hooks := Some [''comment-checker'', ''my-hook'']\<rparr>) \<and>
   \<not> is_error (Report enable_hook (Hook_enabled ''constructor'')) \<and>
   Effect (WriteFile (ConfigDir, ''oh-my-opencode.json''))
     \<in> set (new_events example_world
               (snd (executeAction infer_nothing enable_hook []
                       (Some (hook_options ''constructor'')) example_world)))"
proof -
  have n: "hookName (hook_options h\<lparr>agentData := Some (agent_data (hook_options h)),
             categoryData := Some (category_data (hook_options h))\<rparr>) = Some h" for h
    by (simp add: hook_options_def)
  have i: "''constructor'' \<in> set (hooks_of example_config)" by (simp add: example_hooks)
  have u: "\<not> isSafeConfigKey ''constructor''" by (simp add: key_defs)
  note r = enable_hook_removes [OF example_loads effective_example n _ i example_writable(1,2),
      of "[]"]
  have "''constructor'' \<noteq> []" by simp
  from r [OF this] u show ?thesis
    by (simp add: example_hooks example_paths)
qed

section \<open>Temperature range\<close>

lemma out_of_range_cases:
  "out_of_range (Some (Finite t)) \<longleftrightarrow> t < 0 \<or> 1 < t"
  "out_of_range (Some Infinity)" "out_of_range (Some Minus_Infinity)"
  "\<not> out_of_range (Some NaN)" "\<not> out_of_range (Some Null)" "\<not> out_of_range None"
  by (simp_all add: out_of_range_def less_number_def ToNumber_def)

lemma stored_run:
  fixes w act s cfg'
  defines "p \<equiv> resolveOmoConfigPath w"
  defines "h \<equiv> persist act s p cfg' (backed_up w)"
  assumes ok: "\<not> refused w (Mkdir ConfigDir)" "\<not> refused w (WriteFile p)"
    and rd: "\<not> refused w (ReadFile p)"
    and x: "run = (Inr (fst h), snd h)"
  shows "fst run = Inr (Report act s, cfg')"
    and "map_of (files (snd run)) p = Some (Json cfg')"
    and "readJsonFile p empty_object (snd run) = Inr (reparse cfg')"
proof -
  note sa = stored_after_backup [OF ok(1) ok(2) [unfolded p_def], where act = act and s = s
      and cfg' = cfg', folded p_def, folded h_def]
  show "fst run = Inr (Report act s, cfg')" using sa(1) by (simp add: x)
  show "map_of (files (snd run)) p = Some (Json cfg')" using sa(2) by (simp add: x)
  show "readJsonFile p empty_object (snd run) = Inr (reparse cfg')"
    using sa(2) sa(4) rd by (simp add: x readJsonFile_def)
qed

lemma add_agent_run:
  assumes l: "loads w cfg"
    and e: "effectiveOptions infer add_agent request options = Some eff"
    and n: "agentName eff = Some name" "isSafeConfigKey name"
      "truthy (model (agent_data eff))" "\<not> out_of_range (temperature (agent_data eff))"
  shows "executeAction infer add_agent request options w =
     (Inr (fst (persist add_agent
                  (Stored_agent name (redactForDisplay (new_agent (agent_data eff))))
                  (resolveOmoConfigPath w)
                  (cfg\<lparr>agents := Some ((agents_of cfg)(name \<mapsto> new_agent (agent_data eff)))\<rparr>)
                  (backed_up w))),
      snd (persist add_agent
                  (Stored_agent name (redactForDisplay (new_agent (agent_data eff))))
                  (resolveOmoConfigPath w)
                  (cfg\<lparr>agents := Some ((agents_of cfg)(name \<mapsto> new_agent (agent_data eff)))\<rparr>)
                  (backed_up w)))"
  using add_agent_cases(4) [OF n(1) safe_nonempty [OF n(2)] n(2,3,4),
      where p = "resolveOmoConfigPath w" and q = "resolveOpenCodeConfigPath w" and cfg = cfg
        and w = w]
  by (simp add: executeAction_loaded [OF l] e Let_def backed_up_def)

lemma modify_agent_run:
  assumes l: "loads w cfg"
    and e: "effectiveOptions infer modify_agent request options = Some eff"
    and n: "agentName eff = Some name" "isSafeConfigKey name"
      "\<not> out_of_range (temperature (agent_data eff))"
      "agents cfg \<noteq> None" "js_get (agents_of cfg) name = Own agent"
  shows "executeAction infer modify_agent request options w =
     (Inr (fst (persist modify_agent
                  (Stored_agent name (redactForDisplay (assign_agent (agent_data eff) agent)))
                  (resolveOmoConfigPath w)
                  (cfg\<lparr>agents :=
                     Some ((agents_of cfg)(name \<mapsto> assign_agent (agent_data eff) agent))\<rparr>)
                  (backed_up w))),
      snd (persist modify_agent
                  (Stored_agent name (redactForDisplay (assign_agent (agent_data eff) agent)))
                  (resolveOmoConfigPath w)
                  (cfg\<lparr>agents :=
                     Some ((agents_of cfg)(name \<mapsto> assign_agent (agent_data eff) agent))\<rparr>)
                  (backed_up w)))"
  using modify_agent_cases(4) [OF n(1) safe_nonempty [OF n(2)] n(2,3,4,5),
      where p = "resolveOmoConfigPath w" and q = "resolveOpenCodeConfigPath w" and w = w]
  by (simp add: executeAction_loaded [OF l] e Let_def backed_up_def)

lemma found_cases:
  "js_get m k \<noteq> Undefined \<Longrightarrow> (\<exists>v. js_get m k = Own v) \<or> js_get m k = Inherited"
  by (cases "js_get m k") simp_all

lemma temperature_accepted_unless_out_of_range:
  assumes l: "loads w cfg"
    and e: "effectiveOptions infer action request options = Some eff"
    and a: "action \<in> {add_agent, modify_agent, add_category, modify_category}"
    and nm: "entity_name action eff = Some name" "isSafeConfigKey name"
    and md: "action \<in> {add_agent, add_category} \<longrightarrow> truthy (entity_model action eff)"
    and fd: "entity_found action name cfg"
    and t: "entity_temperature action eff = Some v"
    and ok: "\<not> refused w (Mkdir ConfigDir)" "\<not> refused w (WriteFile (resolveOmoConfigPath w))"
  shows "\<exists>rep mem w'. executeAction infer action request options w = (Inr (rep, mem), w') \<and>
           (is_success rep \<longleftrightarrow> \<not> out_of_range (Some v)) \<and>
           (out_of_range (Some v) \<longrightarrow> rep = Report action Temperature_range \<and> mem = cfg \<and> w' = w)"
proof -
  let ?p = "resolveOmoConfigPath w" and ?q = "resolveOpenCodeConfigPath w"
  have ne: "name \<noteq> []" by (rule safe_nonempty [OF nm(2)])
  note ex = executeAction_loaded [OF l, of infer action request options, unfolded Let_def e]
  have stored: "\<exists>rep mem w'. (Inr (fst h), snd h) = (Inr (rep, mem), w') \<and> is_success rep"
    if "h = persist action s ?p c (snd (backupConfigsInternal ?p ?q w))"
      "is_success (Report action s)" for h s c
    using stored_after_backup(1) [OF ok, where act = action and s = s and cfg' = c] that
    by (simp add: backed_up_def)
  from a consider (aa) "action = add_agent" | (ma) "action = modify_agent"
    | (ac) "action = add_category" | (mc) "action = modify_category" by auto
  then show ?thesis
  proof cases
    case aa
    with nm have n: "agentName eff = Some name" by (simp add: entity_name_def)
    from aa md have m: "truthy (model (agent_data eff))" by (simp add: entity_model_def)
    from aa t have tt: "temperature (agent_data eff) = Some v" by (simp add: entity_temperature_def)
    show ?thesis
    proof (cases "\<not> out_of_range (Some v)")
      case True
      then have "\<not> out_of_range (temperature (agent_data eff))" by (simp add: tt)
      from add_agent_cases(4) [OF n ne nm(2) m this, where p = ?p and q = ?q and cfg = cfg and w = w]
      show ?thesis using stored True ex aa by auto
    next
      case False
      then have "out_of_range (temperature (agent_data eff))" by (simp add: tt)
      from add_agent_cases(3) [OF n ne nm(2) m this, where p = ?p and q = ?q and cfg = cfg and w = w]
      show ?thesis using False ex aa by simp
    qed
  next
    case ac
    with nm have n: "categoryName eff = Some name" by (simp add: entity_name_def)
    from ac md have m: "truthy (model (category_data eff))" by (simp add: entity_model_def)
    from ac t have tt: "temperature (category_data eff) = Some v"
      by (simp add: entity_temperature_def)
    show ?thesis
    proof (cases "\<not> out_of_range (Some v)")
      case True
      then have "\<not> out_of_range (temperature (category_data eff))"
        by (simp add: tt)
      from add_category_cases(4) [OF n ne nm(2) m this, where p = ?p and q = ?q and cfg = cfg and w = w]
      show ?thesis using stored True ex ac by auto
    next
      case False
      then have "out_of_range (temperature (category_data eff))"
        by (simp add: tt)
      from add_category_cases(3) [OF n ne nm(2) m this, where p = ?p and q = ?q and cfg = cfg and w = w]
      show ?thesis using False ex ac by simp
    qed
  next
    case ma
    with nm have n: "agentName eff = Some name" by (simp add: entity_name_def)
    from ma t have tt: "temperature (agent_data eff) = Some v" by (simp add: entity_temperature_def)
    from ma fd have f: "agents cfg \<noteq> None" "js_get (agents_of cfg) name \<noteq> Undefined"
      by (simp_all add: entity_found_def)
    show ?thesis
    proof (cases "\<not> out_of_range (Some v)")
      case True
      then have r: "\<not> out_of_range (temperature (agent_data eff))"
        by (simp add: tt)
      from found_cases [OF f(2)] show ?thesis
      proof
        assume "\<exists>v. js_get (agents_of cfg) name = Own v"
        then obtain v where "js_get (agents_of cfg) name = Own v" by blast
        from modify_agent_cases(4) [OF n ne nm(2) r f(1) this, where p = ?p and q = ?q and w = w]
        show ?thesis using stored True ex ma by auto
      next
        assume "js_get (agents_of cfg) name = Inherited"
        from modify_agent_cases(5) [OF n ne nm(2) r f(1) this, where p = ?p and q = ?q and w = w]
        show ?thesis using stored True ex ma by auto
      qed
    next
      case False
      then have "out_of_range (temperature (agent_data eff))" by (simp add: tt)
      from modify_agent_cases(2) [OF n ne nm(2) this, where p = ?p and q = ?q and cfg = cfg and w = w]
      show ?thesis using False ex ma by simp
    qed
  next
    case mc
    with nm have n: "categoryName eff = Some name" by (simp add: entity_name_def)
    from mc t have tt: "temperature (category_data eff) = Some v"
      by (simp add: entity_temperature_def)
    from mc fd have f: "categories cfg \<noteq> None" "js_get (categories_of cfg) name \<noteq> Undefined"
      by (simp_all add: entity_found_def)
    show ?thesis
    proof (cases "\<not> out_of_range (Some v)")
      case True
      then have r: "\<not> out_of_range (temperature (category_data eff))"
        by (simp add: tt)
      from found_cases [OF f(2)] show ?thesis
      proof
        assume "\<exists>v. js_get (categories_of cfg) name = Own v"
        then obtain v where "js_get (categories_of cfg) name = Own v" by blast
        from modify_category_cases(4) [OF n ne nm(2) r f(1) this,
            where p = ?p and q = ?q and w = w]
        show ?thesis using stored True ex mc by auto
      next
        assume "js_get (categories_of cfg) name = Inherited"
        from modify_category_cases(5) [OF n ne nm(2) r f(1) this,
            where p = ?p and q = ?q and w = w]
        show ?thesis using stored True ex mc by auto
      qed
    next
      case False
      then have "out_of_range (temperature (category_data eff))"
        by (simp add: tt)
      from modify_category_cases(2) [OF n ne nm(2) this,
          where p = ?p and q = ?q and cfg = cfg and w = w]
      show ?thesis using False ex mc by simp
    qed
  qed
qed

text \<open>
  Claim C6. A temperature is to be accepted exactly when it lies between 0 and 1. The four
  cases test \<^verbatim>\<open>t < 0 || t > 1\<close>, which is false for \<^verbatim>\<open>NaN\<close>: add-agent and modify-agent
  given the temperature \<^verbatim>\<open>NaN\<close> report success, keep it in the entry in memory and write the
  configuration file, from which it reads back as \<^verbatim>\<open>null\<close>.
\<close>

theorem nan_temperature_accepted:
  "fst (executeAction infer_nothing add_agent []
          (Some (agent_options ''helper'' (Some ''opencode/gpt-5.2'') (Some NaN)))
          example_world) =
     Inr (Report add_agent
            (Stored_agent ''helper''
               (empty_agent\<lparr>model := Some ''opencode/gpt-5.2'', temperature := Some NaN\<rparr>)),
          example_config
            \<lparr>agents := Some [''debugger'' \<mapsto> example_agent,
                ''helper'' \<mapsto>
                  empty_agent\<lparr>model := Some ''opencode/gpt-5.2'', temperature := Some NaN\<rparr>]\<rparr>) \<and>
   is_success (Report add_agent
            (Stored_agent ''helper''
               (empty_agent\<lparr>model := Some ''opencode/gpt-5.2'', temperature := Some NaN\<rparr>))) \<and>
   readJsonFile (ConfigDir, ''oh-my-opencode.json'') empty_object
     (snd (executeAction infer_nothing add_agent []
             (Some (agent_options ''helper'' (Some ''opencode/gpt-5.2'') (Some NaN)))
             example_world)) =
     Inr (example_config
            \<lparr>agents := Some [''debugger'' \<mapsto> example_agent,
                ''helper'' \<mapsto>
                  empty_agent\<lparr>model := Some ''opencode/gpt-5.2'', temperature := Some Null\<rparr>]\<rparr>) \<and>
   fst (executeAction infer_nothing modify_agent []
          (Some (agent_options ''debugger'' None (Some NaN))) example_world) =
     Inr (Report modify_agent
            (Stored_agent ''debugger''
               (example_agent\<lparr>temperature := Some NaN,
                  prompt_append := Some ''<redacted: 9 chars>''\<rparr>)),
          example_config
            \<lparr>agents := Some [''debugger'' \<mapsto> example_agent\<lparr>temperature := Some NaN\<rparr>]\<rparr>) \<and>
   readJsonFile (ConfigDir, ''oh-my-opencode.json'') empty_object
     (snd (executeAction infer_nothing modify_agent []
             (Some (agent_options ''debugger'' None (Some NaN))) example_world)) =
     Inr (example_config
            \<lparr>agents := Some [''debugger'' \<mapsto> example_agent\<lparr>temperature := Some Null\<rparr>]\<rparr>)"
proof -
  let ?m = "Some ''opencode/gpt-5.2''"
  let ?o = "agent_options ''helper'' ?m (Some NaN)"
  let ?eff = "?o\<lparr>agentData := Some (agent_data ?o), categoryData := Some (category_data ?o)\<rparr>"
  let ?e = "empty_agent\<lparr>model := ?m, temperature := Some NaN\<rparr>"
  have k: "isSafeConfigKey ''helper''" "isSafeConfigKey ''debugger''" by (simp_all add: key_defs)
  have rd: "\<not> refused example_world (ReadFile (resolveOmoConfigPath example_world))"
    by (rule example_writable(3))
  have d: "agent_data ?eff = ?e" "agentName ?eff = Some ''helper''"
    by (simp_all add: agent_data_def agent_options_def no_options_def)
  have na: "new_agent ?e = ?e" "redactForDisplay ?e = ?e"
    by (simp_all add: new_agent_def redactForDisplay_def empty_agent_def)
  have ag: "agents_of example_config = [''debugger'' \<mapsto> example_agent]"
    "agents example_config \<noteq> None"
    by (simp_all add: agents_of_def example_config_def)
  have v: "truthy (model ?e)" "\<not> out_of_range (temperature ?e)"
    by (simp_all add: truthy_def out_of_range_cases)
  note r = add_agent_run [where w = example_world and cfg = example_config
      and infer = infer_nothing and request = "[]" and options = "Some ?o" and eff = ?eff
      and name = "''helper''", OF example_loads effective_example, unfolded d,
      OF refl k(1) v, unfolded na ag]
  note s = stored_run [OF example_writable(1,2) rd r]
  have rp: "reparse (example_config\<lparr>agents := Some [''debugger'' \<mapsto> example_agent,
                ''helper'' \<mapsto> ?e]\<rparr>) =
      example_config\<lparr>agents := Some [''debugger'' \<mapsto> example_agent,
                ''helper'' \<mapsto> empty_agent\<lparr>model := ?m, temperature := Some Null\<rparr>]\<rparr>"
    by (simp add: reparse_def example_config_def empty_object_def json_entry_def
        json_number_def example_agent_def example_category_def empty_agent_def)
  let ?o2 = "agent_options ''debugger'' None (Some NaN)"
  let ?eff2 = "?o2\<lparr>agentData := Some (agent_data ?o2), categoryData := Some (category_data ?o2)\<rparr>"
  let ?d2 = "empty_agent\<lparr>temperature := Some NaN\<rparr>"
  have d2: "agent_data ?eff2 = ?d2" "agentName ?eff2 = Some ''debugger''"
    by (simp_all add: agent_data_def agent_options_def no_options_def empty_agent_def)
  have own: "js_get [''debugger'' \<mapsto> example_agent] ''debugger'' = Own example_agent"
    by (simp add: js_get_def)
  have as: "assign_agent ?d2 example_agent = example_agent\<lparr>temperature := Some NaN\<rparr>"
    "redactForDisplay (example_agent\<lparr>temperature := Some NaN\<rparr>) =
       example_agent\<lparr>temperature := Some NaN, prompt_append := Some ''<redacted: 9 chars>''\<rparr>"
    by (simp_all add: assign_agent_def orElse_def empty_agent_def example_agent_def
        redactForDisplay_def digit_def)
  have v2: "\<not> out_of_range (temperature ?d2)" by (simp add: out_of_range_cases)
  note r2 = modify_agent_run [where w = example_world and cfg = example_config
      and infer = infer_nothing and request = "[]" and options = "Some ?o2" and eff = ?eff2
      and name = "''debugger''" and agent = example_agent,
      OF example_loads effective_example, unfolded d2 ag, OF refl k(2) v2 ag(2) own,
      unfolded as]
  note s2 = stored_run [OF example_writable(1,2) rd r2]
  have rp2: "reparse (example_config
        \<lparr>agents := Some [''debugger'' \<mapsto> example_agent\<lparr>temperature := Some NaN\<rparr>]\<rparr>) =
      example_config\<lparr>agents := Some [''debugger'' \<mapsto> example_agent\<lparr>temperature := Some Null\<rparr>]\<rparr>"
    by (simp add: reparse_def example_config_def empty_object_def json_entry_def
        json_number_def example_agent_def example_category_def)
  have u: "[''debugger'' \<mapsto> example_agent, ''debugger'' \<mapsto> x] = [''debugger'' \<mapsto> x]" for x
    by simp
  show ?thesis
    using s(1,3) s2(1,3) unfolding example_paths rp rp2 u by simp
qed

section \<open>Adding under an existing name\<close>



section \<open>Safe keys\<close>

lemma persist_mem: "snd (fst (persist act s p cfg w)) = cfg"
  by (simp add: persist_def split: prod.splits sum.splits)

lemma handlers_store:
  fixes p q w eff cfg k
  defines "ok \<equiv> (\<lambda>h :: handled.
      (agents_of (snd (fst h)) k \<noteq> None \<longrightarrow> agents_of cfg k \<noteq> None \<or> isSafeConfigKey k) \<and>
      (categories_of (snd (fst h)) k \<noteq> None \<longrightarrow>
         categories_of cfg k \<noteq> None \<or> isSafeConfigKey k) \<and>
      (k \<in> set (hooks_of (snd (fst h))) \<longrightarrow> k \<in> set (hooks_of cfg) \<or> isSafeConfigKey k) \<and>
      (snd h = w \<or>
       snd h = snd (writeJsonFile p (snd (fst h)) (snd (backupConfigsInternal p q w)))))"
  shows "ok (case_add_agent eff p q cfg w)"
    and "ok (case_modify_agent eff p q cfg w)"
    and "ok (case_add_category eff p q cfg w)"
    and "ok (case_modify_category eff p q cfg w)"
    and "ok (case_disable_hook eff p q cfg w)"
    and "ok (case_enable_hook eff p q cfg w)"
proof -
  note [simp] = persist_mem persist_world agents_of_def categories_of_def hooks_of_def Let_def
  show "ok (case_add_agent eff p q cfg w)"
    unfolding ok_def case_add_agent_def by (auto split: option.splits)
  show "ok (case_modify_agent eff p q cfg w)"
    unfolding ok_def case_modify_agent_def by (auto split: option.splits property.splits)
  show "ok (case_add_category eff p q cfg w)"
    unfolding ok_def case_add_category_def by (auto split: option.splits)
  show "ok (case_modify_category eff p q cfg w)"
    unfolding ok_def case_modify_category_def by (auto split: option.splits property.splits)
  show "ok (case_disable_hook eff p q cfg w)"
    unfolding ok_def case_disable_hook_def
    by (auto simp: known_hooks_safe split: option.splits)
  show "ok (case_enable_hook eff p q cfg w)"
    unfolding ok_def case_enable_hook_def by (auto split: option.splits)
qed


lemma other_mem:
  "snd (fst (case_backup_configs p q cfg w)) = cfg"
  "snd (fst (case_restore_backup eff p q cfg bs w)) = cfg"
  "case_compare_backup eff cfg bs w = (Inr (rep, mem), w') \<Longrightarrow> mem = cfg"
  by (auto simp: case_backup_configs_def case_restore_backup_def case_compare_backup_def Let_def
      split: prod.splits backup_result.splits option.splits sum.splits if_splits)

lemma case_backup_configs_world:
  "snd (case_backup_configs p q cfg w) = snd (backupConfigsInternal p q w)"
  by (simp add: case_backup_configs_def split: prod.splits backup_result.splits)

lemma config_file_after:
  assumes "fst p = ConfigDir"
  shows "map_of (files (snd (writeJsonFile p d (backed_up w)))) (ConfigDir, n) =
           map_of (files w) (ConfigDir, n) \<or>
         map_of (files (snd (writeJsonFile p d (backed_up w)))) (ConfigDir, n) = Some (Json d)"
proof (cases "refused (backed_up w) (Mkdir (fst p)) \<or> refused (backed_up w) (WriteFile p)")
  case True
  from writeJsonFile_refused(2) [OF True] show ?thesis by (simp add: backed_up_frame)
next
  case False
  then have ok: "\<not> refused (backed_up w) (Mkdir (fst p))" "\<not> refused (backed_up w) (WriteFile p)"
    by simp_all
  show ?thesis
  proof (cases "(ConfigDir, n) = p")
    case True
    with writeJsonFile_ok(2) [OF ok, of d] show ?thesis by simp
  next
    case False
    from writeJsonFile_ok(3) [OF ok False, of d] show ?thesis by (simp add: backed_up_frame)
  qed
qed

lemma executeAction_store:
  assumes l: "loads w cfg"
    and x: "executeAction infer action request options w = (Inr (rep, mem), w')"
  shows "agents_of mem k \<noteq> None \<longrightarrow> agents_of cfg k \<noteq> None \<or> isSafeConfigKey k"
    and "categories_of mem k \<noteq> None \<longrightarrow> categories_of cfg k \<noteq> None \<or> isSafeConfigKey k"
    and "k \<in> set (hooks_of mem) \<longrightarrow> k \<in> set (hooks_of cfg) \<or> isSafeConfigKey k"
    and "action \<noteq> restore_backup \<longrightarrow>
           map_of (files w') (ConfigDir, n) = map_of (files w) (ConfigDir, n) \<or>
           map_of (files w') (ConfigDir, n) = Some (Json mem)"
proof -
  let ?p = "resolveOmoConfigPath w" and ?q = "resolveOpenCodeConfigPath w"
  let ?eff = "effectiveOptions infer action request options"
  let ?goal = "(agents_of mem k \<noteq> None \<longrightarrow> agents_of cfg k \<noteq> None \<or> isSafeConfigKey k) \<and>
    (categories_of mem k \<noteq> None \<longrightarrow> categories_of cfg k \<noteq> None \<or> isSafeConfigKey k) \<and>
    (k \<in> set (hooks_of mem) \<longrightarrow> k \<in> set (hooks_of cfg) \<or> isSafeConfigKey k) \<and>
    (action \<noteq> restore_backup \<longrightarrow>
           map_of (files w') (ConfigDir, n) = map_of (files w) (ConfigDir, n) \<or>
           map_of (files w') (ConfigDir, n) = Some (Json mem))"
  note ex = x [unfolded executeAction_loaded [OF l] Let_def]
  have same: ?goal if "mem = cfg" "w' = w \<or> w' = backed_up w"
    using that by (auto simp: backed_up_frame)
  have six: ?goal
    if h: "(Inr (fst h), snd h) = (Inr (rep, mem), w')"
      and ok: "(agents_of (snd (fst h)) k \<noteq> None \<longrightarrow>
                  agents_of cfg k \<noteq> None \<or> isSafeConfigKey k) \<and>
      (categories_of (snd (fst h)) k \<noteq> None \<longrightarrow>
         categories_of cfg k \<noteq> None \<or> isSafeConfigKey k) \<and>
      (k \<in> set (hooks_of (snd (fst h))) \<longrightarrow> k \<in> set (hooks_of cfg) \<or> isSafeConfigKey k) \<and>
      (snd h = w \<or>
       snd h = snd (writeJsonFile ?p (snd (fst h)) (snd (backupConfigsInternal ?p ?q w))))"
    for h :: handled
  proof -
    from h have m: "snd (fst h) = mem" and s: "snd h = w'" by (simp_all add: prod_eq_iff)
    from ok have "w' = w \<or> w' = snd (writeJsonFile ?p mem (backed_up w))"
      unfolding m s backed_up_def by blast
    then have "map_of (files w') (ConfigDir, n) = map_of (files w) (ConfigDir, n) \<or>
           map_of (files w') (ConfigDir, n) = Some (Json mem)"
      using config_file_after [OF resolved_dir(1), where d = mem and w = w and n = n] by auto
    with ok show ?thesis unfolding m by blast
  qed
  have ?goal
  proof (cases action)
    case backup_configs
    with ex other_mem(1) [where p = ?p and q = ?q and cfg = cfg and w = w]
    show ?thesis by (intro same) (auto simp: prod_eq_iff case_backup_configs_world backed_up_def)
  next
    case compare_backup
    with ex other_mem(3) [where eff = ?eff and cfg = cfg and bs = "projr (listBackups 5 w)" and w = w and rep = rep
        and mem = mem and w' = w']
      case_compare_backup_world [where eff = ?eff and cfg = cfg and bs = "projr (listBackups 5 w)" and w = w]
    show ?thesis by (intro same) (auto simp: prod_eq_iff)
  next
    case restore_backup
    with ex other_mem(2) [where eff = ?eff and p = ?p and q = ?q and cfg = cfg
        and bs = "projr (listBackups 5 w)" and w = w]
    show ?thesis by (auto simp: prod_eq_iff)
  next
    case add_agent
    with ex show ?thesis by (intro six [OF _ handlers_store(1)]) simp
  next
    case modify_agent
    with ex show ?thesis by (intro six [OF _ handlers_store(2)]) simp
  next
    case add_category
    with ex show ?thesis by (intro six [OF _ handlers_store(3)]) simp
  next
    case modify_category
    with ex show ?thesis by (intro six [OF _ handlers_store(4)]) simp
  next
    case disable_hook
    with ex show ?thesis by (intro six [OF _ handlers_store(5)]) simp
  next
    case enable_hook
    with ex show ?thesis by (intro six [OF _ handlers_store(6)]) simp
  qed (use ex in \<open>auto intro!: same\<close>)
  then show "agents_of mem k \<noteq> None \<longrightarrow> agents_of cfg k \<noteq> None \<or> isSafeConfigKey k"
    and "categories_of mem k \<noteq> None \<longrightarrow> categories_of cfg k \<noteq> None \<or> isSafeConfigKey k"
    and "k \<in> set (hooks_of mem) \<longrightarrow> k \<in> set (hooks_of cfg) \<or> isSafeConfigKey k"
    and "action \<noteq> restore_backup \<longrightarrow>
           map_of (files w') (ConfigDir, n) = map_of (files w) (ConfigDir, n) \<or>
           map_of (files w') (ConfigDir, n) = Some (Json mem)"
    by blast+
qed


lemma usage_cases:
  "agentName eff = Some [] \<Longrightarrow> case_add_agent (Some eff) p q cfg w = ((Report add_agent Usage, cfg), w)"
  "agentName eff = Some [] \<Longrightarrow>
     case_modify_agent (Some eff) p q cfg w = ((Report modify_agent Usage, cfg), w)"
  "categoryName eff = Some [] \<Longrightarrow>
     case_add_category (Some eff) p q cfg w = ((Report add_category Usage, cfg), w)"
  "categoryName eff = Some [] \<Longrightarrow>
     case_modify_category (Some eff) p q cfg w = ((Report modify_category Usage, cfg), w)"
  "hookName eff = Some [] \<Longrightarrow>
     case_disable_hook (Some eff) p q cfg w = ((Report disable_hook Usage, cfg), w)"
  by (simp_all add: case_add_agent_def case_modify_agent_def case_add_category_def
      case_modify_category_def case_disable_hook_def truthy_def)

lemma unsafe_rejected:
  assumes l: "loads w cfg"
    and e: "effectiveOptions infer action request options = Some eff"
    and a: "action \<in> {add_agent, modify_agent, add_category, modify_category, disable_hook}"
    and n: "entity_name action eff = Some k"
    and u: "\<not> isSafeConfigKey k"
  shows "executeAction infer action request options w =
           (Inr (Report action
                   (if k = [] then Usage
                    else if action = disable_hook then Unknown_hook k KNOWN_HOOKS
                    else Invalid_name k), cfg), w)"
proof -
  let ?p = "resolveOmoConfigPath w" and ?q = "resolveOpenCodeConfigPath w"
  note ex = executeAction_loaded [OF l, of infer action request options, unfolded Let_def e]
  from u have uk: "k \<notin> set KNOWN_HOOKS" using known_hooks_safe by blast
  from a consider (aa) "action = add_agent" | (ma) "action = modify_agent"
    | (ac) "action = add_category" | (mc) "action = modify_category"
    | (dh) "action = disable_hook" by auto
  then show ?thesis
  proof cases
    case aa
    with n have m: "agentName eff = Some k" by (simp add: entity_name_def)
    show ?thesis
      using usage_cases(1) [where eff = eff and p = ?p and q = ?q and cfg = cfg and w = w]
        add_agent_cases(1) [OF m _ u, where p = ?p and q = ?q and cfg = cfg and w = w] m ex aa
      by (cases "k = []") simp_all
  next
    case ma
    with n have m: "agentName eff = Some k" by (simp add: entity_name_def)
    show ?thesis
      using usage_cases(2) [where eff = eff and p = ?p and q = ?q and cfg = cfg and w = w]
        modify_agent_cases(1) [OF m _ u, where p = ?p and q = ?q and cfg = cfg and w = w] m ex ma
      by (cases "k = []") simp_all
  next
    case ac
    with n have m: "categoryName eff = Some k" by (simp add: entity_name_def)
    show ?thesis
      using usage_cases(3) [where eff = eff and p = ?p and q = ?q and cfg = cfg and w = w]
        add_category_cases(1) [OF m _ u, where p = ?p and q = ?q and cfg = cfg and w = w] m ex ac
      by (cases "k = []") simp_all
  next
    case mc
    with n have m: "categoryName eff = Some k" by (simp add: entity_name_def)
    show ?thesis
      using usage_cases(4) [where eff = eff and p = ?p and q = ?q and cfg = cfg and w = w]
        modify_category_cases(1) [OF m _ u, where p = ?p and q = ?q and cfg = cfg and w = w]
        m ex mc
      by (cases "k = []") simp_all
  next
    case dh
    with n have m: "hookName eff = Some k" by (simp add: entity_name_def)
    show ?thesis
      using usage_cases(5) [where eff = eff and p = ?p and q = ?q and cfg = cfg and w = w]
        disable_hook_cases(1) [OF m _ uk, where p = ?p and q = ?q and cfg = cfg and w = w]
        m ex dh
      by (cases "k = []") simp_all
  qed
qed

lemma add_agent_stored:
  assumes l: "loads w cfg"
    and e: "effectiveOptions infer add_agent request options = Some eff"
    and n: "agentName eff = Some name" "isSafeConfigKey name"
      "truthy (model (agent_data eff))" "\<not> out_of_range (temperature (agent_data eff))"
    and ok: "\<not> refused w (Mkdir ConfigDir)" "\<not> refused w (WriteFile (resolveOmoConfigPath w))"
  shows "\<exists>rep w'. executeAction infer add_agent request options w =
           (Inr (rep, cfg\<lparr>agents := Some ((agents_of cfg)(name \<mapsto> new_agent (agent_data eff)))\<rparr>),
            w') \<and>
           map_of (files w') (resolveOmoConfigPath w) =
             Some (Json (cfg\<lparr>agents :=
                     Some ((agents_of cfg)(name \<mapsto> new_agent (agent_data eff)))\<rparr>))"
proof -
  let ?p = "resolveOmoConfigPath w" and ?q = "resolveOpenCodeConfigPath w"
  note ex = executeAction_loaded [OF l, of infer add_agent request options, unfolded Let_def e]
  note h = add_agent_cases(4) [OF n(1) safe_nonempty [OF n(2)] n(2,3,4),
      where p = ?p and q = ?q and cfg = cfg and w = w]
  from stored_after_backup(1,2) [OF ok] show ?thesis
    unfolding ex by (simp add: h backed_up_def prod_eq_iff)
qed

text \<open>
  Claim C7, as amended. The safe-identifier check accepts a name exactly when it is not
  empty, starts with a letter or a digit, consists of letters, digits, hyphens and
  underscores only, has at most 64 characters and is not, in lower case, one of
  \<^verbatim>\<open>__proto__\<close>, \<^verbatim>\<open>prototype\<close>, \<^verbatim>\<open>constructor\<close>; so no name longer than 64 characters is
  accepted. A name that is not empty and fails the check is refused by add-agent,
  modify-agent, add-category and modify-category (invalid name) and by disable-hook (unknown
  hook), and the run changes nothing; for the empty name the action answers with its usage
  text, which is no error, and changes nothing either. After any run, a key of \<open>agents\<close> or of \<open>categories\<close> and an entry of
  \<open>disabled_hooks\<close> that the config in memory has and the config read did not have is a
  safe name, and, restore-backup apart, every file of the configuration directory holds
  what it held or the config in memory.
\<close>

theorem safe_config_keys:
  "(isSafeConfigKey k \<longleftrightarrow>
      k \<noteq> [] \<and> isAlnum (hd k) \<and> list_all isKeyChar k \<and> length k \<le> 64 \<and>
      toLowerCase k \<notin> set FORBIDDEN_KEYS) \<and>
   (64 < length k \<longrightarrow> \<not> isSafeConfigKey k) \<and>
   (loads w cfg \<and> effectiveOptions infer action request options = Some eff \<and>
    action \<in> {add_agent, modify_agent, add_category, modify_category, disable_hook} \<and>
    entity_name action eff = Some k \<and> \<not> isSafeConfigKey k \<longrightarrow>
      executeAction infer action request options w =
        (Inr (Report action
                (if k = [] then Usage
                 else if action = disable_hook then Unknown_hook k KNOWN_HOOKS
                 else Invalid_name k), cfg), w)) \<and>
   (loads w cfg \<and> executeAction infer action request options w = (Inr (rep, mem), w') \<longrightarrow>
      (agents_of mem k \<noteq> None \<longrightarrow> agents_of cfg k \<noteq> None \<or> isSafeConfigKey k) \<and>
      (categories_of mem k \<noteq> None \<longrightarrow> categories_of cfg k \<noteq> None \<or> isSafeConfigKey k) \<and>
      (k \<in> set (hooks_of mem) \<longrightarrow> k \<in> set (hooks_of cfg) \<or> isSafeConfigKey k) \<and>
      (action \<noteq> restore_backup \<longrightarrow>
         map_of (files w') (ConfigDir, n) = map_of (files w) (ConfigDir, n) \<or>
         map_of (files w') (ConfigDir, n) = Some (Json mem)))"
proof (intro conjI impI; (elim conjE)?)
  show "isSafeConfigKey k \<longleftrightarrow>
      k \<noteq> [] \<and> isAlnum (hd k) \<and> list_all isKeyChar k \<and> length k \<le> 64 \<and>
      toLowerCase k \<notin> set FORBIDDEN_KEYS"
    by (rule isSafeConfigKey_iff)
  show "\<not> isSafeConfigKey k" if "64 < length k"
    using that by (simp add: isSafeConfigKey_iff)
  show "executeAction infer action request options w =
        (Inr (Report action
                (if k = [] then Usage
                 else if action = disable_hook then Unknown_hook k KNOWN_HOOKS
                 else Invalid_name k), cfg), w)"
    if "loads w cfg" "effectiveOptions infer action request options = Some eff"
      "action \<in> {add_agent, modify_agent, add_category, modify_category, disable_hook}"
      "entity_name action eff = Some k" "\<not> isSafeConfigKey k"
    using that by (rule unsafe_rejected)
next
  assume l: "loads w cfg"
    and x: "executeAction infer action request options w = (Inr (rep, mem), w')"
  note s = executeAction_store [OF l x]
  { assume "agents_of mem k \<noteq> None" then show "agents_of cfg k \<noteq> None \<or> isSafeConfigKey k"
      using s(1) [of k] by blast }
  { assume "categories_of mem k \<noteq> None"
    then show "categories_of cfg k \<noteq> None \<or> isSafeConfigKey k" using s(2) [of k] by blast }
  { assume "k \<in> set (hooks_of mem)"
    then show "k \<in> set (hooks_of cfg) \<or> isSafeConfigKey k" using s(3) [of k] by blast }
  { assume "action \<noteq> restore_backup"
    then show "map_of (files w') (ConfigDir, n) = map_of (files w) (ConfigDir, n) \<or>
         map_of (files w') (ConfigDir, n) = Some (Json mem)" using s(4) [of n] by blast }
qed


theorem safe_config_keys_witness:
  "isSafeConfigKey (''a-b_9'' @ replicate 59 CHR ''x'') \<and>
   length (''a-b_9'' @ replicate 59 CHR ''x'') = 64 \<and>
   \<not> isSafeConfigKey (''a-b_9'' @ replicate 60 CHR ''x'') \<and>
   length (''a-b_9'' @ replicate 60 CHR ''x'') = 65 \<and>
   loads example_world example_config \<and>
   executeAction infer_nothing add_agent []
       (Some (agent_options ''__proto__'' (Some ''opencode/gpt-5.2'') None)) example_world =
     (Inr (Report add_agent (Invalid_name ''__proto__''), example_config), example_world) \<and>
   executeAction infer_nothing add_category []
       (Some (category_options ''__proto__'' (Some ''opencode/gpt-5.2'') None)) example_world =
     (Inr (Report add_category (Invalid_name ''__proto__''), example_config), example_world) \<and>
   executeAction infer_nothing disable_hook [] (Some (hook_options ''__proto__'')) example_world =
     (Inr (Report disable_hook (Unknown_hook ''__proto__'' KNOWN_HOOKS), example_config),
      example_world) \<and>
   agents_of example_config ''helper'' = None \<and>
   (\<exists>rep mem w'.
      executeAction infer_nothing add_agent []
        (Some (agent_options ''helper'' (Some ''opencode/gpt-5.2'') None)) example_world =
        (Inr (rep, mem), w') \<and>
      agents_of mem ''helper'' \<noteq> None \<and> isSafeConfigKey ''helper'' \<and>
      map_of (files w') (ConfigDir, ''oh-my-opencode.json'') = Some (Json mem))"
proof -
  let ?m = "Some ''opencode/gpt-5.2''"
  let ?K = "''a-b_9'' @ replicate 59 CHR ''x''"
  let ?L = "''a-b_9'' @ replicate 60 CHR ''x''"
  let ?six = "{add_agent, modify_agent, add_category, modify_category, disable_hook}"
  have c1: "isSafeConfigKey ?K"
    by (rule iffD2 [OF safe_config_keys [THEN conjunct1]])
      (simp add: isAlnum_def isKeyChar_def FORBIDDEN_KEYS_def toLowerCase_def
        toLowerCase_char_def isUpper_def list_all_iff)
  have c2: "\<not> isSafeConfigKey ?L"
    by (rule safe_config_keys [THEN conjunct2, THEN conjunct1, THEN mp]) simp
  have u: "\<not> isSafeConfigKey ''__proto__''" by (rule proto_unsafe)
  have n: "entity_name add_agent
             (agent_options k ?m None\<lparr>agentData := Some (agent_data (agent_options k ?m None)),
                categoryData := Some (category_data (agent_options k ?m None))\<rparr>) = Some k"
    "entity_name add_category
       (category_options k ?m None\<lparr>agentData := Some (agent_data (category_options k ?m None)),
          categoryData := Some (category_data (category_options k ?m None))\<rparr>) = Some k"
    "entity_name disable_hook
       (hook_options k\<lparr>agentData := Some (agent_data (hook_options k)),
          categoryData := Some (category_data (hook_options k))\<rparr>) = Some k" for k
    by (simp_all add: entity_name_def agent_options_def category_options_def hook_options_def)
  note rej = safe_config_keys [THEN conjunct2, THEN conjunct2, THEN conjunct1, THEN mp,
      OF conjI [OF example_loads conjI [OF effective_example conjI [OF _ conjI [OF _ u]]]]]
  have c3: "executeAction infer_nothing add_agent [] (Some (agent_options ''__proto__'' ?m None))
       example_world =
     (Inr (Report add_agent (Invalid_name ''__proto__''), example_config), example_world)"
    using rej [of add_agent, OF _ n(1), of "[]"] by simp
  have c4: "executeAction infer_nothing add_category []
       (Some (category_options ''__proto__'' ?m None)) example_world =
     (Inr (Report add_category (Invalid_name ''__proto__''), example_config), example_world)"
    using rej [of add_category, OF _ n(2), of "[]"] by simp
  have c5: "executeAction infer_nothing disable_hook [] (Some (hook_options ''__proto__''))
       example_world =
     (Inr (Report disable_hook (Unknown_hook ''__proto__'' KNOWN_HOOKS), example_config),
      example_world)"
    using rej [of disable_hook, OF _ n(3), of "[]"] by simp
  let ?o = "agent_options ''helper'' ?m None"
  have k: "isSafeConfigKey ''helper''" by (simp add: key_defs)
  have old: "agents_of example_config ''helper'' = None"
    by (simp add: agents_of_def example_config_def)
  from add_agent_stored [OF example_loads effective_example _ k _ _ example_writable(1,2),
      of ?o "[]"]
  obtain rep mem w' where
    x: "executeAction infer_nothing add_agent [] (Some ?o) example_world = (Inr (rep, mem), w')"
    and f: "map_of (files w') (resolveOmoConfigPath example_world) = Some (Json mem)"
    and m: "agents_of mem ''helper'' \<noteq> None"
    by (auto simp: agent_options_def no_options_def agent_data_def empty_agent_def truthy_def
        out_of_range_def agents_of_def)
  from safe_config_keys [THEN conjunct2, THEN conjunct2, THEN conjunct2, THEN mp,
      OF conjI [OF example_loads x], THEN conjunct1, THEN mp, OF m] old
  have s: "isSafeConfigKey ''helper''" by simp
  from x f m s have c6: "\<exists>rep mem w'.
      executeAction infer_nothing add_agent [] (Some ?o) example_world = (Inr (rep, mem), w') \<and>
      agents_of mem ''helper'' \<noteq> None \<and> isSafeConfigKey ''helper'' \<and>
      map_of (files w') (ConfigDir, ''oh-my-opencode.json'') = Some (Json mem)"
    unfolding example_paths by blast
  have len: "length ?K = 64" "length ?L = 65" by simp_all
  show ?thesis using c1 c2 c3 c4 c5 c6 old len example_loads by blast
qed

theorem leading_underscore_counterexample:
  "list_all isKeyChar ''_a'' \<and> length ''_a'' \<le> 64 \<and>
   toLowerCase ''_a'' \<notin> set FORBIDDEN_KEYS \<and>
   \<not> isSafeConfigKey ''_a'' \<and>
   executeAction infer_nothing add_agent []
       (Some (agent_options ''_a'' (Some ''opencode/gpt-5.2'') None)) example_world =
     (Inr (Report add_agent (Invalid_name ''_a''), example_config), example_world)"
proof -
  let ?o = "agent_options ''_a'' (Some ''opencode/gpt-5.2'') None"
  have u: "\<not> isSafeConfigKey ''_a''" by (simp add: key_defs)
  have n: "entity_name add_agent
             (?o\<lparr>agentData := Some (agent_data ?o), categoryData := Some (category_data ?o)\<rparr>) =
           Some ''_a''"
    by (simp add: entity_name_def agent_options_def)
  have "executeAction infer_nothing add_agent [] (Some ?o) example_world =
     (Inr (Report add_agent (Invalid_name ''_a''), example_config), example_world)"
    using unsafe_rejected [OF example_loads effective_example _ n u, of "[]"] by simp
  moreover have "list_all isKeyChar ''_a''" "length ''_a'' \<le> 64"
    "toLowerCase ''_a'' \<notin> set FORBIDDEN_KEYS"
    by (simp_all add: key_defs)
  ultimately show ?thesis using u by blast
qed

end
